(* ===== verification/Prelude.thy ===== *)
theory Prelude
  imports Main "HOL-Library.Monad_Syntax"
begin

text \<open>
  Shared by every component: the collections the proofs draw from and the generic facts
  about lists, options and finite index sets.

  \<^item> \<^theory_text>\<open>go_simps\<close>: equations that compute the modelled standard-library functions;
  \<^item> \<^theory_text>\<open>yields_intro\<close>: the structural rules of the effect contracts;
  \<^item> \<^theory_text>\<open>yields_op\<close>: the contracts of the primitive and derived operations;
  \<^item> \<^theory_text>\<open>returns_intro\<close>: the rules that show an operation always comes back.
\<close>

named_theorems go_simps
named_theorems yields_intro
named_theorems yields_op
named_theorems returns_intro

section \<open>Lists\<close>

lemma filter_empty_if_none: "(\<And>x. x \<in> set xs \<Longrightarrow> \<not> P x) \<Longrightarrow> filter P xs = []"
  by (simp add: filter_empty_conv)

lemma list_all_imp_filter_Nil:
  "list_all A xs \<Longrightarrow> (\<And>x. A x \<Longrightarrow> \<not> P x) \<Longrightarrow> filter P xs = []"
  by (auto simp: list_all_iff filter_empty_conv)

lemma find_append: "find P (xs @ ys) = (case find P xs of None \<Rightarrow> find P ys | Some x \<Rightarrow> Some x)"
  by (induction xs) auto

lemma find_Some_set: "find P xs = Some x \<Longrightarrow> x \<in> set xs \<and> P x"
  by (auto simp: find_Some_iff in_set_conv_nth)

lemma find_None_all: "find P xs = None \<longleftrightarrow> (\<forall>x \<in> set xs. \<not> P x)"
  by (auto simp: find_None_iff)

lemma takeWhile_hd_stop: "dropWhile P xs = y # ys \<Longrightarrow> \<not> P y"
  by (metis dropWhile_eq_Cons_conv)

lemma dropWhile_split: "dropWhile P xs = y # ys \<Longrightarrow> xs = takeWhile P xs @ y # ys"
  by (metis takeWhile_dropWhile_id)

section \<open>Free indices of a bounded range\<close>

text \<open>The indices of the half-open range from a to b that a list does not hold.\<close>

definition free_in :: "int list \<Rightarrow> int \<Rightarrow> int \<Rightarrow> int set" where
  "free_in used a b = {j. a \<le> j \<and> j < b \<and> j \<notin> set used}"

lemma finite_free_in [simp]: "finite (free_in used a b)"
  by (rule finite_subset [of _ "{a..<b}"]) (auto simp: free_in_def)

lemma free_in_empty_range [simp]: "b \<le> a \<Longrightarrow> free_in used a b = {}"
  by (auto simp: free_in_def)

lemma free_in_skip: "a \<in> set used \<Longrightarrow> free_in used a b = free_in used (a + 1) b"
  by (auto simp: free_in_def) (metis le_less zless_add1_eq add1_zle_eq)

lemma free_in_take:
  "a \<notin> set used \<Longrightarrow> a < b \<Longrightarrow> free_in used a b = insert a (free_in (a # used) (a + 1) b)"
  by (auto simp: free_in_def)

lemma free_in_cons_below: "x < a \<Longrightarrow> free_in (x # used) a b = free_in used a b"
  by (auto simp: free_in_def)

lemma card_free_in_take:
  "a \<notin> set used \<Longrightarrow> a < b \<Longrightarrow> card (free_in used a b) = Suc (card (free_in (a # used) (a + 1) b))"
proof -
  assume a: "a \<notin> set used" and b: "a < b"
  have "a \<notin> free_in (a # used) (a + 1) b" by (simp add: free_in_def)
  with a b show ?thesis by (simp add: free_in_take)
qed

text \<open>Few used indices leave many free ones: the pigeonhole bound the allocators rest on.\<close>

lemma card_free_in_ge:
  assumes "0 \<le> b"
  shows "nat b \<le> card (free_in used 0 b) + card (set used)"
proof -
  have "{0..<b} \<subseteq> free_in used 0 b \<union> set used"
    by (auto simp: free_in_def)
  then have "card {0..<b} \<le> card (free_in used 0 b \<union> set used)"
    by (intro card_mono) auto
  also have "\<dots> \<le> card (free_in used 0 b) + card (set used)"
    by (rule card_Un_le)
  finally show ?thesis by simp
qed

section \<open>Contracts of selection loops\<close>

text \<open>
  Several loops of the operator walk a list and stop at the first element that passes a
  test. A selector that satisfies the two laws below is determined by its test; the locale
  is interpreted where each loop is modelled.
\<close>

locale first_match =
  fixes select :: "'a list \<Rightarrow> 'a option"
    and test :: "'a \<Rightarrow> bool"
  assumes select_Nil: "select [] = None"
    and select_Cons: "select (x # xs) = (if test x then Some x else select xs)"
begin

lemma select_find: "select xs = find test xs"
  by (induction xs) (auto simp: select_Nil select_Cons)

lemma select_sound: "select xs = Some x \<Longrightarrow> x \<in> set xs \<and> test x"
  by (simp add: select_find find_Some_set)

lemma select_complete: "select xs = None \<longleftrightarrow> (\<forall>x \<in> set xs. \<not> test x)"
  by (simp add: select_find find_None_all)

lemma select_first:
  "select xs = Some x \<Longrightarrow> \<exists>ys zs. xs = ys @ x # zs \<and> (\<forall>y \<in> set ys. \<not> test y) \<and> test x"
proof (induction xs)
  case Nil
  then show ?case by (simp add: select_Nil)
next
  case (Cons a xs)
  show ?case
  proof (cases "test a")
    case True
    with Cons.prems have "x = a" by (simp add: select_Cons)
    with True show ?thesis by (intro exI [of _ "[]"] exI [of _ xs]) simp
  next
    case False
    with Cons obtain ys zs where "xs = ys @ x # zs" "\<forall>y \<in> set ys. \<not> test y" "test x"
      by (auto simp: select_Cons)
    with False show ?thesis by (intro exI [of _ "a # ys"] exI [of _ zs]) simp
  qed
qed

end

end
