(* ===== verification/GoLib.thy ===== *)
theory GoLib
  imports Prelude "HOL-Library.Sublist"
begin

text \<open>
  What the operator uses of Go and of its standard library: 32-bit arithmetic, time values,
  \<^verbatim>\<open>fmt.Sprintf("%d")\<close>, \<^verbatim>\<open>strconv.ParseInt(s, 10, 32)\<close>, \<^verbatim>\<open>strings.Contains\<close> and
  \<^verbatim>\<open>strings.SplitN(s, "/", 2)\<close>. Strings are byte lists. Nothing here belongs to the
  repository; the lemmas are the laws the component theories rest on.
\<close>

section \<open>Integers and time\<close>

text \<open>Two's complement wrap-around of a Go int32: every int32 addition and product is wrapped.\<close>

definition wrap32 :: "int \<Rightarrow> int" where
  "wrap32 x = (x + 2147483648) mod 4294967296 - 2147483648"

definition in32 :: "int \<Rightarrow> bool" where
  "in32 x \<longleftrightarrow> -2147483648 \<le> x \<and> x \<le> 2147483647"

lemma wrap32_id [simp]: "in32 x \<Longrightarrow> wrap32 x = x"
  by (simp add: wrap32_def in32_def)

lemma in32_wrap32 [simp]: "in32 (wrap32 x)"
proof -
  have "0 \<le> (x + 2147483648) mod 4294967296" "(x + 2147483648) mod 4294967296 < 4294967296"
    by simp_all
  then show ?thesis unfolding wrap32_def in32_def by linarith
qed

lemma wrap32_lower: "-2147483648 \<le> wrap32 x"
  and wrap32_upper: "wrap32 x \<le> 2147483647"
  using in32_wrap32 [of x] by (auto simp: in32_def)

lemma wrap32_succ: "in32 x \<Longrightarrow> x < 2147483647 \<Longrightarrow> wrap32 (x + 1) = x + 1"
  by (rule wrap32_id) (simp add: in32_def)

text \<open>Durations and instants are nanosecond counts; \<^verbatim>\<open>Time.Unix\<close> floors to seconds.\<close>

definition seconds :: "int \<Rightarrow> int" where
  "seconds n = n * 1000000000"

definition minutes :: "int \<Rightarrow> int" where
  "minutes n = seconds (60 * n)"

definition unixSeconds :: "int \<Rightarrow> int" where
  "unixSeconds t = t div 1000000000"

section \<open>Printing and parsing decimal integers\<close>

definition digitChar :: "nat \<Rightarrow> char" where
  "digitChar n = char_of (48 + n)"

fun showNat :: "nat \<Rightarrow> string" where
  "showNat n = (if n < 10 then [digitChar n] else showNat (n div 10) @ [digitChar (n mod 10)])"

declare showNat.simps [simp del]

definition showInt :: "int \<Rightarrow> string" where
  "showInt i = (if i < 0 then CHR ''-'' # showNat (nat (- i)) else showNat (nat i))"

definition digitVal :: "char \<Rightarrow> nat option" where
  "digitVal c = (if 48 \<le> (of_char c :: nat) \<and> (of_char c :: nat) \<le> 57
     then Some (of_char c - 48) else None)"

fun parseDigits :: "nat \<Rightarrow> string \<Rightarrow> nat option" where
  "parseDigits acc [] = Some acc"
| "parseDigits acc (c # cs) =
     (case digitVal c of None \<Rightarrow> None | Some d \<Rightarrow> parseDigits (10 * acc + d) cs)"

text \<open>\<^verbatim>\<open>ParseUint\<close> refuses the empty string; the sign is stripped by \<^verbatim>\<open>ParseInt\<close>.\<close>

definition parseUint :: "string \<Rightarrow> nat option" where
  "parseUint s = (if s = [] then None else parseDigits 0 s)"

definition parseInt32 :: "string \<Rightarrow> int option" where
  "parseInt32 s =
     (case s of
        [] \<Rightarrow> None
      | c # cs \<Rightarrow>
          (case parseUint (if c = CHR ''+'' \<or> c = CHR ''-'' then cs else s) of
             None \<Rightarrow> None
           | Some n \<Rightarrow>
               (if c = CHR ''-'' then (if n \<le> 2147483648 then Some (- int n) else None)
                else (if n < 2147483648 then Some (int n) else None))))"

lemma of_char_digitChar: "n < 10 \<Longrightarrow> (of_char (digitChar n) :: nat) = 48 + n"
  by (simp add: digitChar_def)

lemma digitVal_digitChar [simp]: "n < 10 \<Longrightarrow> digitVal (digitChar n) = Some n"
  by (simp add: digitVal_def of_char_digitChar)

lemma digitChar_not_sign: "n < 10 \<Longrightarrow> digitChar n \<noteq> CHR ''-'' \<and> digitChar n \<noteq> CHR ''+''"
  using digitVal_digitChar [of n] by (auto simp: digitVal_def)

lemma parseDigits_append:
  "parseDigits acc (xs @ ys) = (case parseDigits acc xs of None \<Rightarrow> None | Some a \<Rightarrow> parseDigits a ys)"
  by (induction xs arbitrary: acc) (auto split: option.splits)

lemma parseDigits_showNat: "parseDigits 0 (showNat n) = Some n"
proof (induction n rule: showNat.induct)
  case (1 n)
  then show ?case
    by (cases "n < 10") (simp_all add: showNat.simps [of n] parseDigits_append)
qed

lemma showNat_nonempty [simp]: "showNat n \<noteq> []"
  by (simp add: showNat.simps [of n])

lemma showNat_digits: "c \<in> set (showNat n) \<Longrightarrow> \<exists>d<10. c = digitChar d"
proof (induction n rule: showNat.induct)
  case (1 n)
  show ?case
  proof (cases "n < 10")
    case True
    with 1(2) show ?thesis by (auto simp: showNat.simps [of n])
  next
    case False
    with 1(2) have "c \<in> set (showNat (n div 10)) \<or> c = digitChar (n mod 10)"
      by (auto simp: showNat.simps [of n])
    moreover have "n mod 10 < 10" by simp
    ultimately show ?thesis using 1(1) [OF False] by blast
  qed
qed

lemma showNat_inject: "showNat m = showNat n \<Longrightarrow> m = n"
  by (metis option.inject parseDigits_showNat)

lemma showNat_hd: "\<exists>d<10. \<exists>cs. showNat n = digitChar d # cs"
  by (cases "showNat n") (use showNat_digits [of "hd (showNat n)" n] in auto)

lemma parseInt32_showInt [go_simps, simp]:
  assumes "in32 i"
  shows "parseInt32 (showInt i) = Some i"
proof (cases "i < 0")
  case True
  with assms show ?thesis
    by (auto simp: parseInt32_def showInt_def parseUint_def parseDigits_showNat in32_def)
next
  case False
  obtain d cs where d: "d < 10" "showNat (nat i) = digitChar d # cs"
    using showNat_hd by blast
  with digitChar_not_sign [OF d(1)] parseDigits_showNat [of "nat i"] False assms
  show ?thesis
    by (auto simp: parseInt32_def showInt_def parseUint_def in32_def)
qed

lemma showInt_inject: "in32 i \<Longrightarrow> in32 j \<Longrightarrow> showInt i = showInt j \<Longrightarrow> i = j"
  by (metis option.inject parseInt32_showInt)

lemma parseInt32_range: "parseInt32 s = Some i \<Longrightarrow> in32 i"
  by (auto simp: parseInt32_def in32_def split: list.splits option.splits if_splits)

lemma parseInt32_Nil [go_simps, simp]: "parseInt32 [] = None"
  by (simp add: parseInt32_def)

section \<open>Strings\<close>

definition goHasPrefix :: "string \<Rightarrow> string \<Rightarrow> bool" where
  "goHasPrefix s p \<longleftrightarrow> length p \<le> length s \<and> take (length p) s = p"

fun goContains :: "string \<Rightarrow> string \<Rightarrow> bool" where
  "goContains [] p \<longleftrightarrow> p = []"
| "goContains (c # s) p \<longleftrightarrow> goHasPrefix (c # s) p \<or> goContains s p"

text \<open>\<^verbatim>\<open>strings.SplitN(s, "/", 2)\<close>: at most one cut, at the first slash.\<close>

definition splitSlash :: "string \<Rightarrow> string list" where
  "splitSlash s =
     (case dropWhile (\<lambda>c. c \<noteq> CHR ''/'') s of
        [] \<Rightarrow> [s]
      | _ # rest \<Rightarrow> [takeWhile (\<lambda>c. c \<noteq> CHR ''/'') s, rest])"

lemma goHasPrefix_iff: "goHasPrefix s p \<longleftrightarrow> prefix p s"
  by (metis append_eq_conv_conj goHasPrefix_def prefix_def prefix_length_le)

lemma goContains_iff: "goContains s p \<longleftrightarrow> (\<exists>a b. s = a @ p @ b)"
proof (induction s)
  case Nil
  then show ?case by simp
next
  case (Cons c s)
  have "(\<exists>a b. c # s = a @ p @ b) \<longleftrightarrow> prefix p (c # s) \<or> (\<exists>a b. s = a @ p @ b)"
  proof
    assume "\<exists>a b. c # s = a @ p @ b"
    then obtain a b where ab: "c # s = a @ p @ b" by blast
    then show "prefix p (c # s) \<or> (\<exists>a b. s = a @ p @ b)"
      by (cases a) (auto simp: prefix_def)
  next
    assume "prefix p (c # s) \<or> (\<exists>a b. s = a @ p @ b)"
    then show "\<exists>a b. c # s = a @ p @ b"
    proof
      assume "prefix p (c # s)"
      then obtain b where "c # s = [] @ p @ b" by (auto simp: prefix_def)
      then show ?thesis by blast
    next
      assume "\<exists>a b. s = a @ p @ b"
      then obtain a b where "c # s = (c # a) @ p @ b" by auto
      then show ?thesis by blast
    qed
  qed
  with Cons show ?case by (simp add: goHasPrefix_iff)
qed

lemma goContains_middle [intro]: "goContains (a @ p @ b) p"
  by (auto simp: goContains_iff)

lemma goContains_char: "goContains s [c] \<longleftrightarrow> c \<in> set s"
  by (auto simp: goContains_iff in_set_conv_decomp)

lemma goContains_wrap: "goContains s p \<Longrightarrow> goContains (a @ s) p"
  by (metis append.assoc goContains_iff)

lemma dropWhile_slash:
  assumes "dropWhile (\<lambda>c. c \<noteq> CHR ''/'') s = y # ys"
  shows "y = CHR ''/''" and "s = takeWhile (\<lambda>c. c \<noteq> CHR ''/'') s @ CHR ''/'' # ys"
proof -
  show y: "y = CHR ''/''"
    using takeWhile_hd_stop [OF assms] by simp
  show "s = takeWhile (\<lambda>c. c \<noteq> CHR ''/'') s @ CHR ''/'' # ys"
    using dropWhile_split [OF assms] y by simp
qed

lemma splitSlash_join:
  assumes "splitSlash s = [a, b]"
  shows "s = a @ ''/'' @ b" and "CHR ''/'' \<notin> set a"
proof -
  from assms obtain y where d: "dropWhile (\<lambda>c. c \<noteq> CHR ''/'') s = y # b"
    and a: "a = takeWhile (\<lambda>c. c \<noteq> CHR ''/'') s"
    by (auto simp: splitSlash_def split: list.splits)
  from dropWhile_slash(2) [OF d] a show "s = a @ ''/'' @ b" by simp
  from a show "CHR ''/'' \<notin> set a" by (auto dest: set_takeWhileD)
qed

lemma splitSlash_no_slash:
  assumes "CHR ''/'' \<notin> set s"
  shows "splitSlash s = [s]"
proof -
  have "dropWhile (\<lambda>c. c \<noteq> CHR ''/'') s = []"
    using assms by (auto simp: dropWhile_eq_Nil_conv)
  then show ?thesis unfolding splitSlash_def by (simp only: list.case)
qed

lemma splitSlash_slash:
  assumes "CHR ''/'' \<in> set s"
  shows "\<exists>a b. splitSlash s = [a, b]"
  using assms by (auto simp: splitSlash_def dropWhile_eq_Nil_conv split: list.splits)

lemma splitSlash_append:
  "CHR ''/'' \<notin> set a \<Longrightarrow> splitSlash (a @ ''/'' @ b) = [a, b]"
proof -
  assume a: "CHR ''/'' \<notin> set a"
  then have "dropWhile (\<lambda>c. c \<noteq> CHR ''/'') (a @ ''/'' @ b) = ''/'' @ b"
    by (subst dropWhile_append2) auto
  moreover from a have "takeWhile (\<lambda>c. c \<noteq> CHR ''/'') (a @ ''/'' @ b) = a"
    by (subst takeWhile_append2) auto
  ultimately show ?thesis by (simp add: splitSlash_def)
qed

end
