(* ===== verification/Api.thy ===== *)
theory Api
  imports GoLib
begin

text \<open>
  The data of the operator: the three custom resources of \<^verbatim>\<open>api/v1alpha1\<close>, the fields
  the code reads or writes of the Kubernetes objects (Job, Pod, Node, Secret), the
  unstructured CheckpointBackup, and the compute instance. Go structs are records with the
  source's field order, pointers are options, maps are partial functions; a map that the
  code compares with nil, or shares between objects, is an option of a partial function.
  Type and list metadata (apiVersion, kind, resourceVersion) are left out: no code reads
  them.
\<close>

section \<open>Errors\<close>

text \<open>
  A Go error as its callers see it: what \<^verbatim>\<open>errors.IsNotFound\<close> and
  \<^verbatim>\<open>errors.IsAlreadyExists\<close> answer on it, and its text. \<^verbatim>\<open>fmt.Errorf\<close> with %w
  keeps the classification of the wrapped error.
\<close>

datatype reason = NotFound | AlreadyExists | OtherReason

datatype go_error = GoError (errReason: reason) (errText: string)

type_synonym err = "go_error option"

definition isNotFound :: "go_error \<Rightarrow> bool" where
  "isNotFound e \<longleftrightarrow> errReason e = NotFound"

definition isAlreadyExists :: "go_error \<Rightarrow> bool" where
  "isAlreadyExists e \<longleftrightarrow> errReason e = AlreadyExists"

definition errorf :: "string \<Rightarrow> go_error" where
  "errorf msg = GoError OtherReason msg"

definition wrapErr :: "string \<Rightarrow> go_error \<Rightarrow> go_error" where
  "wrapErr pre e = GoError (errReason e) (pre @ errText e)"

lemma errText_wrapErr [go_simps, simp]: "errText (wrapErr pre e) = pre @ errText e"
  by (simp add: wrapErr_def)

section \<open>Kubernetes metadata\<close>

type_synonym labels = "string \<rightharpoonup> string"

record owner_ref =
  orKind :: string
  orName :: string
  orUID :: string
  orController :: bool

record obj_meta =
  mName :: string
  mNamespace :: string
  mUID :: string
  mLabels :: labels
  mAnnotations :: labels
  mOwners :: "owner_ref list"
  mFinalizers :: "string list"
  mDeletionTimestamp :: "int option"
  mCreationTimestamp :: int

definition noMeta :: obj_meta where
  "noMeta = \<lparr>mName = [], mNamespace = [], mUID = [], mLabels = Map.empty,
     mAnnotations = Map.empty, mOwners = [], mFinalizers = [],
     mDeletionTimestamp = None, mCreationTimestamp = 0\<rparr>"

record local_ref =
  lrName :: string

record secret_ref =
  srName :: string
  srNamespace :: string

record condition =
  cdType :: string
  cdStatus :: string

section \<open>SpotInstanceJob\<close>

record checkpoint_storage =
  csType :: string
  csBucket :: string
  csPathPrefix :: string

record checkpoint_config =
  ccImageRepo :: string
  ccInterval :: int
  ccCredentialRef :: "secret_ref option"
  ccStorage :: "checkpoint_storage option"

text \<open>
  Containers, pod specs and job specs keep the fields the operator touches; the fields it
  only copies are one opaque value each.
\<close>

record container =
  cName :: string
  cImage :: string
  cOther :: string

record pod_spec =
  psNodeName :: string
  psContainers :: "container list"
  psOther :: string

record pod_template =
  ptLabels :: "labels option"
  ptAnnotations :: "labels option"
  ptSpec :: pod_spec

record job_spec =
  jsParallelism :: "int option"
  jsCompletions :: "int option"
  jsActiveDeadlineSeconds :: "int option"
  jsBackoffLimit :: "int option"
  jsTTLSecondsAfterFinished :: "int option"
  jsCompletionMode :: "string option"
  jsSuspend :: "bool option"
  jsPodFailurePolicy :: "string option"
  jsSuccessPolicy :: "string option"
  jsBackoffLimitPerIndex :: "int option"
  jsMaxFailedIndexes :: "int option"
  jsPodReplacementPolicy :: "string option"
  jsManagedBy :: "string option"
  jsManualSelector :: "bool option"
  jsSelector :: "string option"
  jsTemplate :: pod_template

record sij_spec =
  sjReplicas :: "int option"
  sjJobTemplate :: job_spec
  sjCheckpointConfig :: checkpoint_config
  sjInstanceTemplateRef :: local_ref
  sjCredentialsRef :: secret_ref

record job_replica_status =
  rsName :: string
  rsNodeName :: string
  rsPhase :: string
  rsLastCheckpointImage :: string

record sij_status =
  ssConditions :: "condition list"
  ssActiveReplicas :: int
  ssLastCheckpointTime :: "int option"
  ssLastCheckpointImage :: string
  ssJobStatuses :: "job_replica_status list"

record spot_job =
  sjMeta :: obj_meta
  sjSpec :: sij_spec
  sjStatus :: sij_status

section \<open>InstanceTemplate\<close>

record gcp_config =
  gcProject :: string
  gcZone :: string
  gcRegion :: string
  gcMachineType :: string
  gcDiskSizeGB :: int
  gcDiskType :: string
  gcNetworkTags :: "string list"
  gcServiceAccount :: string

record gpu_config =
  gpType :: string
  gpCount :: int

record template_spec =
  tsVMImage :: string
  tsGPU :: "gpu_config option"
  tsGCP :: gcp_config
  tsStartupScript :: string
  tsPreemptible :: "bool option"

record template_status =
  ttConditions :: "condition list"

record instance_template =
  itMeta :: obj_meta
  itSpec :: template_spec
  itStatus :: template_status

section \<open>ProvisionedInstance\<close>

record pi_spec =
  piTemplateName :: string
  piTemplateNamespace :: string
  piSpotJobRef :: "owner_ref option"
  piCredentialsRef :: secret_ref

record pi_status =
  piConditions :: "condition list"
  piInstanceID :: string
  piInstanceName :: string
  piInternalIP :: string
  piExternalIP :: string
  piState :: string
  piNodeName :: string
  piJoinedCluster :: bool
  piCreationTime :: "int option"
  piPreemptionNotice :: bool

record prov_instance =
  piMeta :: obj_meta
  piSpec :: pi_spec
  piStatus :: pi_status

definition noPIStatus :: pi_status where
  "noPIStatus = \<lparr>piConditions = [], piInstanceID = [], piInstanceName = [], piInternalIP = [],
     piExternalIP = [], piState = [], piNodeName = [], piJoinedCluster = False,
     piCreationTime = None, piPreemptionNotice = False\<rparr>"

section \<open>Jobs, pods, nodes, secrets\<close>

record job =
  jMeta :: obj_meta
  jSpec :: job_spec
  jActive :: int
  jSucceeded :: int

record pod =
  pMeta :: obj_meta
  pSpec :: pod_spec

record node =
  nMeta :: obj_meta
  nConditions :: "condition list"

record secret =
  secMeta :: obj_meta
  secData :: labels

section \<open>CheckpointBackup\<close>

text \<open>
  CheckpointBackup is read through \<^verbatim>\<open>unstructured.NestedMap\<close>, \<^verbatim>\<open>NestedString\<close>
  and \<^verbatim>\<open>NestedSlice\<close>. A field below is an option: the accessor's value, or None when
  it reports not found. List elements stay untyped: a string, a string-keyed object, or
  anything else, as the code's type assertions see them.
\<close>

datatype iface = IString string | IMap "(string \<times> iface) list" | IOther

record ckpt_status =
  cpPhase :: "string option"
  cpCompletionTime :: "string option"
  cpContainers :: "iface list option"
  cpBuiltImages :: "iface list option"

record ckpt_registry =
  crURL :: string
  crRepository :: string
  crSecretRef :: "secret_ref option"

record ckpt_spec =
  ckSchedule :: string
  ckStopPod :: bool
  ckPodName :: string
  ckPodNamespace :: string
  ckResourceAPIVersion :: string
  ckResourceKind :: string
  ckResourceName :: string
  ckResourceNamespace :: string
  ckRegistry :: ckpt_registry
  ckContainers :: "(string \<times> string) list"

record checkpoint_backup =
  cpMeta :: obj_meta
  cpSpec :: ckpt_spec
  cpStatus :: "ckpt_status option"

text \<open>A \<^verbatim>\<open>map[string]interface{}\<close> taken out of a checkpoint status.\<close>

type_synonym cmap = "(string \<times> iface) list"

section \<open>Compute instances\<close>

record access_config =
  acName :: string
  acType :: string
  acNatIP :: string

record net_interface =
  niNetworkIP :: string
  niAccessConfigs :: "access_config list"

record gce_scheduling =
  gsPreemptible :: bool
  gsAutomaticRestart :: "bool option"
  gsOnHostMaintenance :: string

record gce_disk =
  gdBoot :: bool
  gdAutoDelete :: bool
  gdSourceImage :: string
  gdDiskSizeGb :: int
  gdDiskType :: string

record gce_accelerator =
  gaCount :: int
  gaType :: string

record gce_service_account =
  gsaEmail :: string
  gsaScopes :: "string list"

record gce_instance =
  giId :: nat
  giName :: string
  giStatus :: string
  giMachineType :: string
  giScheduling :: "gce_scheduling option"
  giDisks :: "gce_disk list"
  giNetworkInterfaces :: "net_interface list"
  giGuestAccelerators :: "gce_accelerator list"
  giMetadata :: "(string \<times> string) list"
  giTags :: "string list option"
  giServiceAccounts :: "gce_service_account list"

record gce_op =
  opName :: string
  opStatus :: string
  opError :: "string option"

section \<open>Labels and annotations of the operator\<close>

definition spotInstanceJobFinalizer :: string where
  "spotInstanceJobFinalizer = ''training.dcnlab.com/finalizer''"

definition jobReplicaLabel :: string where
  "jobReplicaLabel = ''training.dcnlab.com/job-replica''"

definition spotInstanceJobLabel :: string where
  "spotInstanceJobLabel = ''training.dcnlab.com/spot-instance-job''"

definition provisionedInstanceLabel :: string where
  "provisionedInstanceLabel = ''training.dcnlab.com/provisioned-instance''"

definition provisionedInstanceFinalizer :: string where
  "provisionedInstanceFinalizer = ''training.dcnlab.com/provisionedinstance-finalizer''"

definition checkpointUpdatedAnnotation :: string where
  "checkpointUpdatedAnnotation = ''training.dcnlab.com/checkpoint-updated''"

definition checkpointJobLabel :: string where
  "checkpointJobLabel = ''training.dcnlab.com/job''"

lemma label_neq [simp]:
  "jobReplicaLabel \<noteq> spotInstanceJobLabel" "spotInstanceJobLabel \<noteq> jobReplicaLabel"
  "checkpointJobLabel \<noteq> spotInstanceJobLabel" "spotInstanceJobLabel \<noteq> checkpointJobLabel"
  by (simp_all add: jobReplicaLabel_def spotInstanceJobLabel_def checkpointJobLabel_def)

section \<open>Reading objects\<close>

text \<open>
  Shared by every component: a deletion timestamp that is set, the replica index a label
  map carries (\<^verbatim>\<open>strconv.ParseInt\<close>, with the default the caller starts from), and
  whether a node reports Ready.
\<close>

definition beingDeleted :: "obj_meta \<Rightarrow> bool" where
  "beingDeleted m \<longleftrightarrow> mDeletionTimestamp m \<noteq> None"

definition replicaIndexOf :: "int \<Rightarrow> labels \<Rightarrow> int" where
  "replicaIndexOf dflt ls =
     (case ls jobReplicaLabel of
        None \<Rightarrow> dflt
      | Some s \<Rightarrow> (case parseInt32 s of None \<Rightarrow> dflt | Some i \<Rightarrow> i))"

definition hasCheckpointUpdated :: "obj_meta \<Rightarrow> bool" where
  "hasCheckpointUpdated m \<longleftrightarrow> mAnnotations m checkpointUpdatedAnnotation \<noteq> None"

definition nodeReady :: "node \<Rightarrow> bool" where
  "nodeReady n \<longleftrightarrow> list_ex (\<lambda>c. cdType c = ''Ready'' \<and> cdStatus c = ''True'') (nConditions n)"

definition preempted :: "prov_instance \<Rightarrow> bool" where
  "preempted p \<longleftrightarrow> piPreemptionNotice (piStatus p) \<or> piState (piStatus p) = ''TERMINATED''
     \<or> piState (piStatus p) = ''STOPPING''"

text \<open>
  The field is a pointer to an int32: the carrier of the model is unbounded, so it is
  brought into range where the code reads it.
\<close>

definition desiredReplicas :: "spot_job \<Rightarrow> int" where
  "desiredReplicas sij = (case sjReplicas (sjSpec sij) of None \<Rightarrow> 2 | Some n \<Rightarrow> wrap32 n)"

lemma in32_desiredReplicas [simp]: "in32 (desiredReplicas sij)"
  by (auto simp: desiredReplicas_def in32_def [of 2] split: option.splits)

lemma replicaIndexOf_label [go_simps, simp]:
  "in32 i \<Longrightarrow> ls jobReplicaLabel = Some (showInt i) \<Longrightarrow> replicaIndexOf d ls = i"
  by (simp add: replicaIndexOf_def)

lemma replicaIndexOf_in32: "in32 d \<Longrightarrow> in32 (replicaIndexOf d ls)"
  by (auto simp: replicaIndexOf_def dest: parseInt32_range split: option.splits)

end
