(* ===== verification/Effects.thy ===== *)
theory Effects
  imports Api
begin

text \<open>
  How the operator acts on the outside. Everything behind its clients (the Kubernetes API
  server, the compute service, the clock, the SSH server, controller-runtime's helpers) is
  not code of the repository: it is a parameter of the model. A client is a record of
  functions over an abstract world \<^typ>\<open>'w\<close>; each call reads and changes the world, so
  other actors may move between any two calls.

  The state of a run is the world and the trace of the calls that change something
  outside, with the answer each call got. A program is a function from the state to an
  optional result and state: None is a run that never returns.
\<close>

section \<open>Actions and the run state\<close>

datatype action =
    AUpdateSIJ spot_job err
  | AUpdateSIJStatus spot_job err
  | AUpdatePI prov_instance err
  | AUpdatePIStatus prov_instance err
  | ACreatePI prov_instance err
  | ACreateJob job err
  | ACreateCheckpoint checkpoint_backup err
  | ADeletePI prov_instance err
  | ADeleteJob job bool err
  | ADeleteCheckpoint checkpoint_backup err
  | ADeleteNode node err
  | AInsertInstance string string gce_instance err
  | ADeleteInstance string string string err
  | ASleep int
  | ASpawn spot_job string
  | ADial string err
  | ARunSSH string string err

record 'w sys =
  world :: 'w
  trace :: "action list"

fun isCreatePI :: "action \<Rightarrow> bool" where
  "isCreatePI (ACreatePI _ _) = True" | "isCreatePI _ = False"

fun isCreateJob :: "action \<Rightarrow> bool" where
  "isCreateJob (ACreateJob _ _) = True" | "isCreateJob _ = False"

fun isCreateCheckpoint :: "action \<Rightarrow> bool" where
  "isCreateCheckpoint (ACreateCheckpoint _ _) = True" | "isCreateCheckpoint _ = False"

fun isDeleteJob :: "action \<Rightarrow> bool" where
  "isDeleteJob (ADeleteJob _ _ _) = True" | "isDeleteJob _ = False"

fun isDeleteNode :: "action \<Rightarrow> bool" where
  "isDeleteNode (ADeleteNode _ _) = True" | "isDeleteNode _ = False"

fun isInsertInstance :: "action \<Rightarrow> bool" where
  "isInsertInstance (AInsertInstance _ _ _ _) = True" | "isInsertInstance _ = False"

fun isDeleteInstance :: "action \<Rightarrow> bool" where
  "isDeleteInstance (ADeleteInstance _ _ _ _) = True" | "isDeleteInstance _ = False"

fun isSpawn :: "action \<Rightarrow> bool" where
  "isSpawn (ASpawn _ _) = True" | "isSpawn _ = False"

fun isUpdatePIStatus :: "action \<Rightarrow> bool" where
  "isUpdatePIStatus (AUpdatePIStatus _ _) = True" | "isUpdatePIStatus _ = False"

section \<open>The clients\<close>

text \<open>
  The controller-runtime client and its helpers. A list call takes the namespace and the
  label selector of \<^verbatim>\<open>client.MatchingLabels\<close>; an update answers with the object the
  server returns, which replaces the caller's copy.
\<close>

record 'w kube =
  kNow :: "'w \<Rightarrow> int \<times> 'w"
  kRank :: "'w \<Rightarrow> (string \<Rightarrow> nat) \<times> 'w"
  kSleep :: "int \<Rightarrow> 'w \<Rightarrow> unit \<times> 'w"
  kParseTime :: "string \<Rightarrow> int option"
  kSetCtrlRef :: "obj_meta \<Rightarrow> obj_meta \<Rightarrow> go_error + obj_meta"
  kHasFinalizer :: "obj_meta \<Rightarrow> string \<Rightarrow> bool"
  kAddFinalizer :: "obj_meta \<Rightarrow> string \<Rightarrow> obj_meta"
  kRemoveFinalizer :: "obj_meta \<Rightarrow> string \<Rightarrow> obj_meta"
  kGetSIJ :: "string \<Rightarrow> string \<Rightarrow> 'w \<Rightarrow> (go_error + spot_job) \<times> 'w"
  kGetPI :: "string \<Rightarrow> string \<Rightarrow> 'w \<Rightarrow> (go_error + prov_instance) \<times> 'w"
  kGetTemplate :: "string \<Rightarrow> string \<Rightarrow> 'w \<Rightarrow> (go_error + instance_template) \<times> 'w"
  kGetSecret :: "string \<Rightarrow> string \<Rightarrow> 'w \<Rightarrow> (go_error + secret) \<times> 'w"
  kGetNode :: "string \<Rightarrow> 'w \<Rightarrow> (go_error + node) \<times> 'w"
  kGetJob :: "string \<Rightarrow> string \<Rightarrow> 'w \<Rightarrow> (go_error + job) \<times> 'w"
  kListPI :: "string \<Rightarrow> (string \<times> string) list \<Rightarrow> 'w \<Rightarrow> (go_error + prov_instance list) \<times> 'w"
  kListJob :: "string \<Rightarrow> (string \<times> string) list \<Rightarrow> 'w \<Rightarrow> (go_error + job list) \<times> 'w"
  kListPod :: "string \<Rightarrow> (string \<times> string) list \<Rightarrow> 'w \<Rightarrow> (go_error + pod list) \<times> 'w"
  kListCheckpoint ::
    "string \<Rightarrow> (string \<times> string) list \<Rightarrow> 'w \<Rightarrow> (go_error + checkpoint_backup list) \<times> 'w"
  kUpdateSIJ :: "spot_job \<Rightarrow> 'w \<Rightarrow> (go_error + spot_job) \<times> 'w"
  kUpdateSIJStatus :: "spot_job \<Rightarrow> 'w \<Rightarrow> (go_error + spot_job) \<times> 'w"
  kUpdatePI :: "prov_instance \<Rightarrow> 'w \<Rightarrow> (go_error + prov_instance) \<times> 'w"
  kUpdatePIStatus :: "prov_instance \<Rightarrow> 'w \<Rightarrow> (go_error + prov_instance) \<times> 'w"
  kCreatePI :: "prov_instance \<Rightarrow> 'w \<Rightarrow> err \<times> 'w"
  kCreateJob :: "job \<Rightarrow> 'w \<Rightarrow> err \<times> 'w"
  kCreateCheckpoint :: "checkpoint_backup \<Rightarrow> 'w \<Rightarrow> err \<times> 'w"
  kDeletePI :: "prov_instance \<Rightarrow> 'w \<Rightarrow> err \<times> 'w"
  kDeleteJob :: "job \<Rightarrow> bool \<Rightarrow> 'w \<Rightarrow> err \<times> 'w"
  kDeleteCheckpoint :: "checkpoint_backup \<Rightarrow> 'w \<Rightarrow> err \<times> 'w"
  kDeleteNode :: "node \<Rightarrow> 'w \<Rightarrow> err \<times> 'w"

text \<open>The compute service; the service handle is the credentials it was built from.\<close>

record 'w gce =
  gCredentials :: "string \<Rightarrow> 'w \<Rightarrow> err \<times> 'w"
  gService :: "string \<Rightarrow> 'w \<Rightarrow> err \<times> 'w"
  gInsert :: "string \<Rightarrow> string \<Rightarrow> string \<Rightarrow> gce_instance \<Rightarrow> 'w \<Rightarrow> (go_error + gce_op) \<times> 'w"
  gGet :: "string \<Rightarrow> string \<Rightarrow> string \<Rightarrow> string \<Rightarrow> 'w \<Rightarrow> (go_error + gce_instance option) \<times> 'w"
  gList :: "string \<Rightarrow> string \<Rightarrow> string \<Rightarrow> 'w \<Rightarrow> (go_error + gce_instance list) \<times> 'w"
  gDelete :: "string \<Rightarrow> string \<Rightarrow> string \<Rightarrow> string \<Rightarrow> 'w \<Rightarrow> (go_error + gce_op) \<times> 'w"
  gOpGet :: "string \<Rightarrow> string \<Rightarrow> string \<Rightarrow> string \<Rightarrow> 'w \<Rightarrow> (go_error + gce_op) \<times> 'w"
  gSelect :: "int \<Rightarrow> 'w \<Rightarrow> err \<times> 'w"
  gCloudPlatformScope :: string

text \<open>The SSH client; \<^verbatim>\<open>shRun\<close> answers with the error and what stderr holds.\<close>

record 'w ssh =
  shCtxErr :: "'w \<Rightarrow> err \<times> 'w"
  shDial :: "string \<Rightarrow> 'w \<Rightarrow> err \<times> 'w"
  shSession :: "string \<Rightarrow> 'w \<Rightarrow> err \<times> 'w"
  shRun :: "string \<Rightarrow> string \<Rightarrow> 'w \<Rightarrow> (err \<times> string) \<times> 'w"
  shSleep :: "int \<Rightarrow> 'w \<Rightarrow> unit \<times> 'w"
  shSelectTick :: "int \<Rightarrow> int \<Rightarrow> 'w \<Rightarrow> bool \<times> 'w"

section \<open>Calls\<close>

definition kread :: "('w \<Rightarrow> 'r \<times> 'w) \<Rightarrow> 'w sys \<Rightarrow> ('r \<times> 'w sys) option" where
  "kread f s = (case f (world s) of (r, w) \<Rightarrow> Some (r, s\<lparr>world := w\<rparr>))"

definition kcall :: "('w \<Rightarrow> 'r \<times> 'w) \<Rightarrow> ('r \<Rightarrow> action) \<Rightarrow> 'w sys \<Rightarrow> ('r \<times> 'w sys) option" where
  "kcall f act s =
     (case f (world s) of (r, w) \<Rightarrow> Some (r, s\<lparr>world := w, trace := trace s @ [act r]\<rparr>))"

definition errOf :: "go_error + 'a \<Rightarrow> err" where
  "errOf r = (case r of Inl e \<Rightarrow> Some e | Inr _ \<Rightarrow> None)"

lemma errOf_simps [go_simps, simp]: "errOf (Inl e) = Some e" "errOf (Inr x) = None"
  by (simp_all add: errOf_def)

text \<open>The client calls by the names the code uses. Reads leave no action.\<close>

abbreviation "timeNow k \<equiv> kread (kNow k)"
abbreviation "mapOrder k \<equiv> kread (kRank k)"
abbreviation "goSleep k d \<equiv> kcall (kSleep k d) (\<lambda>_. ASleep d)"
abbreviation "getSIJ k ns nm \<equiv> kread (kGetSIJ k ns nm)"
abbreviation "getPI k ns nm \<equiv> kread (kGetPI k ns nm)"
abbreviation "getTemplate k ns nm \<equiv> kread (kGetTemplate k ns nm)"
abbreviation "getSecret k ns nm \<equiv> kread (kGetSecret k ns nm)"
abbreviation "getNode k nm \<equiv> kread (kGetNode k nm)"
abbreviation "getJob k ns nm \<equiv> kread (kGetJob k ns nm)"
abbreviation "listPI k ns sel \<equiv> kread (kListPI k ns sel)"
abbreviation "listJob k ns sel \<equiv> kread (kListJob k ns sel)"
abbreviation "listPod k ns sel \<equiv> kread (kListPod k ns sel)"
abbreviation "listCheckpoint k ns sel \<equiv> kread (kListCheckpoint k ns sel)"
abbreviation "updateSIJ k x \<equiv> kcall (kUpdateSIJ k x) (\<lambda>r. AUpdateSIJ x (errOf r))"
abbreviation "updateSIJStatus k x \<equiv> kcall (kUpdateSIJStatus k x) (\<lambda>r. AUpdateSIJStatus x (errOf r))"
abbreviation "updatePI k x \<equiv> kcall (kUpdatePI k x) (\<lambda>r. AUpdatePI x (errOf r))"
abbreviation "updatePIStatus k x \<equiv> kcall (kUpdatePIStatus k x) (\<lambda>r. AUpdatePIStatus x (errOf r))"
abbreviation "createPI k x \<equiv> kcall (kCreatePI k x) (ACreatePI x)"
abbreviation "createJob k x \<equiv> kcall (kCreateJob k x) (ACreateJob x)"
abbreviation "createCheckpoint k x \<equiv> kcall (kCreateCheckpoint k x) (ACreateCheckpoint x)"
abbreviation "deletePI k x \<equiv> kcall (kDeletePI k x) (ADeletePI x)"
abbreviation "deleteJobObj k x bg \<equiv> kcall (kDeleteJob k x bg) (ADeleteJob x bg)"
abbreviation "deleteCheckpoint k x \<equiv> kcall (kDeleteCheckpoint k x) (ADeleteCheckpoint x)"
abbreviation "deleteNodeObj k x \<equiv> kcall (kDeleteNode k x) (ADeleteNode x)"

text \<open>Starting a goroutine: recorded, and run later by the scheduler.\<close>

definition spawn :: "spot_job \<Rightarrow> string \<Rightarrow> 'w sys \<Rightarrow> (unit \<times> 'w sys) option" where
  "spawn sij nm s = Some ((), s\<lparr>trace := trace s @ [ASpawn sij nm]\<rparr>)"

section \<open>Results of a reconciliation\<close>

text \<open>\<^verbatim>\<open>ctrl.Result\<close> with its error; the zero result does not requeue.\<close>

record ctrl_result =
  requeueAfter :: int

type_synonym outcome = "ctrl_result \<times> err"

definition finished :: outcome where
  "finished = (\<lparr>requeueAfter = 0\<rparr>, None)"

definition failWith :: "go_error \<Rightarrow> outcome" where
  "failWith e = (\<lparr>requeueAfter = 0\<rparr>, Some e)"

definition requeue :: "int \<Rightarrow> err \<Rightarrow> outcome" where
  "requeue d e = (\<lparr>requeueAfter = d\<rparr>, e)"

lemma outcome_simps [simp]:
  "snd finished = None" "snd (failWith e) = Some e" "snd (requeue d x) = x"
  "requeueAfter (fst finished) = 0" "requeueAfter (fst (failWith e)) = 0"
  "requeueAfter (fst (requeue d x)) = d"
  by (simp_all add: finished_def failWith_def requeue_def)

section \<open>Effect contracts\<close>

text \<open>
  \<^term>\<open>yields f Q\<close>: whenever f returns, it only appended to the trace, and Q holds of its
  result and of what it appended. \<^term>\<open>emits A f\<close>: every appended action satisfies A.
  \<^term>\<open>returns f\<close>: f always comes back. The rules follow the shape of the programs.
\<close>

definition yields :: "('w sys \<Rightarrow> ('a \<times> 'w sys) option) \<Rightarrow> ('a \<Rightarrow> action list \<Rightarrow> bool) \<Rightarrow> bool" where
  "yields f Q \<longleftrightarrow> (\<forall>s r s'. f s = Some (r, s') \<longrightarrow> (\<exists>es. trace s' = trace s @ es \<and> Q r es))"

definition emits :: "(action \<Rightarrow> bool) \<Rightarrow> ('w sys \<Rightarrow> ('a \<times> 'w sys) option) \<Rightarrow> bool" where
  "emits A f \<longleftrightarrow> yields f (\<lambda>_ es. list_all A es)"

definition returns :: "('w sys \<Rightarrow> ('a \<times> 'w sys) option) \<Rightarrow> bool" where
  "returns f \<longleftrightarrow> (\<forall>s. f s \<noteq> None)"

lemma yieldsI:
  "(\<And>s r s'. f s = Some (r, s') \<Longrightarrow> \<exists>es. trace s' = trace s @ es \<and> Q r es) \<Longrightarrow> yields f Q"
  by (simp add: yields_def)

lemma yieldsE:
  assumes "yields f Q" "f s = Some (r, s')"
  obtains es where "trace s' = trace s @ es" "Q r es"
  using assms unfolding yields_def by blast

lemma yields_mono: "yields f P \<Longrightarrow> (\<And>r es. P r es \<Longrightarrow> Q r es) \<Longrightarrow> yields f Q"
  unfolding yields_def by blast

lemma yields_ret: "Q x [] \<Longrightarrow> yields (\<lambda>s. Some (x, s)) Q"
  by (simp add: yields_def)

lemma yields_None: "yields (\<lambda>s. None) Q"
  by (simp add: yields_def)

lemma yields_bind:
  assumes f: "yields f P"
    and g: "\<And>r es. P r es \<Longrightarrow> yields (g r) (\<lambda>r' es'. Q r' (es @ es'))"
  shows "yields (\<lambda>s. Option.bind (f s) (\<lambda>(r, s). g r s)) Q"
proof (rule yieldsI)
  fix s r s'
  assume "Option.bind (f s) (\<lambda>(r, s). g r s) = Some (r, s')"
  then obtain r1 s1 where 1: "f s = Some (r1, s1)" and 2: "g r1 s1 = Some (r, s')"
    by (auto simp: Option.bind_eq_Some_conv)
  from f 1 obtain es1 where es1: "trace s1 = trace s @ es1" "P r1 es1" by (rule yieldsE)
  from g [OF es1(2)] 2 obtain es2 where "trace s' = trace s1 @ es2" "Q r (es1 @ es2)"
    by (rule yieldsE)
  with es1 show "\<exists>es. trace s' = trace s @ es \<and> Q r es" by auto
qed

lemma yields_if: "(b \<Longrightarrow> yields f Q) \<Longrightarrow> (\<not> b \<Longrightarrow> yields g Q) \<Longrightarrow> yields (\<lambda>s. if b then f s else g s) Q"
  by (cases b) simp_all

lemma yields_sum:
  "(\<And>e. r = Inl e \<Longrightarrow> yields (f e) Q) \<Longrightarrow> (\<And>x. r = Inr x \<Longrightarrow> yields (g x) Q) \<Longrightarrow>
     yields (\<lambda>s. case r of Inl e \<Rightarrow> f e s | Inr x \<Rightarrow> g x s) Q"
  by (cases r) simp_all

lemma yields_option:
  "(r = None \<Longrightarrow> yields f Q) \<Longrightarrow> (\<And>x. r = Some x \<Longrightarrow> yields (g x) Q) \<Longrightarrow>
     yields (\<lambda>s. case r of None \<Rightarrow> f s | Some x \<Rightarrow> g x s) Q"
  by (cases r) simp_all

lemma yields_list:
  "(r = [] \<Longrightarrow> yields f Q) \<Longrightarrow> (\<And>x xs. r = x # xs \<Longrightarrow> yields (g x xs) Q) \<Longrightarrow>
     yields (\<lambda>s. case r of [] \<Rightarrow> f s | x # xs \<Rightarrow> g x xs s) Q"
  by (cases r) simp_all

lemma yields_prod:
  "(\<And>a b. r = (a, b) \<Longrightarrow> yields (f a b) Q) \<Longrightarrow> yields (\<lambda>s. case r of (a, b) \<Rightarrow> f a b s) Q"
  by (cases r) simp_all

lemma yields_pair:
  "(\<And>a b. r = (a, b) \<Longrightarrow> yields (f a b) Q) \<Longrightarrow> yields (case r of (a, b) \<Rightarrow> f a b) Q"
  by (cases r) simp_all

lemma yields_let: "(\<And>x. x = e \<Longrightarrow> yields (f x) Q) \<Longrightarrow> yields (\<lambda>s. let x = e in f x s) Q"
  by simp

text \<open>A computation without effects: its result, if it has one.\<close>

lemma yields_pure:
  "(\<And>x. m = Some x \<Longrightarrow> yields (g x) Q) \<Longrightarrow> yields (\<lambda>s. Option.bind m (\<lambda>x. g x s)) Q"
  by (cases m) (simp_all add: yields_None)

lemma returns_pure: "m = Some x \<Longrightarrow> returns (g x) \<Longrightarrow> returns (\<lambda>s. Option.bind m (\<lambda>x. g x s))"
  by simp

lemmas yields_rules = yields_ret yields_None yields_bind yields_if yields_sum yields_option
  yields_list yields_prod yields_pair yields_let

lemma yields_kread: "yields (kread f) (\<lambda>r es. es = [])"
  by (rule yieldsI) (auto simp: kread_def split: prod.splits)

lemma yields_kread_val: "yields (kread f) (\<lambda>r es. es = [] \<and> (\<exists>w w'. f w = (r, w')))"
  by (rule yieldsI) (auto simp: kread_def split: prod.splits)

lemma yields_kcall_val: "yields (kcall f act) (\<lambda>r es. es = [act r] \<and> (\<exists>w w'. f w = (r, w')))"
  by (rule yieldsI) (auto simp: kcall_def split: prod.splits)

lemma yields_iff:
  "yields f Q \<longleftrightarrow> (\<forall>s y. f s = Some y \<longrightarrow> (\<exists>es. trace (snd y) = trace s @ es \<and> Q (fst y) es))"
  by (auto simp: yields_def)

lemma yieldsD:
  "yields f Q \<Longrightarrow> f s = Some y \<Longrightarrow> \<exists>es. trace (snd y) = trace s @ es \<and> Q (fst y) es"
  unfolding yields_iff by blast

text \<open>What holds of every result without a trace also holds with one.\<close>

lemma yields_conj: "yields f P \<Longrightarrow> yields f Q \<Longrightarrow> yields f (\<lambda>r es. P r es \<and> Q r es)"
  unfolding yields_def by (metis same_append_eq)

lemma yields_silent:
  assumes "\<And>A. emits A f"
  shows "yields f (\<lambda>r es. es = [])"
  using assms [of "\<lambda>_. False"] unfolding emits_def
  by (rule yields_mono) (simp add: list_all_iff)

lemma yields_kcall: "yields (kcall f act) (\<lambda>r es. es = [act r])"
  by (rule yieldsI) (auto simp: kcall_def split: prod.splits)

lemma emits_ret [yields_intro]: "emits A (\<lambda>s. Some (x, s))"
  by (simp add: emits_def yields_ret)

lemma emits_None [yields_intro]: "emits A (\<lambda>s. None)"
  by (simp add: emits_def yields_None)

lemma emits_bind [yields_intro]:
  "emits A f \<Longrightarrow> (\<And>r. emits A (g r)) \<Longrightarrow> emits A (\<lambda>s. Option.bind (f s) (\<lambda>(r, s). g r s))"
  unfolding emits_def by (rule yields_bind) (auto intro: yields_mono)

lemma emits_if [yields_intro]:
  "(b \<Longrightarrow> emits A f) \<Longrightarrow> (\<not> b \<Longrightarrow> emits A g) \<Longrightarrow> emits A (\<lambda>s. if b then f s else g s)"
  by (cases b) simp_all

lemma emits_sum [yields_intro]:
  "(\<And>e. r = Inl e \<Longrightarrow> emits A (f e)) \<Longrightarrow> (\<And>x. r = Inr x \<Longrightarrow> emits A (g x)) \<Longrightarrow>
     emits A (\<lambda>s. case r of Inl e \<Rightarrow> f e s | Inr x \<Rightarrow> g x s)"
  by (cases r) simp_all

lemma emits_option [yields_intro]:
  "(r = None \<Longrightarrow> emits A f) \<Longrightarrow> (\<And>x. r = Some x \<Longrightarrow> emits A (g x)) \<Longrightarrow>
     emits A (\<lambda>s. case r of None \<Rightarrow> f s | Some x \<Rightarrow> g x s)"
  by (cases r) simp_all

lemma emits_list [yields_intro]:
  "(r = [] \<Longrightarrow> emits A f) \<Longrightarrow> (\<And>x xs. r = x # xs \<Longrightarrow> emits A (g x xs)) \<Longrightarrow>
     emits A (\<lambda>s. case r of [] \<Rightarrow> f s | x # xs \<Rightarrow> g x xs s)"
  by (cases r) simp_all

lemma emits_prod [yields_intro]:
  "(\<And>a b. r = (a, b) \<Longrightarrow> emits A (f a b)) \<Longrightarrow> emits A (\<lambda>s. case r of (a, b) \<Rightarrow> f a b s)"
  by (cases r) simp_all

lemma emits_pair [yields_intro]:
  "(\<And>a b. r = (a, b) \<Longrightarrow> emits A (f a b)) \<Longrightarrow> emits A (case r of (a, b) \<Rightarrow> f a b)"
  by (cases r) simp_all

lemma emits_let [yields_intro]:
  "(\<And>x. x = e \<Longrightarrow> emits A (f x)) \<Longrightarrow> emits A (\<lambda>s. let x = e in f x s)"
  by simp

lemma emits_kread [yields_op]: "emits A (kread f)"
  unfolding emits_def by (rule yields_mono [OF yields_kread]) simp

lemma emits_kcall: "(\<And>r. A (act r)) \<Longrightarrow> emits A (kcall f act)"
  unfolding emits_def by (rule yields_mono [OF yields_kcall]) simp

lemma emits_mono: "emits A f \<Longrightarrow> (\<And>a. A a \<Longrightarrow> B a) \<Longrightarrow> emits B f"
  unfolding emits_def by (erule yields_mono) (blast intro: list.pred_mono_strong)

lemma returns_ret [returns_intro]: "returns (\<lambda>s. Some (x, s))"
  by (simp add: returns_def)

lemma returns_bind [returns_intro]:
  "returns f \<Longrightarrow> (\<And>r. returns (g r)) \<Longrightarrow> returns (\<lambda>s. Option.bind (f s) (\<lambda>(r, s). g r s))"
  unfolding returns_def
proof
  fix s
  assume f: "\<forall>s. f s \<noteq> None" and g: "\<And>r. \<forall>s. g r s \<noteq> None"
  from f obtain r s1 where "f s = Some (r, s1)" by fastforce
  with g show "Option.bind (f s) (\<lambda>(r, s). g r s) \<noteq> None" by simp
qed

lemma returns_if [returns_intro]:
  "(b \<Longrightarrow> returns f) \<Longrightarrow> (\<not> b \<Longrightarrow> returns g) \<Longrightarrow> returns (\<lambda>s. if b then f s else g s)"
  by (cases b) simp_all

lemma returns_sum [returns_intro]:
  "(\<And>e. r = Inl e \<Longrightarrow> returns (f e)) \<Longrightarrow> (\<And>x. r = Inr x \<Longrightarrow> returns (g x)) \<Longrightarrow>
     returns (\<lambda>s. case r of Inl e \<Rightarrow> f e s | Inr x \<Rightarrow> g x s)"
  by (cases r) simp_all

lemma returns_option [returns_intro]:
  "(r = None \<Longrightarrow> returns f) \<Longrightarrow> (\<And>x. r = Some x \<Longrightarrow> returns (g x)) \<Longrightarrow>
     returns (\<lambda>s. case r of None \<Rightarrow> f s | Some x \<Rightarrow> g x s)"
  by (cases r) simp_all

lemma returns_list [returns_intro]:
  "(r = [] \<Longrightarrow> returns f) \<Longrightarrow> (\<And>x xs. r = x # xs \<Longrightarrow> returns (g x xs)) \<Longrightarrow>
     returns (\<lambda>s. case r of [] \<Rightarrow> f s | x # xs \<Rightarrow> g x xs s)"
  by (cases r) simp_all

lemma returns_prod [returns_intro]:
  "(\<And>a b. r = (a, b) \<Longrightarrow> returns (f a b)) \<Longrightarrow> returns (\<lambda>s. case r of (a, b) \<Rightarrow> f a b s)"
  by (cases r) simp_all

lemma returns_pair [returns_intro]:
  "(\<And>a b. r = (a, b) \<Longrightarrow> returns (f a b)) \<Longrightarrow> returns (case r of (a, b) \<Rightarrow> f a b)"
  by (cases r) simp_all

lemma returns_let [returns_intro]:
  "(\<And>x. x = e \<Longrightarrow> returns (f x)) \<Longrightarrow> returns (\<lambda>s. let x = e in f x s)"
  by simp

lemma returns_kread [returns_intro]: "returns (kread f)"
  by (simp add: returns_def kread_def split: prod.splits)

lemma returns_kcall [returns_intro]: "returns (kcall f act)"
  by (simp add: returns_def kcall_def split: prod.splits)

lemma yields_spawn: "yields (spawn x nm) (\<lambda>r es. es = [ASpawn x nm])"
  by (rule yieldsI) (auto simp: spawn_def)

lemma emits_spawn: "A (ASpawn x nm) \<Longrightarrow> emits A (spawn x nm)"
  unfolding emits_def by (rule yields_mono [OF yields_spawn]) simp

lemma returns_spawn [returns_intro]: "returns (spawn x nm)"
  by (simp add: returns_def spawn_def)

text \<open>
  The contract every operation of the operator meets: it comes with the set of actions it
  may cause. Interpreted for each operation in the theory that defines it.
\<close>

locale contract =
  fixes run :: "'w sys \<Rightarrow> ('a \<times> 'w sys) option"
    and allowed :: "action \<Rightarrow> bool"
  assumes emits: "emits allowed run"
begin

lemma appends: "run s = Some (r, s') \<Longrightarrow> \<exists>es. trace s' = trace s @ es \<and> list_all allowed es"
  using emits by (auto simp: emits_def yields_def)

lemma never:
  assumes "run s = Some (r, s')" and "\<And>a. allowed a \<Longrightarrow> \<not> P a"
  shows "filter P (trace s') = filter P (trace s)"
proof -
  from appends [OF assms(1)] obtain es where "trace s' = trace s @ es" "list_all allowed es"
    by blast
  with list_all_imp_filter_Nil [of allowed es P] assms(2) show ?thesis by simp
qed

lemma keeps_history: "run s = Some (r, s') \<Longrightarrow> set (trace s) \<subseteq> set (trace s')"
  using appends by fastforce

end

text \<open>A contract of an operation that always comes back.\<close>

locale total_contract = contract +
  assumes returns: "returns run"
begin

lemma terminates: "\<exists>r s'. run s = Some (r, s') \<and> (\<exists>es. trace s' = trace s @ es \<and> list_all allowed es)"
proof -
  from returns obtain r s' where "run s = Some (r, s')"
    unfolding returns_def by fastforce
  with appends show ?thesis by blast
qed

end

end
