(* ===== verification/Cluster.thy ===== *)
theory Cluster
  imports Effects
begin

text \<open>
  A reference environment: an API server that stores its objects in lists, a compute
  service with a list of machines, a clock that only sleeping moves, and an SSH server.
  It behaves as the documentation of those services says (names are unique per namespace,
  an object with finalizers is marked on deletion and not removed, an update of the status
  subresource leaves the rest alone) and fails an operation for which a fault is planted.
  No definition of the operator mentions it: it instantiates the parameters in the closed
  examples, and it is the model on which the laws of the client interfaces are discharged.
\<close>

record cluster =
  clNow :: int
  clFaults :: "(string \<times> go_error) list"
  clSIJs :: "spot_job list"
  clPIs :: "prov_instance list"
  clTemplates :: "instance_template list"
  clSecrets :: "secret list"
  clNodes :: "node list"
  clJobs :: "job list"
  clPods :: "pod list"
  clCheckpoints :: "checkpoint_backup list"
  clMachines :: "gce_instance list"

definition emptyCluster :: cluster where
  "emptyCluster = \<lparr>clNow = 0, clFaults = [], clSIJs = [], clPIs = [], clTemplates = [],
     clSecrets = [], clNodes = [], clJobs = [], clPods = [], clCheckpoints = [],
     clMachines = []\<rparr>"

definition fault :: "string \<Rightarrow> cluster \<Rightarrow> err" where
  "fault op c = map_of (clFaults c) op"

definition notFound :: "string \<Rightarrow> go_error" where
  "notFound nm = GoError NotFound (nm @ '' not found'')"

definition alreadyExists :: "string \<Rightarrow> go_error" where
  "alreadyExists nm = GoError AlreadyExists (nm @ '' already exists'')"

definition named :: "string \<Rightarrow> string \<Rightarrow> obj_meta \<Rightarrow> bool" where
  "named ns nm m \<longleftrightarrow> mNamespace m = ns \<and> mName m = nm"

definition selected :: "string \<Rightarrow> (string \<times> string) list \<Rightarrow> obj_meta \<Rightarrow> bool" where
  "selected ns sel m \<longleftrightarrow> mNamespace m = ns \<and> list_all (\<lambda>(a, b). mLabels m a = Some b) sel"

definition refGet ::
    "string \<Rightarrow> ('x \<Rightarrow> obj_meta) \<Rightarrow> 'x list \<Rightarrow> string \<Rightarrow> string \<Rightarrow> cluster \<Rightarrow> (go_error + 'x) \<times> cluster" where
  "refGet op meta xs ns nm c =
     (case fault op c of
        Some e \<Rightarrow> (Inl e, c)
      | None \<Rightarrow> (case find (\<lambda>x. named ns nm (meta x)) xs of
                  None \<Rightarrow> (Inl (notFound nm), c)
                | Some x \<Rightarrow> (Inr x, c)))"

definition refList ::
    "string \<Rightarrow> ('x \<Rightarrow> obj_meta) \<Rightarrow> 'x list \<Rightarrow> string \<Rightarrow> (string \<times> string) list \<Rightarrow> cluster
       \<Rightarrow> (go_error + 'x list) \<times> cluster" where
  "refList op meta xs ns sel c =
     (case fault op c of
        Some e \<Rightarrow> (Inl e, c)
      | None \<Rightarrow> (Inr (filter (\<lambda>x. selected ns sel (meta x)) xs), c))"

definition refCreate ::
    "string \<Rightarrow> ('x \<Rightarrow> obj_meta) \<Rightarrow> 'x list \<Rightarrow> ('x list \<Rightarrow> cluster \<Rightarrow> cluster) \<Rightarrow> 'x \<Rightarrow> cluster
       \<Rightarrow> err \<times> cluster" where
  "refCreate op meta xs put x c =
     (case fault op c of
        Some e \<Rightarrow> (Some e, c)
      | None \<Rightarrow>
          (if list_ex (\<lambda>y. named (mNamespace (meta x)) (mName (meta x)) (meta y)) xs
           then (Some (alreadyExists (mName (meta x))), c)
           else (None, put (xs @ [x]) c)))"

text \<open>Deletion marks an object that has finalizers and removes any other.\<close>

definition refDelete ::
    "string \<Rightarrow> ('x \<Rightarrow> obj_meta) \<Rightarrow> (obj_meta \<Rightarrow> 'x \<Rightarrow> 'x) \<Rightarrow> 'x list \<Rightarrow> ('x list \<Rightarrow> cluster \<Rightarrow> cluster)
       \<Rightarrow> 'x \<Rightarrow> cluster \<Rightarrow> err \<times> cluster" where
  "refDelete op meta setmeta xs put x c =
     (let same = (\<lambda>y. named (mNamespace (meta x)) (mName (meta x)) (meta y)) in
      case fault op c of
        Some e \<Rightarrow> (Some e, c)
      | None \<Rightarrow>
          (case find same xs of
             None \<Rightarrow> (Some (notFound (mName (meta x))), c)
           | Some y \<Rightarrow>
               (if mFinalizers (meta y) = []
                then (None, put (filter (\<lambda>z. \<not> same z) xs) c)
                else (None, put (map (\<lambda>z. if same z
                        then setmeta ((meta z)\<lparr>mDeletionTimestamp := Some (clNow c)\<rparr>) z else z) xs) c))))"

text \<open>An update merges the caller's object into the stored one and answers the result.\<close>

definition refUpdate ::
    "string \<Rightarrow> ('x \<Rightarrow> obj_meta) \<Rightarrow> ('x \<Rightarrow> 'x \<Rightarrow> 'x) \<Rightarrow> 'x list \<Rightarrow> ('x list \<Rightarrow> cluster \<Rightarrow> cluster)
       \<Rightarrow> 'x \<Rightarrow> cluster \<Rightarrow> (go_error + 'x) \<times> cluster" where
  "refUpdate op meta merge xs put x c =
     (let same = (\<lambda>y. named (mNamespace (meta x)) (mName (meta x)) (meta y)) in
      case fault op c of
        Some e \<Rightarrow> (Inl e, c)
      | None \<Rightarrow>
          (case find same xs of
             None \<Rightarrow> (Inl (notFound (mName (meta x))), c)
           | Some y \<Rightarrow> (Inr (merge x y), put (map (\<lambda>z. if same z then merge x y else z) xs) c)))"

definition setPIs :: "prov_instance list \<Rightarrow> cluster \<Rightarrow> cluster" where
  "setPIs xs c = c\<lparr>clPIs := xs\<rparr>"

definition setJobs :: "job list \<Rightarrow> cluster \<Rightarrow> cluster" where
  "setJobs xs c = c\<lparr>clJobs := xs\<rparr>"

definition setSIJs :: "spot_job list \<Rightarrow> cluster \<Rightarrow> cluster" where
  "setSIJs xs c = c\<lparr>clSIJs := xs\<rparr>"

definition setCheckpoints :: "checkpoint_backup list \<Rightarrow> cluster \<Rightarrow> cluster" where
  "setCheckpoints xs c = c\<lparr>clCheckpoints := xs\<rparr>"

definition setNodes :: "node list \<Rightarrow> cluster \<Rightarrow> cluster" where
  "setNodes xs c = c\<lparr>clNodes := xs\<rparr>"

definition ownerOf :: "obj_meta \<Rightarrow> owner_ref" where
  "ownerOf m = \<lparr>orKind = ''SpotInstanceJob'', orName = mName m, orUID = mUID m, orController = True\<rparr>"

definition refKube :: "cluster kube" where
  "refKube =
   \<lparr>kNow = (\<lambda>c. (clNow c, c)),
    kRank = (\<lambda>c. ((\<lambda>_. 0), c)),
    kSleep = (\<lambda>d c. ((), c\<lparr>clNow := clNow c + d\<rparr>)),
    kParseTime = parseInt32,
    kSetCtrlRef = (\<lambda>owner m. Inr (m\<lparr>mOwners := [ownerOf owner]\<rparr>)),
    kHasFinalizer = (\<lambda>m f. f \<in> set (mFinalizers m)),
    kAddFinalizer = (\<lambda>m f. m\<lparr>mFinalizers := mFinalizers m @ [f]\<rparr>),
    kRemoveFinalizer = (\<lambda>m f. m\<lparr>mFinalizers := filter (\<lambda>x. x \<noteq> f) (mFinalizers m)\<rparr>),
    kGetSIJ = (\<lambda>ns nm c. refGet ''get sij'' sjMeta (clSIJs c) ns nm c),
    kGetPI = (\<lambda>ns nm c. refGet ''get pi'' piMeta (clPIs c) ns nm c),
    kGetTemplate = (\<lambda>ns nm c. refGet ''get template'' itMeta (clTemplates c) ns nm c),
    kGetSecret = (\<lambda>ns nm c. refGet ''get secret'' secMeta (clSecrets c) ns nm c),
    kGetNode = (\<lambda>nm c. refGet ''get node'' nMeta (clNodes c) [] nm c),
    kGetJob = (\<lambda>ns nm c. refGet ''get job'' jMeta (clJobs c) ns nm c),
    kListPI = (\<lambda>ns sel c. refList ''list pi'' piMeta (clPIs c) ns sel c),
    kListJob = (\<lambda>ns sel c. refList ''list job'' jMeta (clJobs c) ns sel c),
    kListPod = (\<lambda>ns sel c. refList ''list pod'' pMeta (clPods c) ns sel c),
    kListCheckpoint = (\<lambda>ns sel c. refList ''list checkpoint'' cpMeta (clCheckpoints c) ns sel c),
    kUpdateSIJ = (\<lambda>x c. refUpdate ''update sij'' sjMeta (\<lambda>x y. x\<lparr>sjStatus := sjStatus y\<rparr>)
       (clSIJs c) setSIJs x c),
    kUpdateSIJStatus = (\<lambda>x c. refUpdate ''update sij status'' sjMeta
       (\<lambda>x y. y\<lparr>sjStatus := sjStatus x\<rparr>) (clSIJs c) setSIJs x c),
    kUpdatePI = (\<lambda>x c. refUpdate ''update pi'' piMeta (\<lambda>x y. x\<lparr>piStatus := piStatus y\<rparr>)
       (clPIs c) setPIs x c),
    kUpdatePIStatus = (\<lambda>x c. refUpdate ''update pi status'' piMeta
       (\<lambda>x y. y\<lparr>piStatus := piStatus x\<rparr>) (clPIs c) setPIs x c),
    kCreatePI = (\<lambda>x c. refCreate ''create pi'' piMeta (clPIs c) setPIs x c),
    kCreateJob = (\<lambda>x c. refCreate ''create job'' jMeta (clJobs c) setJobs x c),
    kCreateCheckpoint = (\<lambda>x c. refCreate ''create checkpoint'' cpMeta (clCheckpoints c)
       setCheckpoints x c),
    kDeletePI = (\<lambda>x c. refDelete ''delete pi'' piMeta (\<lambda>m x. x\<lparr>piMeta := m\<rparr>) (clPIs c) setPIs x c),
    kDeleteJob = (\<lambda>x bg c. refDelete ''delete job'' jMeta (\<lambda>m x. x\<lparr>jMeta := m\<rparr>) (clJobs c) setJobs x c),
    kDeleteCheckpoint = (\<lambda>x c. refDelete ''delete checkpoint'' cpMeta (\<lambda>m x. x\<lparr>cpMeta := m\<rparr>)
       (clCheckpoints c) setCheckpoints x c),
    kDeleteNode = (\<lambda>x c. refDelete ''delete node'' nMeta (\<lambda>m x. x\<lparr>nMeta := m\<rparr>)
       (clNodes c) setNodes x c)\<rparr>"

lemma refKube_simps [simp]:
  "kNow refKube c = (clNow c, c)"
  "kRank refKube c = ((\<lambda>_. 0), c)"
  "kSleep refKube d c = ((), c\<lparr>clNow := clNow c + d\<rparr>)"
  "kParseTime refKube = parseInt32"
  "kSetCtrlRef refKube owner m = Inr (m\<lparr>mOwners := [ownerOf owner]\<rparr>)"
  "kHasFinalizer refKube m f \<longleftrightarrow> f \<in> set (mFinalizers m)"
  "kAddFinalizer refKube m f = m\<lparr>mFinalizers := mFinalizers m @ [f]\<rparr>"
  "kRemoveFinalizer refKube m f = m\<lparr>mFinalizers := filter (\<lambda>x. x \<noteq> f) (mFinalizers m)\<rparr>"
  "kGetSIJ refKube ns nm c = refGet ''get sij'' sjMeta (clSIJs c) ns nm c"
  "kGetPI refKube ns nm c = refGet ''get pi'' piMeta (clPIs c) ns nm c"
  "kGetTemplate refKube ns nm c = refGet ''get template'' itMeta (clTemplates c) ns nm c"
  "kGetSecret refKube ns nm c = refGet ''get secret'' secMeta (clSecrets c) ns nm c"
  "kGetNode refKube nm c = refGet ''get node'' nMeta (clNodes c) [] nm c"
  "kGetJob refKube ns nm c = refGet ''get job'' jMeta (clJobs c) ns nm c"
  "kListPI refKube ns sel c = refList ''list pi'' piMeta (clPIs c) ns sel c"
  "kListJob refKube ns sel c = refList ''list job'' jMeta (clJobs c) ns sel c"
  "kListPod refKube ns sel c = refList ''list pod'' pMeta (clPods c) ns sel c"
  "kListCheckpoint refKube ns sel c = refList ''list checkpoint'' cpMeta (clCheckpoints c) ns sel c"
  "kUpdateSIJ refKube sj c = refUpdate ''update sij'' sjMeta (\<lambda>x y. x\<lparr>sjStatus := sjStatus y\<rparr>)
     (clSIJs c) setSIJs sj c"
  "kUpdateSIJStatus refKube sj c = refUpdate ''update sij status'' sjMeta
     (\<lambda>x y. y\<lparr>sjStatus := sjStatus x\<rparr>) (clSIJs c) setSIJs sj c"
  "kUpdatePI refKube x c = refUpdate ''update pi'' piMeta (\<lambda>x y. x\<lparr>piStatus := piStatus y\<rparr>)
     (clPIs c) setPIs x c"
  "kUpdatePIStatus refKube x c = refUpdate ''update pi status'' piMeta
     (\<lambda>x y. y\<lparr>piStatus := piStatus x\<rparr>) (clPIs c) setPIs x c"
  "kCreatePI refKube x c = refCreate ''create pi'' piMeta (clPIs c) setPIs x c"
  "kCreateJob refKube j c = refCreate ''create job'' jMeta (clJobs c) setJobs j c"
  "kCreateCheckpoint refKube b c = refCreate ''create checkpoint'' cpMeta (clCheckpoints c)
     setCheckpoints b c"
  "kDeletePI refKube x c = refDelete ''delete pi'' piMeta (\<lambda>m x. x\<lparr>piMeta := m\<rparr>) (clPIs c) setPIs x c"
  "kDeleteJob refKube j bg c = refDelete ''delete job'' jMeta (\<lambda>m x. x\<lparr>jMeta := m\<rparr>) (clJobs c) setJobs j c"
  "kDeleteCheckpoint refKube b c = refDelete ''delete checkpoint'' cpMeta (\<lambda>m x. x\<lparr>cpMeta := m\<rparr>)
     (clCheckpoints c) setCheckpoints b c"
  "kDeleteNode refKube n c = refDelete ''delete node'' nMeta (\<lambda>m x. x\<lparr>nMeta := m\<rparr>)
     (clNodes c) setNodes n c"
  by (simp_all add: refKube_def)

text \<open>The compute service: every operation is done at the first poll.\<close>

definition doneOp :: gce_op where
  "doneOp = \<lparr>opName = ''op'', opStatus = ''DONE'', opError = None\<rparr>"

definition refGce :: "cluster gce" where
  "refGce =
   \<lparr>gCredentials = (\<lambda>creds c. (fault ''credentials'' c, c)),
    gService = (\<lambda>creds c. (fault ''service'' c, c)),
    gInsert = (\<lambda>svc pr z i c. case fault ''insert'' c of
        Some e \<Rightarrow> (Inl e, c)
      | None \<Rightarrow> (Inr doneOp, c\<lparr>clMachines := clMachines c
          @ [i\<lparr>giId := Suc (length (clMachines c)), giStatus := ''PROVISIONING''\<rparr>]\<rparr>)),
    gGet = (\<lambda>svc pr z nm c. case fault ''get machine'' c of
        Some e \<Rightarrow> (Inl e, c)
      | None \<Rightarrow> (case find (\<lambda>i. giName i = nm) (clMachines c) of
          None \<Rightarrow> (Inl (GoError OtherReason (''googleapi: Error 404: '' @ nm @ '' notFound'')), c)
        | Some i \<Rightarrow> (Inr (Some i), c))),
    gList = (\<lambda>svc pr z c. case fault ''list machines'' c of
        Some e \<Rightarrow> (Inl e, c) | None \<Rightarrow> (Inr (clMachines c), c)),
    gDelete = (\<lambda>svc pr z nm c. case fault ''delete machine'' c of
        Some e \<Rightarrow> (Inl e, c)
      | None \<Rightarrow> (Inr doneOp, c\<lparr>clMachines := filter (\<lambda>i. giName i \<noteq> nm) (clMachines c)\<rparr>)),
    gOpGet = (\<lambda>svc pr z nm c. case fault ''poll'' c of
        Some e \<Rightarrow> (Inl e, c) | None \<Rightarrow> (Inr doneOp, c)),
    gSelect = (\<lambda>d c. (fault ''context'' c, c)),
    gCloudPlatformScope = ''https://www.googleapis.com/auth/cloud-platform''\<rparr>"

lemma refGce_simps [simp]:
  "gCredentials refGce creds c = (fault ''credentials'' c, c)"
  "gService refGce creds c = (fault ''service'' c, c)"
  "gInsert refGce svc pr z i c = (case fault ''insert'' c of
        Some e \<Rightarrow> (Inl e, c)
      | None \<Rightarrow> (Inr doneOp, c\<lparr>clMachines := clMachines c
          @ [i\<lparr>giId := Suc (length (clMachines c)), giStatus := ''PROVISIONING''\<rparr>]\<rparr>))"
  "gGet refGce svc pr z nm c = (case fault ''get machine'' c of
        Some e \<Rightarrow> (Inl e, c)
      | None \<Rightarrow> (case find (\<lambda>i. giName i = nm) (clMachines c) of
          None \<Rightarrow> (Inl (GoError OtherReason (''googleapi: Error 404: '' @ nm @ '' notFound'')), c)
        | Some i \<Rightarrow> (Inr (Some i), c)))"
  "gList refGce svc pr z c = (case fault ''list machines'' c of
        Some e \<Rightarrow> (Inl e, c) | None \<Rightarrow> (Inr (clMachines c), c))"
  "gDelete refGce svc pr z nm c = (case fault ''delete machine'' c of
        Some e \<Rightarrow> (Inl e, c)
      | None \<Rightarrow> (Inr doneOp, c\<lparr>clMachines := filter (\<lambda>i. giName i \<noteq> nm) (clMachines c)\<rparr>))"
  "gOpGet refGce svc pr z nm c = (case fault ''poll'' c of
        Some e \<Rightarrow> (Inl e, c) | None \<Rightarrow> (Inr doneOp, c))"
  "gSelect refGce d c = (fault ''context'' c, c)"
  "gCloudPlatformScope refGce = ''https://www.googleapis.com/auth/cloud-platform''"
  by (simp_all add: refGce_def)

definition refSsh :: "cluster ssh" where
  "refSsh =
   \<lparr>shCtxErr = (\<lambda>c. (fault ''context'' c, c)),
    shDial = (\<lambda>h c. (fault ''dial'' c, c)),
    shSession = (\<lambda>h c. (fault ''session'' c, c)),
    shRun = (\<lambda>h cmd c. ((fault ''run'' c, []), c)),
    shSleep = (\<lambda>d c. ((), c\<lparr>clNow := clNow c + d\<rparr>)),
    shSelectTick = (\<lambda>t d c. (d \<le> t, c))\<rparr>"

lemma refSsh_simps [simp]:
  "shCtxErr refSsh c = (fault ''context'' c, c)"
  "shDial refSsh h c = (fault ''dial'' c, c)"
  "shSession refSsh h c = (fault ''session'' c, c)"
  "shRun refSsh h cmd c = ((fault ''run'' c, []), c)"
  "shSleep refSsh d c = ((), c\<lparr>clNow := clNow c + d\<rparr>)"
  "shSelectTick refSsh t d c = (d \<le> t, c)"
  by (simp_all add: refSsh_def)

text \<open>What computes the closed examples.\<close>

lemmas cluster_eval = kread_def kcall_def fault_def refGet_def refList_def refCreate_def
  refDelete_def refUpdate_def named_def selected_def notFound_def alreadyExists_def
  setPIs_def setJobs_def setSIJs_def setCheckpoints_def setNodes_def emptyCluster_def
  noMeta_def noPIStatus_def ownerOf_def isNotFound_def isAlreadyExists_def wrapErr_def errorf_def
  finished_def failWith_def requeue_def beingDeleted_def doneOp_def Let_def

section \<open>Objects of the examples\<close>

definition exMeta :: "string \<Rightarrow> obj_meta" where
  "exMeta nm = noMeta\<lparr>mName := nm, mNamespace := ''ns''\<rparr>"

definition exTemplate :: instance_template where
  "exTemplate = \<lparr>itMeta = exMeta ''tmpl'',
     itSpec = \<lparr>tsVMImage = ''img'', tsGPU = None,
       tsGCP = \<lparr>gcProject = ''proj'', gcZone = ''z'', gcRegion = [], gcMachineType = ''n1'',
         gcDiskSizeGB = 100, gcDiskType = ''pd'', gcNetworkTags = [], gcServiceAccount = []\<rparr>,
       tsStartupScript = [], tsPreemptible = None\<rparr>,
     itStatus = \<lparr>ttConditions = []\<rparr>\<rparr>"

definition exCredentials :: secret where
  "exCredentials = \<lparr>secMeta = exMeta ''creds'',
     secData = [''credentials.json'' \<mapsto> ''key'']\<rparr>"

definition exJoinSecret :: secret where
  "exJoinSecret = \<lparr>secMeta = exMeta ''kubeadm-join-token'',
     secData = [''token'' \<mapsto> ''t'', ''ca-cert-hash'' \<mapsto> ''h'', ''control-plane-endpoint'' \<mapsto> ''e'']\<rparr>"

definition exPI :: "string \<Rightarrow> pi_status \<Rightarrow> prov_instance" where
  "exPI nm st = \<lparr>piMeta = exMeta nm,
     piSpec = \<lparr>piTemplateName = ''tmpl'', piTemplateNamespace = [], piSpotJobRef = None,
       piCredentialsRef = \<lparr>srName = ''creds'', srNamespace = ''ns''\<rparr>\<rparr>,
     piStatus = st\<rparr>"

definition exCluster :: cluster where
  "exCluster = emptyCluster\<lparr>clTemplates := [exTemplate],
     clSecrets := [exCredentials, exJoinSecret]\<rparr>"

lemmas example_defs = exMeta_def exTemplate_def exCredentials_def exJoinSecret_def exPI_def
  exCluster_def

end
