(* ===== verification/NodeJoiner.thy ===== *)
theory NodeJoiner
  imports Cluster
begin

text \<open>
  \<^verbatim>\<open>internal/gcp/node_joiner.go\<close>: joining a machine to the cluster over SSH. Nothing in
  the repository calls it (nodes join through the startup script); it is modelled with its
  bound of thirty dials. Closing clients and sessions is not modelled.
\<close>

definition maxRetries :: nat where
  "maxRetries = 30"

definition retryDelay :: int where
  "retryDelay = seconds 10"

definition sshAddress :: "string \<Rightarrow> string" where
  "sshAddress host = host @ '':22''"

definition dial :: "'w ssh \<Rightarrow> string \<Rightarrow> 'w sys \<Rightarrow> (err \<times> 'w sys) option" where
  "dial h host = kcall (shDial h (sshAddress host)) (ADial (sshAddress host))"

text \<open>The retry loop of \<^verbatim>\<open>waitForSSH\<close> with n attempts left.\<close>

fun waitForSSHLoop :: "'w ssh \<Rightarrow> nat \<Rightarrow> string \<Rightarrow> 'w sys \<Rightarrow> (err \<times> 'w sys) option" where
  "waitForSSHLoop h 0 host s = Some (Some (errorf ''SSH connection timeout''), s)"
| "waitForSSHLoop h (Suc n) host s = do {
     (c, s) \<leftarrow> kread (shCtxErr h) s;
     case c of
       Some e \<Rightarrow> Some (Some e, s)
     | None \<Rightarrow> do {
         (e, s) \<leftarrow> dial h host s;
         case e of
           None \<Rightarrow> Some (None, s)
         | Some _ \<Rightarrow> do {
             (u, s) \<leftarrow> kcall (shSleep h retryDelay) (\<lambda>_. ASleep retryDelay) s;
             waitForSSHLoop h n host s
           }
       }
   }"

definition waitForSSH :: "'w ssh \<Rightarrow> string \<Rightarrow> 'w sys \<Rightarrow> (err \<times> 'w sys) option" where
  "waitForSSH h host s = waitForSSHLoop h maxRetries host s"

definition executeSSHCommand :: "'w ssh \<Rightarrow> string \<Rightarrow> string \<Rightarrow> 'w sys \<Rightarrow> (err \<times> 'w sys) option" where
  "executeSSHCommand h host command s = do {
     (e, s) \<leftarrow> dial h host s;
     case e of
       Some x \<Rightarrow> Some (Some (wrapErr ''failed to dial SSH: '' x), s)
     | None \<Rightarrow> do {
         (e, s) \<leftarrow> kread (shSession h (sshAddress host)) s;
         case e of
           Some x \<Rightarrow> Some (Some (wrapErr ''failed to create SSH session: '' x), s)
         | None \<Rightarrow> do {
             (r, s) \<leftarrow> kcall (shRun h (sshAddress host) command)
                        (\<lambda>r. ARunSSH host command (fst r)) s;
             case r of
               (Some x, stderr) \<Rightarrow>
                 Some (Some (GoError (errReason x)
                   (''failed to run command: '' @ errText x @ '', stderr: '' @ stderr)), s)
             | (None, _) \<Rightarrow> Some (None, s)
           }
       }
   }"

definition externalIP :: "gce_instance \<Rightarrow> string" where
  "externalIP i =
     (case giNetworkInterfaces i of
        [] \<Rightarrow> []
      | ni # _ \<Rightarrow> (case niAccessConfigs ni of [] \<Rightarrow> [] | ac # _ \<Rightarrow> acNatIP ac))"

definition JoinNodeToCluster ::
    "'w ssh \<Rightarrow> gce_instance \<Rightarrow> string \<Rightarrow> 'w sys \<Rightarrow> (err \<times> 'w sys) option" where
  "JoinNodeToCluster h inst kubeadmJoinCommand s =
     (if externalIP inst = []
      then Some (Some (errorf ''instance has no external IP''), s)
      else do {
        (e, s) \<leftarrow> waitForSSH h (externalIP inst) s;
        case e of
          Some x \<Rightarrow> Some (Some (wrapErr ''failed to wait for SSH: '' x), s)
        | None \<Rightarrow> do {
            (e, s) \<leftarrow> executeSSHCommand h (externalIP inst) kubeadmJoinCommand s;
            case e of
              Some x \<Rightarrow> Some (Some (wrapErr ''failed to execute kubeadm join: '' x), s)
            | None \<Rightarrow> Some (None, s)
          }
      })"

text \<open>A placeholder in the code: the first tick of five seconds counts as ready.\<close>

definition WaitForNodeReady ::
    "'w ssh \<Rightarrow> string \<Rightarrow> int \<Rightarrow> 'w sys \<Rightarrow> (err \<times> 'w sys) option" where
  "WaitForNodeReady h nodeName timeout s = do {
     (ticked, s) \<leftarrow> kread (shSelectTick h timeout (seconds 5)) s;
     Some (if ticked then None
           else Some (errorf ''timeout waiting for node to become ready''), s)
   }"

definition GenerateKubeadmJoinCommand :: "string \<Rightarrow> string \<Rightarrow> string \<Rightarrow> string" where
  "GenerateKubeadmJoinCommand endpoint token caCertHash =
     ''sudo kubeadm join '' @ endpoint @ '' --token '' @ token
       @ '' --discovery-token-ca-cert-hash '' @ caCertHash"

section \<open>Bounds\<close>

fun isDial :: "action \<Rightarrow> bool" where
  "isDial (ADial _ _) = True" | "isDial _ = False"

fun isRunSSH :: "action \<Rightarrow> bool" where
  "isRunSSH (ARunSSH _ _ _) = True" | "isRunSSH _ = False"

lemma yields_dial: "yields (dial h host) (\<lambda>r es. es = [ADial (sshAddress host) r])"
  unfolding dial_def by (rule yields_kcall)

text \<open>
  The loop with n attempts left dials at most n times, never runs a command, and on success
  its last action is the dial that was answered.
\<close>

lemma yields_waitForSSHLoop:
  "yields (waitForSSHLoop h n host)
     (\<lambda>r es. length (filter isDial es) \<le> n \<and> filter isRunSSH es = []
        \<and> (r = None \<longrightarrow> es \<noteq> [] \<and> last es = ADial (sshAddress host) None))"
proof (induction n)
  case 0
  show ?case by (rule yieldsI) simp
next
  case (Suc n)
  show ?case
    unfolding waitForSSHLoop.simps [abs_def]
    by (intro yields_bind [OF yields_kread] yields_option yields_ret
        yields_bind [OF yields_dial] yields_bind [OF yields_kcall] yields_mono [OF Suc]) auto
qed

lemma returns_waitForSSHLoop [returns_intro]: "returns (waitForSSHLoop h n host)"
proof (induction n)
  case 0
  show ?case by (simp add: returns_def)
next
  case (Suc n)
  then show ?case
    unfolding waitForSSHLoop.simps [abs_def] dial_def by (intro returns_intro)
qed

lemma yields_waitForSSH:
  "yields (waitForSSH h host)
     (\<lambda>r es. length (filter isDial es) \<le> 30 \<and> filter isRunSSH es = []
        \<and> (r = None \<longrightarrow> es \<noteq> [] \<and> last es = ADial (sshAddress host) None))"
  using yields_waitForSSHLoop [of h maxRetries host]
  by (simp add: waitForSSH_def [abs_def] maxRetries_def)

lemma yields_executeSSHCommand:
  "yields (executeSSHCommand h host cmd)
     (\<lambda>r es. length (filter isDial es) \<le> 1 \<and>
        (filter isRunSSH es = [] \<and> r \<noteq> None
         \<or> (\<exists>e. filter isRunSSH es = [ARunSSH host cmd e] \<and> (r = None \<longleftrightarrow> e = None))))"
  unfolding executeSSHCommand_def [abs_def]
  by (intro yields_bind [OF yields_dial] yields_bind [OF yields_kread]
      yields_bind [OF yields_kcall] yields_option yields_prod yields_ret) auto

lemma returns_JoinNodeToCluster: "returns (JoinNodeToCluster h inst cmd)"
  unfolding JoinNodeToCluster_def [abs_def] waitForSSH_def [abs_def] executeSSHCommand_def [abs_def]
    dial_def
  by (intro returns_intro)

lemma yields_JoinNodeToCluster:
  "yields (JoinNodeToCluster h inst cmd)
     (\<lambda>r es. length (filter isDial es) \<le> 31 \<and>
        (filter isRunSSH es = [] \<and> r \<noteq> None
         \<or> (\<exists>e. filter isRunSSH es = [ARunSSH (externalIP inst) cmd e] \<and> (r = None \<longleftrightarrow> e = None))))"
  unfolding JoinNodeToCluster_def [abs_def]
  by (intro yields_if yields_ret yields_bind [OF yields_waitForSSH]
      yields_bind [OF yields_executeSSHCommand] yields_option) auto

text \<open>
  C33. Joining a machine over SSH always comes back, after at most thirty-one
  dials. The join command is run at most once, on the machine's external address, and the
  join succeeds exactly when that run did.
\<close>

theorem join_bounded:
  "\<exists>r s' es. JoinNodeToCluster h inst cmd s = Some (r, s') \<and> trace s' = trace s @ es
    \<and> length (filter isDial es) \<le> 31
    \<and> (filter isRunSSH es = [] \<and> r \<noteq> None
       \<or> (\<exists>e. filter isRunSSH es = [ARunSSH (externalIP inst) cmd e] \<and> (r = None \<longleftrightarrow> e = None)))"
proof -
  obtain r s' where run: "JoinNodeToCluster h inst cmd s = Some (r, s')"
    using returns_JoinNodeToCluster unfolding returns_def by fastforce
  obtain es where "trace s' = trace s @ es" "length (filter isDial es) \<le> 31"
    "filter isRunSSH es = [] \<and> r \<noteq> None
       \<or> (\<exists>e. filter isRunSSH es = [ARunSSH (externalIP inst) cmd e] \<and> (r = None \<longleftrightarrow> e = None))"
    using yieldsE [OF yields_JoinNodeToCluster run] by metis
  with run show ?thesis by (intro exI [of _ r] exI [of _ s'] exI [of _ es] conjI)
qed

end
