(* ===== verification/Provisioner.thy ===== *)
theory Provisioner
  imports Cluster
begin

text \<open>
  \<^verbatim>\<open>internal/gcp/provisioner.go\<close>: building the instance resource, the compute calls and
  the polling loop that waits for an operation. The loop has no bound of its own: it ends
  when the operation is DONE, when polling fails or when the context is cancelled, so it is
  a partial function and a run that polls for ever is None.
\<close>

record provisioner =
  prService :: string
  prProject :: string

text \<open>A dereference of a nil instance: the runtime panics, the manager reports an error.\<close>

definition nilDereference :: go_error where
  "nilDereference = errorf ''runtime error: invalid memory address or nil pointer dereference''"

definition NewProvisioner ::
    "'w gce \<Rightarrow> string \<Rightarrow> string \<Rightarrow> 'w sys \<Rightarrow> ((go_error + provisioner) \<times> 'w sys) option" where
  "NewProvisioner g credentialsJSON project s = do {
     (e, s) \<leftarrow> kread (gCredentials g credentialsJSON) s;
     case e of
       Some x \<Rightarrow> Some (Inl (wrapErr ''failed to create credentials: '' x), s)
     | None \<Rightarrow> do {
         (e, s) \<leftarrow> kread (gService g credentialsJSON) s;
         case e of
           Some x \<Rightarrow> Some (Inl (wrapErr ''failed to create compute service: '' x), s)
         | None \<Rightarrow> Some (Inr \<lparr>prService = credentialsJSON, prProject = project\<rparr>, s)
       }
   }"

partial_function (option) waitForOperation ::
    "'w gce \<Rightarrow> provisioner \<Rightarrow> gce_op \<Rightarrow> string \<Rightarrow> 'w sys \<Rightarrow> (err \<times> 'w sys) option" where
  "waitForOperation g p op zone s = do {
     (cancelled, s) \<leftarrow> kread (gSelect g (seconds 2)) s;
     case cancelled of
       Some e \<Rightarrow> Some (Some e, s)
     | None \<Rightarrow> do {
         (r, s) \<leftarrow> kread (gOpGet g (prService p) (prProject p) zone (opName op)) s;
         case r of
           Inl e \<Rightarrow> Some (Some (wrapErr ''failed to get operation status: '' e), s)
         | Inr result \<Rightarrow>
             (if opStatus result = ''DONE''
              then (case opError result of
                      Some m \<Rightarrow> Some (Some (errorf (''operation failed: '' @ m)), s)
                    | None \<Rightarrow> Some (None, s))
              else waitForOperation g p op zone s)
       }
   }"

declare waitForOperation.simps [code]

text \<open>The resource \<^verbatim>\<open>ProvisionSpotInstance\<close> builds from the template.\<close>

definition buildInstance ::
    "string \<Rightarrow> template_spec \<Rightarrow> string \<Rightarrow> bool \<Rightarrow> gce_instance" where
  "buildInstance scope ts instanceName preemptible =
     (let zone = gcZone (tsGCP ts) in
      \<lparr>giId = 0, giName = instanceName, giStatus = [],
       giMachineType = ''zones/'' @ zone @ ''/machineTypes/'' @ gcMachineType (tsGCP ts),
       giScheduling = Some \<lparr>gsPreemptible = preemptible, gsAutomaticRestart = Some False,
                            gsOnHostMaintenance = ''TERMINATE''\<rparr>,
       giDisks = [\<lparr>gdBoot = True, gdAutoDelete = True, gdSourceImage = tsVMImage ts,
                   gdDiskSizeGb = gcDiskSizeGB (tsGCP ts),
                   gdDiskType = ''zones/'' @ zone @ ''/diskTypes/'' @ gcDiskType (tsGCP ts)\<rparr>],
       giNetworkInterfaces = [\<lparr>niNetworkIP = [], niAccessConfigs =
          [\<lparr>acName = ''External NAT'', acType = ''ONE_TO_ONE_NAT'', acNatIP = []\<rparr>]\<rparr>],
       giGuestAccelerators = (case tsGPU ts of None \<Rightarrow> []
          | Some gpu \<Rightarrow> [\<lparr>gaCount = gpCount gpu,
               gaType = ''zones/'' @ zone @ ''/acceleratorTypes/'' @ gpType gpu\<rparr>]),
       giMetadata = (if tsStartupScript ts = [] then []
          else [(''startup-script'', tsStartupScript ts)]),
       giTags = (if gcNetworkTags (tsGCP ts) = [] then None else Some (gcNetworkTags (tsGCP ts))),
       giServiceAccounts = (if gcServiceAccount (tsGCP ts) = [] then []
          else [\<lparr>gsaEmail = gcServiceAccount (tsGCP ts), gsaScopes = [scope]\<rparr>])\<rparr>)"

definition ProvisionSpotInstance ::
    "'w gce \<Rightarrow> provisioner \<Rightarrow> template_spec \<Rightarrow> string \<Rightarrow> bool \<Rightarrow> 'w sys
       \<Rightarrow> ((go_error + gce_instance option) \<times> 'w sys) option" where
  "ProvisionSpotInstance g p ts instanceName preemptible s = do {
     let zone = gcZone (tsGCP ts);
     let inst = buildInstance (gCloudPlatformScope g) ts instanceName preemptible;
     (r, s) \<leftarrow> kcall (gInsert g (prService p) (prProject p) zone inst)
                (\<lambda>r. AInsertInstance (prProject p) zone inst (errOf r)) s;
     case r of
       Inl e \<Rightarrow> Some (Inl (wrapErr ''failed to insert instance: '' e), s)
     | Inr op \<Rightarrow> do {
         (e, s) \<leftarrow> waitForOperation g p op zone s;
         case e of
           Some x \<Rightarrow> Some (Inl (wrapErr ''failed to wait for operation: '' x), s)
         | None \<Rightarrow> do {
             (r, s) \<leftarrow> kread (gGet g (prService p) (prProject p) zone instanceName) s;
             case r of
               Inl e \<Rightarrow> Some (Inl (wrapErr ''failed to get instance: '' e), s)
             | Inr created \<Rightarrow> Some (Inr created, s)
           }
       }
   }"

definition DeleteSpotInstance ::
    "'w gce \<Rightarrow> provisioner \<Rightarrow> string \<Rightarrow> string \<Rightarrow> 'w sys \<Rightarrow> (err \<times> 'w sys) option" where
  "DeleteSpotInstance g p zone instanceName s = do {
     (r, s) \<leftarrow> kcall (gDelete g (prService p) (prProject p) zone instanceName)
                (\<lambda>r. ADeleteInstance (prProject p) zone instanceName (errOf r)) s;
     case r of
       Inl e \<Rightarrow> Some (Some (wrapErr ''failed to delete instance: '' e), s)
     | Inr op \<Rightarrow> waitForOperation g p op zone s
   }"

definition GetInstance ::
    "'w gce \<Rightarrow> provisioner \<Rightarrow> string \<Rightarrow> string \<Rightarrow> 'w sys
       \<Rightarrow> ((go_error + gce_instance option) \<times> 'w sys) option" where
  "GetInstance g p zone instanceName s = do {
     (r, s) \<leftarrow> kread (gGet g (prService p) (prProject p) zone instanceName) s;
     case r of
       Inl e \<Rightarrow> Some (Inl (wrapErr ''failed to get instance: '' e), s)
     | Inr inst \<Rightarrow> Some (Inr inst, s)
   }"

fun matchingInstances :: "string \<Rightarrow> gce_instance list \<Rightarrow> gce_instance list" where
  "matchingInstances pre [] = []"
| "matchingInstances pre (i # is) =
     (if length pre \<le> length (giName i) \<and> take (length pre) (giName i) = pre
      then i # matchingInstances pre is else matchingInstances pre is)"

definition ListInstancesByPrefix ::
    "'w gce \<Rightarrow> provisioner \<Rightarrow> string \<Rightarrow> string \<Rightarrow> 'w sys
       \<Rightarrow> ((go_error + gce_instance list) \<times> 'w sys) option" where
  "ListInstancesByPrefix g p zone pre s = do {
     (r, s) \<leftarrow> kread (gList g (prService p) (prProject p) zone) s;
     case r of
       Inl e \<Rightarrow> Some (Inl (wrapErr ''failed to list instances: '' e), s)
     | Inr items \<Rightarrow> Some (Inr (matchingInstances pre items), s)
   }"

definition CheckPreemption ::
    "'w gce \<Rightarrow> provisioner \<Rightarrow> string \<Rightarrow> string \<Rightarrow> 'w sys \<Rightarrow> ((go_error + bool) \<times> 'w sys) option" where
  "CheckPreemption g p zone instanceName s = do {
     (r, s) \<leftarrow> GetInstance g p zone instanceName s;
     case r of
       Inl e \<Rightarrow> Some (Inl e, s)
     | Inr None \<Rightarrow> Some (Inl nilDereference, s)
     | Inr (Some i) \<Rightarrow>
         Some (Inr ((giStatus i = ''STOPPING'' \<or> giStatus i = ''TERMINATED'')
           \<and> (case giScheduling i of None \<Rightarrow> False | Some sch \<Rightarrow> gsPreemptible sch)), s)
   }"

definition DeleteInstance ::
    "'w gce \<Rightarrow> provisioner \<Rightarrow> string \<Rightarrow> string \<Rightarrow> string \<Rightarrow> 'w sys \<Rightarrow> (err \<times> 'w sys) option" where
  "DeleteInstance g p project zone instanceName s = do {
     (r, s) \<leftarrow> kcall (gDelete g (prService p) project zone instanceName)
                (\<lambda>r. ADeleteInstance project zone instanceName (errOf r)) s;
     case r of
       Inl e \<Rightarrow> Some (Some (wrapErr ''failed to delete instance: '' e), s)
     | Inr op \<Rightarrow> do {
         (e, s) \<leftarrow> waitForOperation g p op zone s;
         case e of
           Some x \<Rightarrow> Some (Some (wrapErr ''failed to wait for delete operation: '' x), s)
         | None \<Rightarrow> Some (None, s)
       }
   }"

section \<open>The polling loop\<close>

text \<open>
  The reference loop: at most n polls. The loop of the code returns exactly when some
  number of polls is enough, and then with the same result.
\<close>

fun pollTimes ::
    "nat \<Rightarrow> 'w gce \<Rightarrow> provisioner \<Rightarrow> gce_op \<Rightarrow> string \<Rightarrow> 'w sys \<Rightarrow> (err \<times> 'w sys) option" where
  "pollTimes 0 g p op zone s = None"
| "pollTimes (Suc n) g p op zone s = do {
     (cancelled, s) \<leftarrow> kread (gSelect g (seconds 2)) s;
     case cancelled of
       Some e \<Rightarrow> Some (Some e, s)
     | None \<Rightarrow> do {
         (r, s) \<leftarrow> kread (gOpGet g (prService p) (prProject p) zone (opName op)) s;
         case r of
           Inl e \<Rightarrow> Some (Some (wrapErr ''failed to get operation status: '' e), s)
         | Inr result \<Rightarrow>
             (if opStatus result = ''DONE''
              then Some (map_option (\<lambda>m. errorf (''operation failed: '' @ m)) (opError result), s)
              else pollTimes n g p op zone s)
       }
   }"

lemma pollTimes_wait: "pollTimes n g p op zone s = Some y \<Longrightarrow> waitForOperation g p op zone s = Some y"
proof (induction n arbitrary: s)
  case 0
  then show ?case by simp
next
  case (Suc n)
  then show ?case
    by (subst waitForOperation.simps)
      (auto simp: kread_def Let_def split: prod.splits option.splits sum.splits if_splits)
qed

lemma wait_pollTimes: "waitForOperation g p op zone s = Some y \<Longrightarrow> \<exists>n. pollTimes n g p op zone s = Some y"
proof (rule waitForOperation.raw_induct [where P = "\<lambda>g p op zone s y. \<exists>n. pollTimes n g p op zone s = Some y"])
  fix wait :: "'w gce \<Rightarrow> provisioner \<Rightarrow> gce_op \<Rightarrow> string \<Rightarrow> 'w sys \<Rightarrow> (err \<times> 'w sys) option"
    and g p op zone s y
  assume IH: "\<And>g p op zone s y. wait g p op zone s = Some y \<Longrightarrow> \<exists>n. pollTimes n g p op zone s = Some y"
    and eq: "(do {
     (cancelled, s) \<leftarrow> kread (gSelect g (seconds 2)) s;
     case cancelled of
       Some e \<Rightarrow> Some (Some e, s)
     | None \<Rightarrow> do {
         (r, s) \<leftarrow> kread (gOpGet g (prService p) (prProject p) zone (opName op)) s;
         case r of
           Inl e \<Rightarrow> Some (Some (wrapErr ''failed to get operation status: '' e), s)
         | Inr result \<Rightarrow>
             (if opStatus result = ''DONE''
              then (case opError result of
                      Some m \<Rightarrow> Some (Some (errorf (''operation failed: '' @ m)), s)
                    | None \<Rightarrow> Some (None, s))
              else wait g p op zone s)
       }
   }) = Some y"
  obtain c w1 where sel: "gSelect g (seconds 2) (world s) = (c, w1)" by fastforce
  obtain r w2 where opg: "gOpGet g (prService p) (prProject p) zone (opName op) w1 = (r, w2)"
    by fastforce
  show "\<exists>n. pollTimes n g p op zone s = Some y"
  proof (cases "c = None \<and> (\<exists>x. r = Inr x \<and> opStatus x \<noteq> ''DONE'')")
    case True
    with eq sel opg have "wait g p op zone (s\<lparr>world := w2\<rparr>) = Some y"
      by (auto simp: kread_def)
    then obtain n where "pollTimes n g p op zone (s\<lparr>world := w2\<rparr>) = Some y"
      using IH by blast
    with True sel opg have "pollTimes (Suc n) g p op zone s = Some y"
      by (auto simp: kread_def)
    then show ?thesis by blast
  next
    case False
    with eq sel opg have "pollTimes (Suc 0) g p op zone s = Some y"
      by (auto simp: kread_def split: option.splits sum.splits if_splits)
    then show ?thesis by blast
  qed
qed assumption

lemma wait_iff_pollTimes:
  "waitForOperation g p op zone s = Some y \<longleftrightarrow> (\<exists>n. pollTimes n g p op zone s = Some y)"
  using pollTimes_wait wait_pollTimes by metis

lemma pollTimes_trace: "pollTimes n g p op zone s = Some (e, s') \<Longrightarrow> trace s' = trace s"
proof (induction n arbitrary: s)
  case 0
  then show ?case by simp
next
  case (Suc n)
  then show ?case
    by (fastforce simp: kread_def split: prod.splits option.splits sum.splits if_splits)
qed

lemma pollTimes_ok:
  "pollTimes n g p op zone s = Some (None, s') \<Longrightarrow>
     \<exists>w r. gOpGet g (prService p) (prProject p) zone (opName op) w = (Inr r, world s')
       \<and> opStatus r = ''DONE'' \<and> opError r = None"
proof (induction n arbitrary: s)
  case 0
  then show ?case by simp
next
  case (Suc n)
  then show ?case
    by (fastforce simp: kread_def split: prod.splits option.splits sum.splits if_splits)
qed

lemma pollTimes_never:
  assumes "\<And>w. fst (gSelect g (seconds 2) w) = None"
    and "\<And>w. \<exists>r. fst (gOpGet g (prService p) (prProject p) zone (opName op) w) = Inr r
           \<and> opStatus r \<noteq> ''DONE''"
  shows "pollTimes n g p op zone s = None"
proof (induction n arbitrary: s)
  case 0
  then show ?case by simp
next
  case (Suc n)
  obtain w1 where sel: "gSelect g (seconds 2) (world s) = (None, w1)"
    using assms(1) [of "world s"] by (cases "gSelect g (seconds 2) (world s)") auto
  obtain r w2 where "gOpGet g (prService p) (prProject p) zone (opName op) w1 = (Inr r, w2)"
    and "opStatus r \<noteq> ''DONE''"
    using assms(2) [of w1]
    by (cases "gOpGet g (prService p) (prProject p) zone (opName op) w1") auto
  with sel Suc show ?case by (simp add: kread_def)
qed

section \<open>Effects of the calls\<close>

lemma yields_wait: "yields (waitForOperation g p op zone) (\<lambda>r es. es = [])"
  by (rule yieldsI) (auto dest!: wait_pollTimes pollTimes_trace)

lemma emits_wait [yields_op]: "emits A (waitForOperation g p op zone)"
  unfolding emits_def by (rule yields_mono [OF yields_wait]) simp

lemma emits_NewProvisioner [yields_op]: "emits A (NewProvisioner g c p)"
  unfolding NewProvisioner_def [abs_def] by (intro yields_intro yields_op)

lemma emits_GetInstance [yields_op]: "emits A (GetInstance g p zone nm)"
  unfolding GetInstance_def [abs_def] by (intro yields_intro yields_op)

lemma emits_ListInstancesByPrefix [yields_op]: "emits A (ListInstancesByPrefix g p zone nm)"
  unfolding ListInstancesByPrefix_def [abs_def] by (intro yields_intro yields_op)

lemma emits_CheckPreemption [yields_op]: "emits A (CheckPreemption g p zone nm)"
  unfolding CheckPreemption_def [abs_def] by (intro yields_intro yields_op)

text \<open>What provisioning may do: insert one resource, the one built from the template.\<close>

definition insertsOnly :: "string \<Rightarrow> string \<Rightarrow> gce_instance \<Rightarrow> action \<Rightarrow> bool" where
  "insertsOnly project zone i a \<longleftrightarrow> (\<exists>e. a = AInsertInstance project zone i e)"

definition deletesOnly :: "string \<Rightarrow> string \<Rightarrow> string \<Rightarrow> action \<Rightarrow> bool" where
  "deletesOnly project zone nm a \<longleftrightarrow> (\<exists>e. a = ADeleteInstance project zone nm e)"

lemma emits_ProvisionSpotInstance [yields_op]:
  "emits (insertsOnly (prProject p) (gcZone (tsGCP ts))
      (buildInstance (gCloudPlatformScope g) ts nm b)) (ProvisionSpotInstance g p ts nm b)"
  unfolding ProvisionSpotInstance_def [abs_def] Let_def
  by (intro yields_intro yields_op emits_kcall) (auto simp: insertsOnly_def)

lemma yields_DeleteInstance:
  "yields (DeleteInstance g p project zone nm)
     (\<lambda>r es. \<exists>e. es = [ADeleteInstance project zone nm e] \<and> (r = None \<longrightarrow> e = None))"
  unfolding DeleteInstance_def [abs_def]
  by (intro yields_bind [OF yields_kcall] yields_sum yields_option yields_ret
      yields_bind [OF yields_wait]) auto

lemma emits_DeleteInstance [yields_op]:
  "emits (deletesOnly project zone nm) (DeleteInstance g p project zone nm)"
  unfolding emits_def by (rule yields_mono [OF yields_DeleteInstance]) (auto simp: deletesOnly_def)

lemma yields_ProvisionSpotInstance:
  "yields (ProvisionSpotInstance g p ts nm b) (\<lambda>r es. \<exists>e.
     es = [AInsertInstance (prProject p) (gcZone (tsGCP ts))
             (buildInstance (gCloudPlatformScope g) ts nm b) e] \<and> (e \<noteq> None \<longrightarrow> (\<exists>x. r = Inl x)))"
  unfolding ProvisionSpotInstance_def [abs_def] Let_def
  by (intro yields_bind [OF yields_kcall] yields_bind [OF yields_wait]
      yields_bind [OF yields_kread] yields_sum yields_option yields_ret) auto

interpretation provision: contract "ProvisionSpotInstance g p ts nm b"
    "insertsOnly (prProject p) (gcZone (tsGCP ts)) (buildInstance (gCloudPlatformScope g) ts nm b)"
  for g p ts nm b
  by unfold_locales (rule emits_ProvisionSpotInstance)

interpretation gceDelete: contract "DeleteInstance g p project zone nm" "deletesOnly project zone nm"
  for g p project zone nm
  by unfold_locales (rule emits_DeleteInstance)

section \<open>Listing by prefix\<close>

lemma matchingInstances_filter:
  "matchingInstances pre is = filter (\<lambda>i. goHasPrefix (giName i) pre) is"
  by (induction "is") (auto simp: goHasPrefix_def)

lemma yields_NewProvisioner:
  "yields (NewProvisioner g c project) (\<lambda>r es. es = []
     \<and> (\<forall>p. r = Inr p \<longrightarrow> p = \<lparr>prService = c, prProject = project\<rparr>))"
  unfolding NewProvisioner_def [abs_def]
  by (intro yields_bind [OF yields_kread] yields_option yields_ret) auto

lemma buildInstance_name [simp]: "giName (buildInstance scope ts nm b) = nm"
  by (simp add: buildInstance_def Let_def)

text \<open>In the reference environment every operation is done at the first poll.\<close>

lemma wait_refGce:
  assumes "fault ''context'' (world s) = None" and "fault ''poll'' (world s) = None"
  shows "waitForOperation refGce p op zone s = Some (None, s)"
  by (subst waitForOperation.simps) (simp add: kread_def assms doneOp_def)

section \<open>Properties of the compute layer\<close>

text \<open>
  The polling loop of \<^verbatim>\<open>waitForOperation\<close> returns a
  result exactly when some finite number of polls is enough to reach it; the reference loop
  with a poll budget computes the same result and state.
\<close>

lemma wait_returns_iff_polled:
  "waitForOperation g p op zone s = Some y \<longleftrightarrow> (\<exists>n. pollTimes n g p op zone s = Some y)"
  by (rule wait_iff_pollTimes)

text \<open>
  An operation that is never DONE, polled under a context that is
  never cancelled, keeps \<^verbatim>\<open>waitForOperation\<close> waiting for ever: the loop has no
  bound of its own.
\<close>

lemma wait_never_returns:
  assumes "\<And>w. fst (gSelect g (seconds 2) w) = None"
    and "\<And>w. \<exists>r. fst (gOpGet g (prService p) (prProject p) zone (opName op) w) = Inr r
           \<and> opStatus r \<noteq> ''DONE''"
  shows "waitForOperation g p op zone s = None"
proof (cases "waitForOperation g p op zone s")
  case (Some y)
  then obtain n where "pollTimes n g p op zone s = Some y"
    using wait_pollTimes by blast
  with pollTimes_never [of g p zone op n s, OF assms] show ?thesis by simp
qed simp

definition stuckGce :: "cluster gce" where
  "stuckGce = refGce\<lparr>gSelect := (\<lambda>d c. (None, c)),
     gOpGet := (\<lambda>svc pr z nm c. (Inr \<lparr>opName = nm, opStatus = ''RUNNING'', opError = None\<rparr>, c))\<rparr>"

lemma stuck_never_returns:
  "waitForOperation stuckGce \<lparr>prService = [], prProject = []\<rparr> doneOp [] \<lparr>world = emptyCluster, trace = []\<rparr> = None"
  by (rule wait_never_returns) (simp_all add: stuckGce_def)

text \<open>
  \<^verbatim>\<open>ProvisionSpotInstance\<close> makes exactly one insert call, with
  the resource built from the template, in the template's zone; it reports success only if
  that call was accepted.
\<close>

lemma provision_success:
  assumes "ProvisionSpotInstance g p ts nm b s = Some (r, s')"
  shows "\<exists>e. trace s' = trace s @ [AInsertInstance (prProject p) (gcZone (tsGCP ts))
             (buildInstance (gCloudPlatformScope g) ts nm b) e]
           \<and> (e \<noteq> None \<longrightarrow> (\<exists>x. r = Inl x))"
proof -
  have "yields (ProvisionSpotInstance g p ts nm b) (\<lambda>r es. \<exists>e.
     es = [AInsertInstance (prProject p) (gcZone (tsGCP ts))
             (buildInstance (gCloudPlatformScope g) ts nm b) e] \<and> (e \<noteq> None \<longrightarrow> (\<exists>x. r = Inl x)))"
    by (rule yields_ProvisionSpotInstance)
  from yieldsE [OF this assms] show ?thesis by blast
qed

text \<open>
  \<^verbatim>\<open>ListInstancesByPrefix\<close> keeps, in their order, exactly the
  machines whose name starts with the prefix.
\<close>

lemma list_by_prefix:
  "matchingInstances pre is = filter (\<lambda>i. prefix pre (giName i)) is"
  by (simp add: matchingInstances_filter goHasPrefix_iff)

end
