(* ===== verification/PIController.thy ===== *)
theory PIController
  imports Provisioner
begin

text \<open>
  \<^verbatim>\<open>internal/controller/provisionedinstance_controller.go\<close>: the reconciler that gives a
  ProvisionedInstance its machine, follows the machine's state, and cleans up. Each method
  is one definition over the API client k and the compute client g; log lines are left out.
  An update replaces the caller's object by the one the server returns.
\<close>

section \<open>Reading templates, credentials and join information\<close>

definition fetchInstanceTemplate ::
    "'w kube \<Rightarrow> prov_instance \<Rightarrow> 'w sys \<Rightarrow> ((go_error + instance_template) \<times> 'w sys) option" where
  "fetchInstanceTemplate k p s = do {
     let ns = (if piTemplateNamespace (piSpec p) = [] then mNamespace (piMeta p)
               else piTemplateNamespace (piSpec p));
     getTemplate k ns (piTemplateName (piSpec p)) s
   }"

definition fetchGCPCredentials ::
    "'w kube \<Rightarrow> secret_ref \<Rightarrow> 'w sys \<Rightarrow> ((go_error + string) \<times> 'w sys) option" where
  "fetchGCPCredentials k ref s = do {
     (r, s) \<leftarrow> getSecret k (srNamespace ref) (srName ref) s;
     case r of
       Inl e \<Rightarrow> Some (Inl e, s)
     | Inr sec \<Rightarrow>
         (case secData sec ''credentials.json'' of
            None \<Rightarrow> Some (Inl (errorf (''credentials.json not found in secret ''
                      @ srNamespace ref @ ''/'' @ srName ref)), s)
          | Some credJSON \<Rightarrow> Some (Inr credJSON, s))
   }"

text \<open>A missing key of \<^verbatim>\<open>secret.Data\<close> reads as the empty string.\<close>

definition dataOf :: "secret \<Rightarrow> string \<Rightarrow> string" where
  "dataOf sec key = (case secData sec key of None \<Rightarrow> [] | Some v \<Rightarrow> v)"

definition fetchKubeadmJoinInfo ::
    "'w kube \<Rightarrow> string \<Rightarrow> 'w sys \<Rightarrow> ((go_error + string \<times> string \<times> string) \<times> 'w sys) option" where
  "fetchKubeadmJoinInfo k namespace s = do {
     (r, s) \<leftarrow> getSecret k namespace ''kubeadm-join-token'' s;
     case r of
       Inl e \<Rightarrow> Some (Inl e, s)
     | Inr sec \<Rightarrow> do {
         let token = dataOf sec ''token'';
         let caCertHash = dataOf sec ''ca-cert-hash'';
         let endpoint = dataOf sec ''control-plane-endpoint'';
         if token = [] \<or> caCertHash = [] \<or> endpoint = []
         then Some (Inl (errorf ''kubeadm join info incomplete in secret''), s)
         else Some (Inr (token, caCertHash, endpoint), s)
       }
   }"

section \<open>Nodes\<close>

definition deleteNode :: "'w kube \<Rightarrow> string \<Rightarrow> 'w sys \<Rightarrow> (err \<times> 'w sys) option" where
  "deleteNode k nodeName s = do {
     (r, s) \<leftarrow> getNode k nodeName s;
     case r of
       Inl e \<Rightarrow> Some (if isNotFound e then None else Some e, s)
     | Inr n \<Rightarrow> deleteNodeObj k n s
   }"

text \<open>The node goes when a name is recorded; a failure is logged and ignored.\<close>

definition deleteNodeIfNamed :: "'w kube \<Rightarrow> prov_instance \<Rightarrow> 'w sys \<Rightarrow> (unit \<times> 'w sys) option" where
  "deleteNodeIfNamed k p s =
     (if piNodeName (piStatus p) \<noteq> []
      then do { (e, s) \<leftarrow> deleteNode k (piNodeName (piStatus p)) s; Some ((), s) }
      else Some ((), s))"

section \<open>Following the machine\<close>

text \<open>Basic info and addresses copied from the machine.\<close>

definition copyInstance :: "gce_instance \<Rightarrow> pi_status \<Rightarrow> pi_status" where
  "copyInstance i st =
     (let st = st\<lparr>piInstanceID := showNat (giId i), piInstanceName := giName i,
                  piState := giStatus i\<rparr> in
      case giNetworkInterfaces i of
        [] \<Rightarrow> st
      | ni # _ \<Rightarrow>
          (let st = st\<lparr>piInternalIP := niNetworkIP ni\<rparr> in
           case niAccessConfigs ni of
             [] \<Rightarrow> st
           | ac # _ \<Rightarrow> st\<lparr>piExternalIP := acNatIP ac\<rparr>))"

definition checkJoined ::
    "'w kube \<Rightarrow> gce_instance \<Rightarrow> pi_status \<Rightarrow> 'w sys \<Rightarrow> (pi_status \<times> 'w sys) option" where
  "checkJoined k i st s =
     (if giStatus i = ''RUNNING'' \<and> \<not> piJoinedCluster st
      then do {
        (r, s) \<leftarrow> getNode k (giName i) s;
        case r of
          Inl _ \<Rightarrow> Some (st, s)
        | Inr n \<Rightarrow> Some (st\<lparr>piJoinedCluster := True, piNodeName := mName (nMeta n)\<rparr>, s)
      }
      else Some (st, s))"

definition detectPreemption :: "gce_instance \<Rightarrow> pi_status \<Rightarrow> pi_status" where
  "detectPreemption i st =
     (if giStatus i = ''STOPPING'' \<or> giStatus i = ''TERMINATED''
      then st\<lparr>piPreemptionNotice := True, piState := giStatus i\<rparr> else st)"

definition updateInstanceStatus ::
    "'w kube \<Rightarrow> prov_instance \<Rightarrow> gce_instance \<Rightarrow> 'w sys \<Rightarrow> (outcome \<times> 'w sys) option" where
  "updateInstanceStatus k p i s = do {
     (st, s) \<leftarrow> checkJoined k i (copyInstance i (piStatus p)) s;
     (r, s) \<leftarrow> updatePIStatus k (p\<lparr>piStatus := detectPreemption i st\<rparr>) s;
     case r of
       Inl e \<Rightarrow> Some (failWith e, s)
     | Inr p \<Rightarrow>
         (if giStatus i = ''TERMINATED''
          then do { (u, s) \<leftarrow> deleteNodeIfNamed k p s; Some (finished, s) }
          else Some (requeue (seconds 10) None, s))
   }"

text \<open>The 404 test of the code: a substring of the error text.\<close>

definition looksGone :: "go_error \<Rightarrow> bool" where
  "looksGone e \<longleftrightarrow> goContains (errText e) ''notFound'' \<or> goContains (errText e) ''404''"

definition markTerminated :: "'w kube \<Rightarrow> prov_instance \<Rightarrow> 'w sys \<Rightarrow> (outcome \<times> 'w sys) option" where
  "markTerminated k p s = do {
     let p = p\<lparr>piStatus := (piStatus p)\<lparr>piState := ''TERMINATED'', piPreemptionNotice := True\<rparr>\<rparr>;
     (u, s) \<leftarrow> deleteNodeIfNamed k p s;
     (r, s) \<leftarrow> updatePIStatus k p s;
     case r of
       Inl e \<Rightarrow> Some (failWith e, s)
     | Inr p \<Rightarrow> Some (finished, s)
   }"

definition checkAndUpdateInstanceStatus ::
    "'w kube \<Rightarrow> 'w gce \<Rightarrow> prov_instance \<Rightarrow> instance_template \<Rightarrow> provisioner \<Rightarrow> 'w sys
       \<Rightarrow> (outcome \<times> 'w sys) option" where
  "checkAndUpdateInstanceStatus k g p tmpl pr s = do {
     (r, s) \<leftarrow> GetInstance g pr (gcZone (tsGCP (itSpec tmpl))) (piInstanceName (piStatus p)) s;
     case r of
       Inl e \<Rightarrow> (if looksGone e then markTerminated k p s
                else Some (requeue (seconds 10) (Some e), s))
     | Inr x \<Rightarrow> (case x of
         None \<Rightarrow> markTerminated k p s
       | Some i \<Rightarrow> updateInstanceStatus k p i s)
   }"

section \<open>Provisioning\<close>

definition joinCommand :: "string \<Rightarrow> string \<Rightarrow> string \<Rightarrow> string" where
  "joinCommand endpoint token caCertHash =
     ''kubeadm join '' @ endpoint @ '' --token '' @ token
       @ '' --discovery-token-ca-cert-hash '' @ caCertHash"

definition withJoinCommand :: "string \<Rightarrow> template_spec \<Rightarrow> template_spec" where
  "withJoinCommand cmd ts =
     (if tsStartupScript ts \<noteq> []
      then ts\<lparr>tsStartupScript := tsStartupScript ts @ [CHR 0x0A] @ cmd\<rparr>
      else ts\<lparr>tsStartupScript := ''#!/bin/bash'' @ [CHR 0x0A] @ cmd\<rparr>)"

definition preemptibleOf :: "template_spec \<Rightarrow> bool" where
  "preemptibleOf ts = (case tsPreemptible ts of None \<Rightarrow> True | Some b \<Rightarrow> b)"

definition recordProvisioned :: "gce_instance \<Rightarrow> int \<Rightarrow> pi_status \<Rightarrow> pi_status" where
  "recordProvisioned i now st =
     st\<lparr>piInstanceID := showNat (giId i), piInstanceName := giName i,
        piState := ''PROVISIONING'', piCreationTime := Some now\<rparr>"

definition provisionInstance ::
    "'w kube \<Rightarrow> 'w gce \<Rightarrow> prov_instance \<Rightarrow> instance_template \<Rightarrow> provisioner \<Rightarrow> 'w sys
       \<Rightarrow> (outcome \<times> 'w sys) option" where
  "provisionInstance k g p tmpl pr s = do {
     (r, s) \<leftarrow> ListInstancesByPrefix g pr (gcZone (tsGCP (itSpec tmpl))) (mName (piMeta p)) s;
     case r of
       Inl e \<Rightarrow> Some (requeue (seconds 30) (Some e), s)
     | Inr existing \<Rightarrow>
         (case existing of
            i # is \<Rightarrow> updateInstanceStatus k p i s
          | [] \<Rightarrow> do {
              (r, s) \<leftarrow> fetchKubeadmJoinInfo k (mNamespace (piMeta p)) s;
              case r of
                Inl e \<Rightarrow> Some (requeue (seconds 15) (Some e), s)
              | Inr info \<Rightarrow> (case info of (token, caCertHash, endpoint) \<Rightarrow> do {
                  let ts = withJoinCommand (joinCommand endpoint token caCertHash) (itSpec tmpl);
                  (r, s) \<leftarrow> ProvisionSpotInstance g pr ts (mName (piMeta p)) (preemptibleOf ts) s;
                  case r of
                    Inl e \<Rightarrow> Some (requeue (seconds 30) (Some e), s)
                  | Inr x \<Rightarrow> (case x of
                      None \<Rightarrow> Some (failWith nilDereference, s)
                    | Some i \<Rightarrow> do {
                        (now, s) \<leftarrow> timeNow k s;
                        (r, s) \<leftarrow> updatePIStatus k
                          (p\<lparr>piStatus := recordProvisioned i now (piStatus p)\<rparr>) s;
                        case r of
                          Inl e \<Rightarrow> Some (failWith e, s)
                        | Inr p \<Rightarrow> Some (requeue (seconds 30) None, s)
                      })
                })
            })
   }"

section \<open>Deletion\<close>

definition deleteGCPInstance ::
    "'w kube \<Rightarrow> 'w gce \<Rightarrow> prov_instance \<Rightarrow> 'w sys \<Rightarrow> (err \<times> 'w sys) option" where
  "deleteGCPInstance k g p s = do {
     (r, s) \<leftarrow> fetchInstanceTemplate k p s;
     case r of
       Inl e \<Rightarrow> Some (Some e, s)
     | Inr tmpl \<Rightarrow> do {
         (r, s) \<leftarrow> fetchGCPCredentials k (piCredentialsRef (piSpec p)) s;
         case r of
           Inl e \<Rightarrow> Some (Some e, s)
         | Inr creds \<Rightarrow> do {
             (r, s) \<leftarrow> NewProvisioner g creds (gcProject (tsGCP (itSpec tmpl))) s;
             case r of
               Inl e \<Rightarrow> Some (Some e, s)
             | Inr pr \<Rightarrow> do {
                 (e, s) \<leftarrow> DeleteInstance g pr (gcProject (tsGCP (itSpec tmpl)))
                            (gcZone (tsGCP (itSpec tmpl))) (piInstanceName (piStatus p)) s;
                 case e of
                   Some x \<Rightarrow> Some (if looksGone x then None else Some x, s)
                 | None \<Rightarrow> Some (None, s)
               }
           }
       }
   }"

definition deleteMachineIfRecorded ::
    "'w kube \<Rightarrow> 'w gce \<Rightarrow> prov_instance \<Rightarrow> 'w sys \<Rightarrow> (err \<times> 'w sys) option" where
  "deleteMachineIfRecorded k g p s =
     (if piInstanceName (piStatus p) \<noteq> [] then deleteGCPInstance k g p s else Some (None, s))"

definition removeFinalizerPI :: "'w kube \<Rightarrow> prov_instance \<Rightarrow> 'w sys \<Rightarrow> (outcome \<times> 'w sys) option" where
  "removeFinalizerPI k p s = do {
     (r, s) \<leftarrow> updatePI k
       (p\<lparr>piMeta := kRemoveFinalizer k (piMeta p) provisionedInstanceFinalizer\<rparr>) s;
     case r of Inl e \<Rightarrow> Some (failWith e, s) | Inr p \<Rightarrow> Some (finished, s)
   }"

definition handleDeletionPI ::
    "'w kube \<Rightarrow> 'w gce \<Rightarrow> prov_instance \<Rightarrow> 'w sys \<Rightarrow> (outcome \<times> 'w sys) option" where
  "handleDeletionPI k g p s =
     (if kHasFinalizer k (piMeta p) provisionedInstanceFinalizer
      then do {
        (e, s) \<leftarrow> deleteMachineIfRecorded k g p s;
        case e of
          Some x \<Rightarrow> Some (requeue (seconds 30) (Some x), s)
        | None \<Rightarrow> do {
            (u, s) \<leftarrow> deleteNodeIfNamed k p s;
            removeFinalizerPI k p s
          }
      }
      else Some (finished, s))"

section \<open>Reconcile\<close>

definition ensureFinalizerPI ::
    "'w kube \<Rightarrow> prov_instance \<Rightarrow> 'w sys \<Rightarrow> ((go_error + prov_instance) \<times> 'w sys) option" where
  "ensureFinalizerPI k p s =
     (if kHasFinalizer k (piMeta p) provisionedInstanceFinalizer then Some (Inr p, s)
      else updatePI k
        (p\<lparr>piMeta := kAddFinalizer k (piMeta p) provisionedInstanceFinalizer\<rparr>) s)"

definition initStatusPI ::
    "'w kube \<Rightarrow> prov_instance \<Rightarrow> 'w sys \<Rightarrow> ((go_error + prov_instance) \<times> 'w sys) option" where
  "initStatusPI k p s =
     (if piState (piStatus p) = []
      then updatePIStatus k (p\<lparr>piStatus := (piStatus p)\<lparr>piState := ''PENDING''\<rparr>\<rparr>) s
      else Some (Inr p, s))"

text \<open>From the template on: fetch what is needed, then provision or follow.\<close>

definition driveInstance ::
    "'w kube \<Rightarrow> 'w gce \<Rightarrow> prov_instance \<Rightarrow> 'w sys \<Rightarrow> (outcome \<times> 'w sys) option" where
  "driveInstance k g p s = do {
     (r, s) \<leftarrow> fetchInstanceTemplate k p s;
     case r of
       Inl e \<Rightarrow> Some (requeue (seconds 30) (Some e), s)
     | Inr tmpl \<Rightarrow> do {
         (r, s) \<leftarrow> fetchGCPCredentials k (piCredentialsRef (piSpec p)) s;
         case r of
           Inl e \<Rightarrow> Some (requeue (seconds 30) (Some e), s)
         | Inr creds \<Rightarrow> do {
             (r, s) \<leftarrow> NewProvisioner g creds (gcProject (tsGCP (itSpec tmpl))) s;
             case r of
               Inl e \<Rightarrow> Some (failWith e, s)
             | Inr pr \<Rightarrow>
                 (if piInstanceID (piStatus p) = [] \<and> piState (piStatus p) = ''PENDING''
                  then provisionInstance k g p tmpl pr s
                  else checkAndUpdateInstanceStatus k g p tmpl pr s)
           }
       }
   }"

text \<open>An object that is not being deleted: finalizer first, then status, then the machine.\<close>

definition reconcileLivePI ::
    "'w kube \<Rightarrow> 'w gce \<Rightarrow> prov_instance \<Rightarrow> 'w sys \<Rightarrow> (outcome \<times> 'w sys) option" where
  "reconcileLivePI k g p s = do {
     (r, s) \<leftarrow> ensureFinalizerPI k p s;
     case r of
       Inl e \<Rightarrow> Some (failWith e, s)
     | Inr p \<Rightarrow> do {
         (r, s) \<leftarrow> initStatusPI k p s;
         case r of
           Inl e \<Rightarrow> Some (failWith e, s)
         | Inr p \<Rightarrow> driveInstance k g p s
       }
   }"

definition ReconcilePI ::
    "'w kube \<Rightarrow> 'w gce \<Rightarrow> string \<Rightarrow> string \<Rightarrow> 'w sys \<Rightarrow> (outcome \<times> 'w sys) option" where
  "ReconcilePI k g ns nm s = do {
     (r, s) \<leftarrow> getPI k ns nm s;
     case r of
       Inl e \<Rightarrow> Some (if isNotFound e then finished else failWith e, s)
     | Inr p \<Rightarrow>
         (if beingDeleted (piMeta p) then handleDeletionPI k g p s
          else reconcileLivePI k g p s)
   }"

section \<open>Effects of the parts\<close>

lemma emits_fetchInstanceTemplate [yields_op]: "emits A (fetchInstanceTemplate k p)"
  unfolding fetchInstanceTemplate_def [abs_def] by (intro yields_intro yields_op)

lemma emits_fetchGCPCredentials [yields_op]: "emits A (fetchGCPCredentials k ref)"
  unfolding fetchGCPCredentials_def [abs_def] by (intro yields_intro yields_op)

lemma emits_fetchKubeadmJoinInfo [yields_op]: "emits A (fetchKubeadmJoinInfo k ns)"
  unfolding fetchKubeadmJoinInfo_def [abs_def] by (intro yields_intro yields_op)

lemmas yields_reads = yields_kread
  yields_silent [OF emits_fetchInstanceTemplate] yields_silent [OF emits_fetchGCPCredentials]
  yields_silent [OF emits_NewProvisioner] yields_silent [OF emits_GetInstance]
  yields_silent [OF emits_ListInstancesByPrefix]

lemma yields_joinInfo:
  "yields (fetchKubeadmJoinInfo k ns)
     (\<lambda>r es. es = [] \<and> (\<forall>t c e. r = Inr (t, c, e) \<longrightarrow> t \<noteq> [] \<and> c \<noteq> [] \<and> e \<noteq> []))"
  unfolding fetchKubeadmJoinInfo_def [abs_def]
  by (intro yields_bind [OF yields_kread] yields_sum yields_let yields_if yields_ret) auto

lemma emits_deleteNode [yields_op]: "emits isDeleteNode (deleteNode k nm)"
  unfolding deleteNode_def [abs_def] by (intro yields_intro yields_op emits_kcall) simp

lemma emits_deleteNodeIfNamed [yields_op]: "emits isDeleteNode (deleteNodeIfNamed k p)"
  unfolding deleteNodeIfNamed_def [abs_def] by (intro yields_intro yields_op)

lemma yields_deleteNodeIfNamed:
  "yields (deleteNodeIfNamed k p) (\<lambda>r es. list_all isDeleteNode es
     \<and> (es \<noteq> [] \<longrightarrow> piNodeName (piStatus p) \<noteq> []))"
  using emits_deleteNode [of k]
  unfolding deleteNodeIfNamed_def [abs_def] emits_def
  by (intro yields_if yields_bind yields_ret) auto

interpretation nodeDelete: contract "deleteNode k nm" isDeleteNode for k nm
  by unfold_locales (rule emits_deleteNode)

section \<open>The life cycle of a status\<close>

text \<open>
  The abstract machine of a ProvisionedInstance's status: what one status write may turn a
  status into. The initial write, the record of a new machine, the copy of a machine's
  state (with or without the node that has just joined), and the mark of a machine that is
  gone.
\<close>

inductive status_step :: "pi_status \<Rightarrow> pi_status \<Rightarrow> bool" where
  begin_pending: "piState st = [] \<Longrightarrow> status_step st (st\<lparr>piState := ''PENDING''\<rparr>)"
| provisioned: "piInstanceID st = [] \<Longrightarrow> piState st = ''PENDING'' \<Longrightarrow>
     status_step st (recordProvisioned i now st)"
| followed: "status_step st (detectPreemption i (copyInstance i st))"
| joined: "giStatus i = ''RUNNING'' \<Longrightarrow> \<not> piJoinedCluster st \<Longrightarrow>
     status_step st (detectPreemption i ((copyInstance i st)\<lparr>piJoinedCluster := True, piNodeName := n\<rparr>))"
| gone: "status_step st (st\<lparr>piState := ''TERMINATED'', piPreemptionNotice := True\<rparr>)"

inductive_cases status_stepE: "status_step st st'"

text \<open>
  A machine seen stopping or terminated has its preemption notice, and a node name is only
  recorded together with the join.
\<close>

definition status_ok :: "pi_status \<Rightarrow> bool" where
  "status_ok st \<longleftrightarrow>
     (piState st = ''TERMINATED'' \<or> piState st = ''STOPPING'' \<longrightarrow> piPreemptionNotice st)
     \<and> (piNodeName st \<noteq> [] \<longrightarrow> piJoinedCluster st)"

lemma copyInstance_fields [simp]:
  "piState (copyInstance i st) = giStatus i"
  "piNodeName (copyInstance i st) = piNodeName st"
  "piJoinedCluster (copyInstance i st) = piJoinedCluster st"
  "piPreemptionNotice (copyInstance i st) = piPreemptionNotice st"
  "piInstanceID (copyInstance i st) = showNat (giId i)"
  "piInstanceName (copyInstance i st) = giName i"
  "piCreationTime (copyInstance i st) = piCreationTime st"
  by (simp_all add: copyInstance_def Let_def split: list.splits)

lemma detectPreemption_fields [simp]:
  "piNodeName (detectPreemption i st) = piNodeName st"
  "piJoinedCluster (detectPreemption i st) = piJoinedCluster st"
  "piInstanceID (detectPreemption i st) = piInstanceID st"
  "piInstanceName (detectPreemption i st) = piInstanceName st"
  by (simp_all add: detectPreemption_def)

lemma detectPreemption_state:
  "piState st = giStatus i \<Longrightarrow> piState (detectPreemption i st) = giStatus i"
  by (simp add: detectPreemption_def)

lemma status_step_ok: "status_step st st' \<Longrightarrow> status_ok st \<Longrightarrow> status_ok st'"
  by (induction rule: status_step.induct)
    (auto simp: status_ok_def recordProvisioned_def detectPreemption_def)

lemma status_step_notice: "status_step st st' \<Longrightarrow> piPreemptionNotice st \<Longrightarrow> piPreemptionNotice st'"
  by (induction rule: status_step.induct) (auto simp: recordProvisioned_def detectPreemption_def)

lemma status_step_joined: "status_step st st' \<Longrightarrow> piJoinedCluster st \<Longrightarrow> piJoinedCluster st'"
  by (induction rule: status_step.induct) (auto simp: recordProvisioned_def)

lemma status_step_node:
  "status_step st st' \<Longrightarrow> piJoinedCluster st \<Longrightarrow> piNodeName st' = piNodeName st"
  by (induction rule: status_step.induct) (auto simp: recordProvisioned_def)

text \<open>A status that has a machine recorded never goes back to none, so it is provisioned once.\<close>

lemma status_step_id: "status_step st st' \<Longrightarrow> piInstanceID st \<noteq> [] \<Longrightarrow> piInstanceID st' \<noteq> []"
  by (induction rule: status_step.induct) (auto simp: recordProvisioned_def)

section \<open>Status writes are life cycle steps\<close>

text \<open>A status write of the object p that makes one step of the life cycle.\<close>

definition stepsStatus :: "prov_instance \<Rightarrow> action \<Rightarrow> bool" where
  "stepsStatus p a \<longleftrightarrow> (case a of
     AUpdatePIStatus x _ \<Rightarrow> piMeta x = piMeta p \<and> piSpec x = piSpec p
       \<and> status_step (piStatus p) (piStatus x)
   | _ \<Rightarrow> False)"

lemma yields_checkJoined:
  "yields (checkJoined k i st) (\<lambda>st' es. es = [] \<and>
     (st' = st \<or> (giStatus i = ''RUNNING'' \<and> \<not> piJoinedCluster st
        \<and> (\<exists>n. st' = st\<lparr>piJoinedCluster := True, piNodeName := n\<rparr>))))"
  unfolding checkJoined_def [abs_def]
  by (intro yields_if yields_bind [OF yields_kread] yields_sum yields_ret) auto

lemma yields_updateInstanceStatus:
  "yields (updateInstanceStatus k p i)
     (\<lambda>r es. \<exists>st e ns. es = AUpdatePIStatus (p\<lparr>piStatus := st\<rparr>) e # ns
        \<and> status_step (piStatus p) st \<and> piState st = giStatus i
        \<and> piInstanceName st = giName i \<and> piInstanceID st = showNat (giId i)
        \<and> list_all isDeleteNode ns \<and> (ns \<noteq> [] \<longrightarrow> giStatus i = ''TERMINATED'' \<and> e = None)
        \<and> r = (case e of Some x \<Rightarrow> failWith x
                | None \<Rightarrow> if giStatus i = ''TERMINATED'' then finished
                         else requeue (seconds 10) None))"
  (is "yields _ ?Q")
proof -
  let ?R = "\<lambda>st es. es = [] \<and> status_step (piStatus p) (detectPreemption i st)
     \<and> piState (detectPreemption i st) = giStatus i
     \<and> piInstanceName st = giName i \<and> piInstanceID st = showNat (giId i)"
  have 1: "yields (checkJoined k i (copyInstance i (piStatus p))) ?R"
    by (rule yields_mono [OF yields_checkJoined])
      (auto simp: detectPreemption_state intro: status_step.followed status_step.joined)
  show ?thesis
    unfolding updateInstanceStatus_def [abs_def]
    by (intro yields_bind [OF 1] yields_bind [OF yields_kcall] yields_sum yields_if yields_ret
        yields_bind [OF yields_deleteNodeIfNamed])
      auto
qed

lemma emits_updateInstanceStatus [yields_op]:
  "emits (\<lambda>a. stepsStatus p a \<or> isDeleteNode a) (updateInstanceStatus k p i)"
  unfolding emits_def
  by (rule yields_mono [OF yields_updateInstanceStatus])
    (auto simp: stepsStatus_def list_all_iff)

lemma yields_markTerminated:
  "yields (markTerminated k p)
     (\<lambda>r es. \<exists>ns e. es = ns @ [AUpdatePIStatus
          (p\<lparr>piStatus := (piStatus p)\<lparr>piState := ''TERMINATED'', piPreemptionNotice := True\<rparr>\<rparr>) e]
        \<and> list_all isDeleteNode ns \<and> (ns \<noteq> [] \<longrightarrow> piNodeName (piStatus p) \<noteq> [])
        \<and> r = (case e of Some x \<Rightarrow> failWith x | None \<Rightarrow> finished))"
  unfolding markTerminated_def [abs_def] Let_def
  by (intro yields_bind [OF yields_deleteNodeIfNamed] yields_bind [OF yields_kcall]
      yields_sum yields_ret) auto

lemma emits_markTerminated [yields_op]:
  "emits (\<lambda>a. stepsStatus p a \<or> isDeleteNode a) (markTerminated k p)"
  unfolding emits_def
  using status_step.gone [of "piStatus p"]
  by (intro yields_mono [OF yields_markTerminated]) (auto simp: stepsStatus_def list_all_iff)

lemma emits_checkAndUpdate [yields_op]:
  "emits (\<lambda>a. stepsStatus p a \<or> isDeleteNode a) (checkAndUpdateInstanceStatus k g p tmpl pr)"
  unfolding checkAndUpdateInstanceStatus_def [abs_def] by (intro yields_intro yields_op)

lemma find_filter: "find P xs = Some x \<Longrightarrow> \<exists>ys. filter P xs = x # ys"
  by (induction xs) (auto split: if_splits)

lemma returns_deleteNodeIfNamed [returns_intro]: "returns (deleteNodeIfNamed k p)"
  unfolding deleteNodeIfNamed_def [abs_def] deleteNode_def [abs_def] by (intro returns_intro)

lemma returns_updateInstanceStatus [returns_intro]: "returns (updateInstanceStatus k p i)"
  unfolding updateInstanceStatus_def [abs_def] checkJoined_def [abs_def] by (intro returns_intro)

lemma returns_checkAndUpdate [returns_intro]:
  "returns (checkAndUpdateInstanceStatus k g p tmpl pr)"
  unfolding checkAndUpdateInstanceStatus_def [abs_def] GetInstance_def [abs_def]
    markTerminated_def [abs_def] by (intro returns_intro)

interpretation follow: total_contract "checkAndUpdateInstanceStatus k g p tmpl pr"
    "\<lambda>a. stepsStatus p a \<or> isDeleteNode a" for k g p tmpl pr
  by unfold_locales (rule emits_checkAndUpdate, rule returns_checkAndUpdate)

section \<open>Provisioning and deletion\<close>

text \<open>
  A request for the machine of a ProvisionedInstance: its own name, the template's
  resource, and a startup script that ends in a join command with complete information.
\<close>

definition requestsMachine :: "prov_instance \<Rightarrow> instance_template \<Rightarrow> provisioner \<Rightarrow> action \<Rightarrow> bool" where
  "requestsMachine p tmpl pr a \<longleftrightarrow> (\<exists>scope endpoint token hash e.
     endpoint \<noteq> [] \<and> token \<noteq> [] \<and> hash \<noteq> [] \<and>
     a = AInsertInstance (prProject pr) (gcZone (tsGCP (itSpec tmpl)))
           (buildInstance scope (withJoinCommand (joinCommand endpoint token hash) (itSpec tmpl))
              (mName (piMeta p)) (preemptibleOf (itSpec tmpl))) e)"

lemma requestsMachineI:
  "endpoint \<noteq> [] \<Longrightarrow> token \<noteq> [] \<Longrightarrow> hash \<noteq> [] \<Longrightarrow>
   requestsMachine p tmpl pr (AInsertInstance (prProject pr) (gcZone (tsGCP (itSpec tmpl)))
     (buildInstance scope (withJoinCommand (joinCommand endpoint token hash) (itSpec tmpl))
        (mName (piMeta p)) (preemptibleOf (itSpec tmpl))) e)"
  unfolding requestsMachine_def by blast

lemma withJoinCommand_fields [simp]:
  "preemptibleOf (withJoinCommand cmd ts) = preemptibleOf ts"
  "tsGCP (withJoinCommand cmd ts) = tsGCP ts"
  by (simp_all add: preemptibleOf_def withJoinCommand_def)

text \<open>
  Provisioning either follows a machine that exists, or makes one request and then records
  the machine; a request with no record ends in an error.
\<close>

definition provisions :: "prov_instance \<Rightarrow> instance_template \<Rightarrow> provisioner \<Rightarrow> outcome \<Rightarrow> action list \<Rightarrow> bool" where
  "provisions p tmpl pr r es \<longleftrightarrow>
     list_all (\<lambda>a. stepsStatus p a \<or> isDeleteNode a) es
     \<or> (\<exists>a as. es = a # as \<and> requestsMachine p tmpl pr a \<and>
          (as = [] \<and> snd r \<noteq> None
           \<or> (\<exists>i now e. as = [AUpdatePIStatus (p\<lparr>piStatus := recordProvisioned i now (piStatus p)\<rparr>) e]
                \<and> (e = None \<longleftrightarrow> snd r = None))))"

lemma provisions_Nil [simp]: "provisions p tmpl pr r []"
  by (simp add: provisions_def)

lemma provisions_follow:
  "list_all (\<lambda>a. stepsStatus p a \<or> isDeleteNode a) es \<Longrightarrow> provisions p tmpl pr r es"
  by (simp add: provisions_def)

lemma provisions_request:
  "requestsMachine p tmpl pr a \<Longrightarrow> snd r \<noteq> None \<Longrightarrow> provisions p tmpl pr r [a]"
  unfolding provisions_def by blast

lemma provisions_record:
  "requestsMachine p tmpl pr a \<Longrightarrow> (e = None \<longleftrightarrow> snd r = None) \<Longrightarrow>
   provisions p tmpl pr r [a, AUpdatePIStatus (p\<lparr>piStatus := recordProvisioned i now (piStatus p)\<rparr>) e]"
  by (auto simp: provisions_def)

lemma yields_provisionInstance:
  "yields (provisionInstance k g p tmpl pr) (provisions p tmpl pr)"
  unfolding provisionInstance_def [abs_def] Let_def
  by (intro yields_bind [OF yields_silent [OF emits_ListInstancesByPrefix]]
      yields_bind [OF yields_joinInfo] yields_bind [OF yields_ProvisionSpotInstance]
      yields_bind [OF yields_kread] yields_bind [OF yields_kcall]
      yields_sum yields_option yields_list yields_prod yields_ret
      yields_mono [OF emits_updateInstanceStatus [unfolded emits_def]])
    (auto simp: provisions_request provisions_record provisions_follow requestsMachineI)
text \<open>
  Deleting the machine: silence when something needed could not be read, otherwise one
  delete call for the recorded name; no error is reported only if the call went through or
  its error looks like a missing machine.
\<close>

lemma yields_deleteGCPInstance:
  "yields (deleteGCPInstance k g p) (\<lambda>r es.
     (es = [] \<and> r \<noteq> None)
     \<or> (\<exists>project zone e. es = [ADeleteInstance project zone (piInstanceName (piStatus p)) e]))"
  unfolding deleteGCPInstance_def [abs_def]
  by (intro yields_bind [OF yields_silent [OF emits_fetchInstanceTemplate]]
      yields_bind [OF yields_silent [OF emits_fetchGCPCredentials]]
      yields_bind [OF yields_silent [OF emits_NewProvisioner]]
      yields_bind [OF yields_DeleteInstance] yields_sum yields_option yields_ret) auto

text \<open>The delete calls made for the recorded machine: none when none is recorded.\<close>

definition deletesRecorded :: "prov_instance \<Rightarrow> action list \<Rightarrow> bool" where
  "deletesRecorded p ds \<longleftrightarrow>
     (if piInstanceName (piStatus p) = [] then ds = []
      else \<exists>project zone e. ds = [ADeleteInstance project zone (piInstanceName (piStatus p)) e])"

lemma yields_deleteMachineIfRecorded:
  "yields (deleteMachineIfRecorded k g p)
     (\<lambda>r es. deletesRecorded p es \<or> (es = [] \<and> r \<noteq> None))"
  unfolding deleteMachineIfRecorded_def [abs_def]
  by (intro yields_if yields_ret yields_mono [OF yields_deleteGCPInstance])
    (auto simp: deletesRecorded_def)

text \<open>
  A deletion is complete when its last action takes the finalizer away, right after the
  machine's delete call (if a machine is recorded) and the node's.
\<close>

definition cleansUp :: "'w kube \<Rightarrow> prov_instance \<Rightarrow> action list \<Rightarrow> bool" where
  "cleansUp k p es \<longleftrightarrow> (\<exists>ds ns e. es = ds @ ns @
       [AUpdatePI (p\<lparr>piMeta := kRemoveFinalizer k (piMeta p) provisionedInstanceFinalizer\<rparr>) e]
     \<and> deletesRecorded p ds \<and> list_all isDeleteNode ns)"

lemma cleansUpI:
  "deletesRecorded p ds \<Longrightarrow> list_all isDeleteNode ns \<Longrightarrow> cleansUp k p (ds @ ns @
     [AUpdatePI (p\<lparr>piMeta := kRemoveFinalizer k (piMeta p) provisionedInstanceFinalizer\<rparr>) e])"
  unfolding cleansUp_def by blast

lemma deleteNodes_no_insert: "list_all isDeleteNode ns \<Longrightarrow> filter isInsertInstance ns = []"
proof (rule list_all_imp_filter_Nil)
  fix a assume "isDeleteNode a"
  then show "\<not> isInsertInstance a" by (cases a) auto
qed simp

lemma deletesRecorded_no_insert: "deletesRecorded p ds \<Longrightarrow> filter isInsertInstance ds = []"
  by (auto simp: deletesRecorded_def split: if_splits)

lemma cleansUp_no_insert: "cleansUp k p es \<Longrightarrow> filter isInsertInstance es = []"
  by (auto simp: cleansUp_def deletesRecorded_no_insert deleteNodes_no_insert)

lemma yields_removeFinalizerPI:
  "yields (removeFinalizerPI k p) (\<lambda>r es. \<exists>e. es =
     [AUpdatePI (p\<lparr>piMeta := kRemoveFinalizer k (piMeta p) provisionedInstanceFinalizer\<rparr>) e])"
  unfolding removeFinalizerPI_def [abs_def]
  by (intro yields_bind [OF yields_kcall] yields_sum yields_ret) auto

lemma yields_deleteMachine_ok:
  "yields (deleteMachineIfRecorded k g p)
     (\<lambda>r es. (r = None \<longrightarrow> deletesRecorded p es) \<and> (es = [] \<or> deletesRecorded p es))"
  by (rule yields_mono [OF yields_deleteMachineIfRecorded]) auto

lemma yields_handleDeletionPI:
  "yields (handleDeletionPI k g p)
     (\<lambda>r es. cleansUp k p es \<or> es = [] \<or> (snd r \<noteq> None \<and> deletesRecorded p es))"
  unfolding handleDeletionPI_def [abs_def]
  by (intro yields_if yields_ret yields_bind [OF yields_deleteMachine_ok]
      yields_option yields_bind [OF yields_deleteNodeIfNamed] yields_mono [OF yields_removeFinalizerPI])
    (auto intro: cleansUpI)

section \<open>Reconcile\<close>

text \<open>What driving a live object may do; a machine is requested only for a pending object without one.\<close>

definition drives :: "prov_instance \<Rightarrow> outcome \<Rightarrow> action list \<Rightarrow> bool" where
  "drives p r es \<longleftrightarrow> (\<exists>tmpl pr. provisions p tmpl pr r es
     \<and> prProject pr = gcProject (tsGCP (itSpec tmpl))
     \<and> (filter isInsertInstance es \<noteq> [] \<longrightarrow>
          piInstanceID (piStatus p) = [] \<and> piState (piStatus p) = ''PENDING''))"

lemma follows_no_insert:
  "list_all (\<lambda>a. stepsStatus p a \<or> isDeleteNode a) es \<Longrightarrow> filter isInsertInstance es = []"
proof (rule list_all_imp_filter_Nil)
  fix a assume "stepsStatus p a \<or> isDeleteNode a"
  then show "\<not> isInsertInstance a" by (cases a) (auto simp: stepsStatus_def)
qed simp

lemma drives_follow:
  assumes "list_all (\<lambda>a. stepsStatus p a \<or> isDeleteNode a) es"
  shows "drives p r es"
proof -
  let ?pr = "\<lparr>prService = [], prProject = gcProject (tsGCP (itSpec exTemplate))\<rparr>"
  from assms have "provisions p exTemplate ?pr r es" by (rule provisions_follow)
  with follows_no_insert [OF assms] show ?thesis unfolding drives_def
    by (intro exI [of _ exTemplate] exI [of _ ?pr]) simp
qed

lemma drives_Nil [simp]: "drives p r []"
  by (rule drives_follow) simp

lemma drivesI:
  "provisions p tmpl pr r es \<Longrightarrow> prProject pr = gcProject (tsGCP (itSpec tmpl)) \<Longrightarrow>
   piInstanceID (piStatus p) = [] \<Longrightarrow> piState (piStatus p) = ''PENDING'' \<Longrightarrow> drives p r es"
  unfolding drives_def by blast

lemma yields_driveInstance: "yields (driveInstance k g p) (drives p)"
  unfolding driveInstance_def [abs_def]
  by (intro yields_bind [OF yields_silent [OF emits_fetchInstanceTemplate]]
      yields_bind [OF yields_silent [OF emits_fetchGCPCredentials]]
      yields_bind [OF yields_NewProvisioner] yields_sum yields_if yields_ret
      yields_mono [OF yields_provisionInstance]
      yields_mono [OF emits_checkAndUpdate [unfolded emits_def]])
    (auto simp: drives_follow intro: drivesI)

lemma provisions_inserts:
  assumes "provisions p tmpl pr r es"
  shows "length (filter isInsertInstance es) \<le> 1"
    and "a \<in> set es \<Longrightarrow> isInsertInstance a \<Longrightarrow> requestsMachine p tmpl pr a"
  using assms follows_no_insert [of p es]
  by (auto simp: provisions_def filter_empty_conv)

lemma drives_one_insert: "drives p r es \<Longrightarrow> length (filter isInsertInstance es) \<le> 1"
  unfolding drives_def by (blast dest: provisions_inserts(1))

lemma drives_inserts:
  assumes "drives p r es" "a \<in> set es" "isInsertInstance a"
  shows "piInstanceID (piStatus p) = []" "piState (piStatus p) = ''PENDING''"
    "\<exists>tmpl pr. prProject pr = gcProject (tsGCP (itSpec tmpl)) \<and> requestsMachine p tmpl pr a"
proof -
  from assms(2,3) have "filter isInsertInstance es \<noteq> []" by (auto simp: filter_empty_conv)
  with assms(1) obtain tmpl pr where "provisions p tmpl pr r es"
    and pr: "prProject pr = gcProject (tsGCP (itSpec tmpl))"
    and 1: "piInstanceID (piStatus p) = []" "piState (piStatus p) = ''PENDING''"
    unfolding drives_def by blast
  then have "requestsMachine p tmpl pr a"
    using provisions_inserts(2) assms(2,3) by blast
  with pr 1 show "piInstanceID (piStatus p) = []" "piState (piStatus p) = ''PENDING''"
    "\<exists>tmpl pr. prProject pr = gcProject (tsGCP (itSpec tmpl)) \<and> requestsMachine p tmpl pr a"
    by blast+
qed

lemma drives_recorded:
  assumes d: "drives p r es" and ins: "a \<in> set es" "isInsertInstance a"
  shows "es = [a] \<and> snd r \<noteq> None
    \<or> (\<exists>i now e. es = [a, AUpdatePIStatus (p\<lparr>piStatus := recordProvisioned i now (piStatus p)\<rparr>) e]
         \<and> (e = None \<longleftrightarrow> snd r = None))"
proof -
  from d obtain tmpl pr where 1: "provisions p tmpl pr r es" unfolding drives_def by blast
  from ins have "filter isInsertInstance es \<noteq> []" by (auto simp: filter_empty_conv)
  then have "\<not> list_all (\<lambda>a. stepsStatus p a \<or> isDeleteNode a) es"
    using follows_no_insert [of p es] by blast
  with 1 ins show ?thesis unfolding provisions_def
    by (elim disjE exE conjE) (simp_all, elim disjE, simp_all, (intro exI, rule refl)+)
qed

lemma drives_status_step:
  assumes "drives p r es" and "AUpdatePIStatus x e \<in> set es"
  shows "status_step (piStatus p) (piStatus x)"
proof -
  from assms(1) obtain tmpl pr where 1: "provisions p tmpl pr r es"
    and 2: "filter isInsertInstance es \<noteq> [] \<Longrightarrow>
      piInstanceID (piStatus p) = [] \<and> piState (piStatus p) = ''PENDING''"
    by (auto simp: drives_def)
  show ?thesis
  proof (cases "list_all (\<lambda>a. stepsStatus p a \<or> isDeleteNode a) es")
    case True
    with assms(2) show ?thesis by (auto simp: list_all_iff stepsStatus_def)
  next
    case False
    with 1 obtain a as where es: "es = a # as" "requestsMachine p tmpl pr a"
      and as: "as = [] \<or> (\<exists>i now e. as = [AUpdatePIStatus (p\<lparr>piStatus := recordProvisioned i now (piStatus p)\<rparr>) e])"
      unfolding provisions_def by blast
    from es have "filter isInsertInstance es \<noteq> []" by (auto simp: requestsMachine_def)
    with 2 have p: "piInstanceID (piStatus p) = []" "piState (piStatus p) = ''PENDING''"
      by simp_all
    from es as assms(2) obtain i now where "piStatus x = recordProvisioned i now (piStatus p)"
      by (auto simp: requestsMachine_def)
    with status_step.provisioned [OF p] show ?thesis by simp
  qed
qed

lemma drives_same_object:
  assumes "drives p r es" and "AUpdatePIStatus x e \<in> set es"
  shows "piMeta x = piMeta p" and "piSpec x = piSpec p"
  using assms
  by (auto simp: drives_def provisions_def list_all_iff stepsStatus_def requestsMachine_def)

abbreviation addedFinalizerPI :: "'w kube \<Rightarrow> prov_instance \<Rightarrow> prov_instance" where
  "addedFinalizerPI k p \<equiv> p\<lparr>piMeta := kAddFinalizer k (piMeta p) provisionedInstanceFinalizer\<rparr>"

lemma yields_ensureFinalizerPI:
  "yields (ensureFinalizerPI k p) (\<lambda>r es.
     (es = [] \<and> kHasFinalizer k (piMeta p) provisionedInstanceFinalizer)
     \<or> (\<exists>e. es = [AUpdatePI (addedFinalizerPI k p) e] \<and> (e \<noteq> None \<longrightarrow> (\<exists>x. r = Inl x))))"
  unfolding ensureFinalizerPI_def [abs_def]
  by (intro yields_if yields_ret yields_mono [OF yields_kcall]) (auto simp: errOf_def split: sum.splits)

lemma yields_initStatusPI:
  "yields (initStatusPI k p) (\<lambda>r es. filter isInsertInstance es = [])"
  unfolding initStatusPI_def [abs_def]
  by (intro yields_if yields_ret yields_mono [OF yields_kcall]) auto

lemma yields_reconcileLivePI:
  "yields (reconcileLivePI k g p) (\<lambda>r es. length (filter isInsertInstance es) \<le> 1
     \<and> (filter isInsertInstance es \<noteq> [] \<longrightarrow>
          kHasFinalizer k (piMeta p) provisionedInstanceFinalizer
          \<or> hd es = AUpdatePI (addedFinalizerPI k p) None))"
  unfolding reconcileLivePI_def [abs_def]
  by (intro yields_bind [OF yields_ensureFinalizerPI] yields_bind [OF yields_initStatusPI]
      yields_sum yields_ret yields_mono [OF yields_driveInstance])
    (auto dest: drives_one_insert)

section \<open>Properties of the reconciler\<close>

text \<open>
  C9. A reconciliation of a ProvisionedInstance asks the compute
  service for at most one machine, and only for an object that is not being deleted and
  whose finalizer is in place: it was there when the object was read, or adding it was the
  reconciliation's first action and succeeded.
\<close>

theorem machine_request_guarded:
  assumes run: "ReconcilePI k g ns nm s = Some (r, s')"
    and tr: "trace s' = trace s @ es"
    and ins: "a \<in> set es" "isInsertInstance a"
  shows "filter isInsertInstance es = [a] \<and>
    (\<exists>p w. kGetPI k ns nm (world s) = (Inr p, w) \<and> \<not> beingDeleted (piMeta p)
       \<and> (kHasFinalizer k (piMeta p) provisionedInstanceFinalizer
          \<or> hd es = AUpdatePI (addedFinalizerPI k p) None))"
proof -
  obtain x w where get: "kGetPI k ns nm (world s) = (x, w)" by fastforce
  obtain p where x: "x = Inr p"
    using run get tr ins by (cases x) (auto simp: ReconcilePI_def kread_def)
  have live: "\<not> beingDeleted (piMeta p)"
  proof
    assume "beingDeleted (piMeta p)"
    with run get x have "handleDeletionPI k g p (s\<lparr>world := w\<rparr>) = Some (r, s')"
      by (simp add: ReconcilePI_def kread_def)
    from yieldsE [OF yields_handleDeletionPI this] tr
    have "cleansUp k p es \<or> es = [] \<or> deletesRecorded p es" by auto
    with ins cleansUp_no_insert [of k p es] deletesRecorded_no_insert [of p es] show False
      by (auto simp: filter_empty_conv)
  qed
  with run get x have "reconcileLivePI k g p (s\<lparr>world := w\<rparr>) = Some (r, s')"
    by (simp add: ReconcilePI_def kread_def)
  from yieldsE [OF yields_reconcileLivePI this] tr
  have 1: "length (filter isInsertInstance es) \<le> 1"
    and 2: "filter isInsertInstance es \<noteq> [] \<longrightarrow>
          kHasFinalizer k (piMeta p) provisionedInstanceFinalizer
          \<or> hd es = AUpdatePI (addedFinalizerPI k p) None"
    by auto
  from ins have "a \<in> set (filter isInsertInstance es)" by simp
  with 1 have "filter isInsertInstance es = [a]"
    by (cases "filter isInsertInstance es") auto
  with 2 get x live show ?thesis by simp
qed

definition pendingCluster :: cluster where
  "pendingCluster = exCluster\<lparr>clPIs := [exPI ''vm'' noPIStatus]\<rparr>"

lemma pending_run:
  "\<exists>r s'. ReconcilePI refKube refGce ''ns'' ''vm'' \<lparr>world = pendingCluster, trace = []\<rparr> = Some (r, s')
     \<and> (\<exists>a \<in> set (trace s'). isInsertInstance a)"
  by (auto simp: ReconcilePI_def reconcileLivePI_def ensureFinalizerPI_def initStatusPI_def
      driveInstance_def fetchInstanceTemplate_def fetchGCPCredentials_def NewProvisioner_def
      provisionInstance_def ListInstancesByPrefix_def fetchKubeadmJoinInfo_def dataOf_def
      ProvisionSpotInstance_def wait_refGce pendingCluster_def cluster_eval example_defs
      split: prod.splits)

theorem machine_request_guarded_witness:
  "\<exists>r s' a. ReconcilePI refKube refGce ''ns'' ''vm'' \<lparr>world = pendingCluster, trace = []\<rparr> = Some (r, s')
     \<and> filter isInsertInstance (trace s') = [a]"
proof -
  obtain r s' a where run: "ReconcilePI refKube refGce ''ns'' ''vm''
      \<lparr>world = pendingCluster, trace = []\<rparr> = Some (r, s')"
    and a: "a \<in> set (trace s')" "isInsertInstance a"
    using pending_run by blast
  from machine_request_guarded [OF run _ a] run show ?thesis by auto
qed

text \<open>
  C24. From the template on, whatever the answers: every machine
  requested is for an object that is pending and has none, carries the object's own name,
  the project and zone of a template, and a startup script that ends in a join command with
  a complete endpoint, token and CA hash; the request is followed by the write that records
  the machine, or the reconciliation reports an error.
\<close>

theorem machine_request_content:
  assumes run: "driveInstance k g p s = Some (r, s')"
    and tr: "trace s' = trace s @ es"
    and ins: "a \<in> set es" "isInsertInstance a"
  shows "piInstanceID (piStatus p) = [] \<and> piState (piStatus p) = ''PENDING''
    \<and> (\<exists>tmpl pr. prProject pr = gcProject (tsGCP (itSpec tmpl)) \<and> requestsMachine p tmpl pr a)
    \<and> (es = [a] \<and> snd r \<noteq> None
       \<or> (\<exists>i now e. es = [a, AUpdatePIStatus (p\<lparr>piStatus := recordProvisioned i now (piStatus p)\<rparr>) e]
            \<and> (e = None \<longleftrightarrow> snd r = None)))"
proof -
  from yieldsE [OF yields_driveInstance run] tr have d: "drives p r es" by auto
  from drives_inserts [OF d ins] drives_recorded [OF d ins] show ?thesis by blast
qed

lemma pending_drive:
  "\<exists>r s'. driveInstance refKube refGce (exPI ''vm'' (noPIStatus\<lparr>piState := ''PENDING''\<rparr>))
       \<lparr>world = exCluster, trace = []\<rparr> = Some (r, s')
     \<and> (\<exists>a \<in> set (trace s'). isInsertInstance a)"
  by (auto simp: driveInstance_def fetchInstanceTemplate_def fetchGCPCredentials_def
      NewProvisioner_def provisionInstance_def ListInstancesByPrefix_def fetchKubeadmJoinInfo_def
      dataOf_def ProvisionSpotInstance_def wait_refGce cluster_eval example_defs split: prod.splits)

theorem machine_request_content_witness:
  "\<exists>r s' a tmpl pr. driveInstance refKube refGce (exPI ''vm'' (noPIStatus\<lparr>piState := ''PENDING''\<rparr>))
       \<lparr>world = exCluster, trace = []\<rparr> = Some (r, s') \<and> a \<in> set (trace s')
     \<and> requestsMachine (exPI ''vm'' (noPIStatus\<lparr>piState := ''PENDING''\<rparr>)) tmpl pr a"
proof -
  obtain r s' a where run: "driveInstance refKube refGce (exPI ''vm'' (noPIStatus\<lparr>piState := ''PENDING''\<rparr>))
      \<lparr>world = exCluster, trace = []\<rparr> = Some (r, s')"
    and a: "a \<in> set (trace s')" "isInsertInstance a"
    using pending_drive by blast
  from machine_request_content [OF run _ a] run a(1) show ?thesis by fastforce
qed

text \<open>
  C11. The reconciliation of an object that is being deleted updates
  the object at most once, as its last action, to take its own finalizer away; before that
  it has called the compute service to delete the recorded machine, if one is recorded, and
  done nothing else but delete nodes.
\<close>

theorem release_after_cleanup:
  assumes run: "ReconcilePI k g ns nm s = Some (r, s')"
    and get: "kGetPI k ns nm (world s) = (Inr p, w)" "beingDeleted (piMeta p)"
    and upd: "AUpdatePI x e \<in> set (drop (length (trace s)) (trace s'))"
  shows "\<exists>ds ns. trace s' = trace s @ ds @ ns @ [AUpdatePI x e]
    \<and> x = p\<lparr>piMeta := kRemoveFinalizer k (piMeta p) provisionedInstanceFinalizer\<rparr>
    \<and> list_all isDeleteNode ns
    \<and> (if piInstanceName (piStatus p) = [] then ds = []
       else \<exists>project zone e. ds = [ADeleteInstance project zone (piInstanceName (piStatus p)) e])"
proof -
  from run get have "handleDeletionPI k g p (s\<lparr>world := w\<rparr>) = Some (r, s')"
    by (simp add: ReconcilePI_def kread_def)
  from yieldsE [OF yields_handleDeletionPI this] obtain es where es: "trace s' = trace s @ es"
    and c: "cleansUp k p es \<or> es = [] \<or> deletesRecorded p es" by auto
  from upd es have u: "AUpdatePI x e \<in> set es" by simp
  with c have "cleansUp k p es" by (auto simp: deletesRecorded_def split: if_splits)
  then obtain ds ns e' where es': "es = ds @ ns @
       [AUpdatePI (p\<lparr>piMeta := kRemoveFinalizer k (piMeta p) provisionedInstanceFinalizer\<rparr>) e']"
    and ds: "deletesRecorded p ds" and ns: "list_all isDeleteNode ns"
    unfolding cleansUp_def by blast
  from ds have "AUpdatePI x e \<notin> set ds" by (auto simp: deletesRecorded_def split: if_splits)
  moreover from ns have "AUpdatePI x e \<notin> set ns" by (auto simp: list_all_iff)
  ultimately have "x = p\<lparr>piMeta := kRemoveFinalizer k (piMeta p) provisionedInstanceFinalizer\<rparr>" "e' = e"
    using u es' by auto
  with es es' ns ds show ?thesis unfolding deletesRecorded_def by blast
qed

definition deletingPI :: prov_instance where
  "deletingPI = (exPI ''vm'' (noPIStatus\<lparr>piInstanceName := ''vm'', piState := ''RUNNING''\<rparr>))
     \<lparr>piMeta := (exMeta ''vm'')\<lparr>mFinalizers := [provisionedInstanceFinalizer],
        mDeletionTimestamp := Some 7\<rparr>\<rparr>"

definition deletingCluster :: cluster where
  "deletingCluster = exCluster\<lparr>clPIs := [deletingPI]\<rparr>"

lemma deleting_run:
  "\<exists>r s' x e. ReconcilePI refKube refGce ''ns'' ''vm'' \<lparr>world = deletingCluster, trace = []\<rparr> = Some (r, s')
     \<and> AUpdatePI x e \<in> set (trace s')"
  by (auto simp: ReconcilePI_def handleDeletionPI_def deleteMachineIfRecorded_def deleteGCPInstance_def
      fetchInstanceTemplate_def fetchGCPCredentials_def NewProvisioner_def DeleteInstance_def
      deleteNodeIfNamed_def removeFinalizerPI_def wait_refGce deletingCluster_def deletingPI_def
      cluster_eval example_defs split: prod.splits)

theorem release_after_cleanup_witness:
  "\<exists>s' project zone e rest. trace s' = ADeleteInstance project zone ''vm'' e # rest
     \<and> (\<exists>r. ReconcilePI refKube refGce ''ns'' ''vm'' \<lparr>world = deletingCluster, trace = []\<rparr> = Some (r, s'))"
proof -
  obtain r s' x e where run: "ReconcilePI refKube refGce ''ns'' ''vm''
      \<lparr>world = deletingCluster, trace = []\<rparr> = Some (r, s')" and x: "AUpdatePI x e \<in> set (trace s')"
    using deleting_run by blast
  have get: "kGetPI refKube ''ns'' ''vm'' deletingCluster = (Inr deletingPI, deletingCluster)"
    by (simp add: deletingCluster_def deletingPI_def cluster_eval example_defs)
  have "piInstanceName (piStatus deletingPI) = ''vm''" "beingDeleted (piMeta deletingPI)"
    by (simp_all add: deletingPI_def cluster_eval example_defs)
  with release_after_cleanup [OF run, of deletingPI deletingCluster x e] get x run show ?thesis
    by fastforce
qed

text \<open>The call for the node of a status: nothing without a recorded name or a stored node.\<close>

lemma nodeDeleted:
  assumes "deleteNodeIfNamed k p s = Some (u, s')"
  shows "if piNodeName (piStatus p) = [] then s' = s
    else case kGetNode k (piNodeName (piStatus p)) (world s) of
      (Inl _, w) \<Rightarrow> s' = s\<lparr>world := w\<rparr>
    | (Inr nd, w) \<Rightarrow> trace s' = trace s @ [ADeleteNode nd (fst (kDeleteNode k nd w))]"
  using assms
  by (auto simp: deleteNodeIfNamed_def deleteNode_def kread_def kcall_def split: prod.splits sum.splits if_splits)

text \<open>
  C39. A lookup that fails with any error whose text contains the
  digits 404 is taken for a machine that is gone: the reconciler asks for the deletion of the
  node whose name the status records (no call when no name is recorded or no such node is
  found), then writes TERMINATED with a preemption notice, and reports success unless that
  write fails. The text may be a transient failure that merely quotes the machine's name,
  whose suffix is a Unix time.
\<close>

theorem error_text_read_as_gone:
  assumes get: "GetInstance g pr (gcZone (tsGCP (itSpec tmpl))) (piInstanceName (piStatus p)) s
      = Some (Inl (errorf (a @ ''404'' @ b)), s1)"
    and run: "checkAndUpdateInstanceStatus k g p tmpl pr s = Some (r, s')"
  shows "\<exists>ns e. trace s' = trace s1 @ ns @ [AUpdatePIStatus
      (p\<lparr>piStatus := (piStatus p)\<lparr>piState := ''TERMINATED'', piPreemptionNotice := True\<rparr>\<rparr>) e]
    \<and> (if piNodeName (piStatus p) = [] then ns = []
       else case kGetNode k (piNodeName (piStatus p)) (world s1) of
         (Inl _, w) \<Rightarrow> ns = []
       | (Inr nd, w) \<Rightarrow> ns = [ADeleteNode nd (fst (kDeleteNode k nd w))])
    \<and> r = (case e of None \<Rightarrow> finished | Some x \<Rightarrow> failWith x)"
proof -
  let ?p = "p\<lparr>piStatus := (piStatus p)\<lparr>piState := ''TERMINATED'', piPreemptionNotice := True\<rparr>\<rparr>"
  have "looksGone (errorf (a @ ''404'' @ b))"
    using goContains_middle [of a "''404''" b] by (simp add: looksGone_def errorf_def)
  with get run have "markTerminated k p s1 = Some (r, s')"
    by (simp add: checkAndUpdateInstanceStatus_def)
  then obtain u s2 res s3 where del: "deleteNodeIfNamed k ?p s1 = Some (u, s2)"
    and upd: "updatePIStatus k ?p s2 = Some (res, s3)"
    and rest: "(r, s') = (case res of Inl e \<Rightarrow> (failWith e, s3) | Inr p \<Rightarrow> (finished, s3))"
    unfolding markTerminated_def Let_def by (auto split: option.splits sum.splits bind_splits)
  from upd have "\<exists>e. trace s3 = trace s2 @ [AUpdatePIStatus ?p e]
      \<and> r = (case e of None \<Rightarrow> finished | Some x \<Rightarrow> failWith x) \<and> s' = s3"
    using rest by (auto simp: kcall_def split: prod.splits sum.splits)
  with nodeDeleted [OF del] show ?thesis
    by (auto split: if_splits prod.splits sum.splits)
qed

definition busyPI :: prov_instance where
  "busyPI = exPI ''vm-1740412345'' (noPIStatus\<lparr>piState := ''RUNNING'',
     piInstanceName := ''vm-1740412345'', piNodeName := ''n1''\<rparr>)"

definition busyNode :: node where
  "busyNode = \<lparr>nMeta = noMeta\<lparr>mName := ''n1''\<rparr>, nConditions = []\<rparr>"

definition busyCluster :: cluster where
  "busyCluster = exCluster\<lparr>clPIs := [busyPI], clNodes := [busyNode],
     clFaults := [(''get machine'', errorf ''backend error reading vm-1740412345'')]\<rparr>"

theorem error_text_read_as_gone_witness:
  "\<exists>r s' x e f. checkAndUpdateInstanceStatus refKube refGce busyPI exTemplate
       \<lparr>prService = [], prProject = []\<rparr> \<lparr>world = busyCluster, trace = []\<rparr> = Some (r, s')
     \<and> trace s' = [ADeleteNode busyNode e, AUpdatePIStatus x f] \<and> piState (piStatus x) = ''TERMINATED''"
proof -
  let ?pr = "\<lparr>prService = [], prProject = []\<rparr>"
  let ?s = "\<lparr>world = busyCluster, trace = []\<rparr>"
  have get: "GetInstance refGce ?pr (gcZone (tsGCP (itSpec exTemplate))) (piInstanceName (piStatus busyPI)) ?s
      = Some (Inl (errorf (''failed to get instance: backend error reading vm-17'' @ ''404'' @ ''12345'')), ?s)"
    by (simp add: GetInstance_def busyCluster_def busyPI_def cluster_eval example_defs)
  have node: "piNodeName (piStatus busyPI) = ''n1''" "kGetNode refKube ''n1'' busyCluster = (Inr busyNode, busyCluster)"
    by (simp_all add: busyCluster_def busyPI_def busyNode_def cluster_eval example_defs)
  obtain r s' where run: "checkAndUpdateInstanceStatus refKube refGce busyPI exTemplate ?pr ?s = Some (r, s')"
    using returns_checkAndUpdate unfolding returns_def by fastforce
  from error_text_read_as_gone [OF get run] obtain ns e where
    tr: "trace s' = ns @ [AUpdatePIStatus (busyPI\<lparr>piStatus := (piStatus busyPI)
        \<lparr>piState := ''TERMINATED'', piPreemptionNotice := True\<rparr>\<rparr>) e]"
    and ns: "ns = [ADeleteNode busyNode (fst (kDeleteNode refKube busyNode busyCluster))]"
    using node by auto
  from run tr ns show ?thesis by fastforce
qed

text \<open>
  C40. A pending object looks for its machine by name prefix and takes the
  first machine that the zone lists under it, whoever made that machine: instead of requesting
  its own, it records the other machine's name and identity as its machine, which is the name
  its own deletion will ask to be deleted.
\<close>

theorem prefix_adoption:
  assumes lst: "gList g (prService pr) (prProject pr) (gcZone (tsGCP (itSpec tmpl))) (world s) = (Inr ms, w)"
    and m: "find (\<lambda>i. prefix (mName (piMeta p)) (giName i)) ms = Some i"
    and run: "provisionInstance k g p tmpl pr s = Some (r, s')"
  shows "\<exists>st e ns. trace s' = trace s @ AUpdatePIStatus (p\<lparr>piStatus := st\<rparr>) e # ns
    \<and> list_all isDeleteNode ns \<and> piInstanceName st = giName i \<and> piInstanceID st = showNat (giId i)"
proof -
  from m obtain "is" where "matchingInstances (mName (piMeta p)) ms = i # is"
    using find_filter [OF m] by (auto simp: matchingInstances_filter goHasPrefix_iff)
  with lst run have "updateInstanceStatus k p i (s\<lparr>world := w\<rparr>) = Some (r, s')"
    by (simp add: provisionInstance_def ListInstancesByPrefix_def kread_def)
  from yieldsD [OF yields_updateInstanceStatus this] show ?thesis
    by (elim exE conjE) (intro exI conjI, simp_all)
qed

definition otherMachine :: gce_instance where
  "otherMachine = (buildInstance [] (itSpec exTemplate) ''vm-of-somebody-else'' True)
     \<lparr>giId := 9, giStatus := ''RUNNING''\<rparr>"

theorem prefix_adoption_witness:
  "\<exists>r s' st e ns. provisionInstance refKube refGce (exPI ''vm'' (noPIStatus\<lparr>piState := ''PENDING''\<rparr>)) exTemplate
       \<lparr>prService = [], prProject = []\<rparr> \<lparr>world = exCluster\<lparr>clMachines := [otherMachine]\<rparr>, trace = []\<rparr> = Some (r, s')
     \<and> trace s' = AUpdatePIStatus ((exPI ''vm'' noPIStatus)\<lparr>piStatus := st\<rparr>) e # ns
     \<and> piInstanceName st = ''vm-of-somebody-else''"
proof -
  let ?p = "exPI ''vm'' (noPIStatus\<lparr>piState := ''PENDING''\<rparr>)"
  let ?pr = "\<lparr>prService = [], prProject = []\<rparr>"
  let ?s = "\<lparr>world = exCluster\<lparr>clMachines := [otherMachine]\<rparr>, trace = []\<rparr>"
  have nm: "giName otherMachine = ''vm-of-somebody-else''" by (simp add: otherMachine_def)
  have lst: "gList refGce (prService ?pr) (prProject ?pr) (gcZone (tsGCP (itSpec exTemplate))) (world ?s)
      = (Inr [otherMachine], exCluster\<lparr>clMachines := [otherMachine]\<rparr>)"
    by (simp add: cluster_eval example_defs)
  have m: "find (\<lambda>i. prefix (mName (piMeta ?p)) (giName i)) [otherMachine] = Some otherMachine"
    by (simp add: nm exPI_def exMeta_def)
  obtain r s' where run: "updateInstanceStatus refKube ?p otherMachine ?s = Some (r, s')"
    using returns_updateInstanceStatus unfolding returns_def by fastforce
  then have "provisionInstance refKube refGce ?p exTemplate ?pr ?s = Some (r, s')"
    using lst nm by (simp add: provisionInstance_def ListInstancesByPrefix_def kread_def exPI_def exMeta_def)
  from prefix_adoption [OF lst m this] this nm show ?thesis by (fastforce simp: exPI_def)
qed

end
