(* ===== verification/Checkpoint.thy ===== *)
theory Checkpoint
  imports Cluster
begin

text \<open>
  The checkpoint side of the SpotInstanceJob controller
  (\<^verbatim>\<open>internal/controller/spotinstancejob_checkpoint.go\<close>): reading the state of
  CheckpointBackup objects, the images a completed one provides, the registry an image
  repository names, the jobs running on a node, and the creation of a checkpoint for a job.
\<close>

section \<open>The phase of a checkpoint\<close>

definition terminalPhase :: "string \<Rightarrow> bool" where
  "terminalPhase phase \<longleftrightarrow> phase = ''Completed'' \<or> phase = ''CompletedPodDeleted''
     \<or> phase = ''CompletedWithError'' \<or> phase = ''Failed''"

definition successPhase :: "string \<Rightarrow> bool" where
  "successPhase phase \<longleftrightarrow> phase = ''Completed'' \<or> phase = ''CompletedPodDeleted''"

text \<open>A checkpoint with no status or no phase yet counts as in progress.\<close>

definition inProgress :: "checkpoint_backup \<Rightarrow> bool" where
  "inProgress cp =
     (case cpStatus cp of
        None \<Rightarrow> True
      | Some st \<Rightarrow> (case cpPhase st of None \<Rightarrow> True | Some phase \<Rightarrow> \<not> terminalPhase phase))"

text \<open>The status of a checkpoint that completed successfully.\<close>

definition completedStatus :: "checkpoint_backup \<Rightarrow> ckpt_status option" where
  "completedStatus cp =
     (case cpStatus cp of
        None \<Rightarrow> None
      | Some st \<Rightarrow> (case cpPhase st of
          None \<Rightarrow> None
        | Some phase \<Rightarrow> if successPhase phase then Some st else None))"

definition completed :: "checkpoint_backup \<Rightarrow> bool" where
  "completed cp \<longleftrightarrow> completedStatus cp \<noteq> None"

definition hasPendingCheckpoints ::
    "'w kube \<Rightarrow> spot_job \<Rightarrow> 'w sys \<Rightarrow> ((go_error + bool) \<times> 'w sys) option" where
  "hasPendingCheckpoints k sij s = do {
     (r, s) \<leftarrow> listCheckpoint k (mNamespace (sjMeta sij)) [(spotInstanceJobLabel, mName (sjMeta sij))] s;
     case r of
       Inl e \<Rightarrow> Some (Inl e, s)
     | Inr cps \<Rightarrow> Some (Inr (list_ex inProgress cps), s)
   }"

text \<open>
  Whether a completed checkpoint is recent: its completion time when it has one (one that
  does not parse is never recent), its creation time otherwise.
\<close>

definition completedRecently :: "'w kube \<Rightarrow> int \<Rightarrow> checkpoint_backup \<Rightarrow> ckpt_status \<Rightarrow> bool" where
  "completedRecently k now cp st =
     (case cpCompletionTime st of
        Some str \<Rightarrow> (case kParseTime k str of
            None \<Rightarrow> False | Some t \<Rightarrow> now - t < minutes 5)
      | None \<Rightarrow> now - mCreationTimestamp (cpMeta cp) < minutes 5)"

fun completionScan ::
    "'w kube \<Rightarrow> int \<Rightarrow> checkpoint_backup list \<Rightarrow> bool \<times> bool \<Rightarrow> bool \<times> bool" where
  "completionScan k now [] acc = acc"
| "completionScan k now (cp # cps) (hasCompleted, recently) =
     (case completedStatus cp of
        None \<Rightarrow> completionScan k now cps (hasCompleted, recently)
      | Some st \<Rightarrow> completionScan k now cps (True, recently \<or> completedRecently k now cp st))"

definition hasCompletedCheckpoint ::
    "'w kube \<Rightarrow> spot_job \<Rightarrow> 'w sys \<Rightarrow> ((go_error + bool \<times> bool) \<times> 'w sys) option" where
  "hasCompletedCheckpoint k sij s = do {
     (r, s) \<leftarrow> listCheckpoint k (mNamespace (sjMeta sij)) [(spotInstanceJobLabel, mName (sjMeta sij))] s;
     case r of
       Inl e \<Rightarrow> Some (Inl e, s)
     | Inr cps \<Rightarrow> do {
         (now, s) \<leftarrow> timeNow k s;
         Some (Inr (completionScan k now cps (False, False)), s)
       }
   }"

definition hasRestoredJobs ::
    "'w kube \<Rightarrow> spot_job \<Rightarrow> 'w sys \<Rightarrow> ((go_error + bool) \<times> 'w sys) option" where
  "hasRestoredJobs k sij s = do {
     (r, s) \<leftarrow> listJob k (mNamespace (sjMeta sij)) [(spotInstanceJobLabel, mName (sjMeta sij))] s;
     case r of
       Inl e \<Rightarrow> Some (Inl e, s)
     | Inr jobs \<Rightarrow> Some (Inr (list_ex (\<lambda>j. hasCheckpointUpdated (jMeta j)) jobs), s)
   }"

section \<open>The images of a completed checkpoint\<close>

text \<open>
  An element that is not an object leaves a nil map; a type assertion that fails leaves the
  empty string.
\<close>

definition asMap :: "iface \<Rightarrow> cmap" where
  "asMap c = (case c of IMap m \<Rightarrow> m | _ \<Rightarrow> [])"

definition stringAt :: "cmap \<Rightarrow> string \<Rightarrow> string option" where
  "stringAt m key = (case map_of m key of Some (IString v) \<Rightarrow> Some v | _ \<Rightarrow> None)"

definition stringOrEmpty :: "cmap \<Rightarrow> string \<Rightarrow> string" where
  "stringOrEmpty m key = (case stringAt m key of Some v \<Rightarrow> v | None \<Rightarrow> [])"

definition fromBuiltImage :: "iface \<Rightarrow> cmap" where
  "fromBuiltImage img =
     (case img of
        IMap m \<Rightarrow> [(''name'', IString (stringOrEmpty m ''containerName'')),
                  (''image'', IString (stringOrEmpty m ''imageName''))]
      | _ \<Rightarrow> [])"

text \<open>The containers of the status, or its built images in the same format.\<close>

definition checkpointContainers :: "ckpt_status \<Rightarrow> cmap list" where
  "checkpointContainers st =
     (case cpContainers st of
        Some (c # cs) \<Rightarrow> map asMap (c # cs)
      | _ \<Rightarrow> (case cpBuiltImages st of
          Some (i # is) \<Rightarrow> map fromBuiltImage (i # is)
        | _ \<Rightarrow> []))"

section \<open>The registry of an image repository\<close>

definition knownRegistry :: "string \<Rightarrow> bool" where
  "knownRegistry host \<longleftrightarrow> goContains host ''.'' \<or> host = ''docker.io'' \<or> host = ''gcr.io''
     \<or> host = ''ghcr.io'' \<or> host = ''quay.io''"

definition parseRegistry :: "string \<Rightarrow> string \<times> string" where
  "parseRegistry imageRepo =
     (if goContains imageRepo ''/'' then
        (case splitSlash imageRepo of
           [host, rest] \<Rightarrow> (if knownRegistry host then (host, rest) else (''docker.io'', imageRepo))
         | _ \<Rightarrow> (''docker.io'', imageRepo))
      else (''docker.io'', imageRepo))"

section \<open>Jobs and nodes\<close>

text \<open>A missing key of a label map reads as the empty string.\<close>

definition labelAt :: "labels \<Rightarrow> string \<Rightarrow> string" where
  "labelAt ls key = (case ls key of Some v \<Rightarrow> v | None \<Rightarrow> [])"

text \<open>The job a pod belongs to, from either of the two labels.\<close>

definition jobNameOf :: "labels \<Rightarrow> string" where
  "jobNameOf ls =
     (case ls ''job-name'' of
        Some nm \<Rightarrow> nm
      | None \<Rightarrow> (case ls ''batch.kubernetes.io/job-name'' of Some nm \<Rightarrow> nm | None \<Rightarrow> []))"

text \<open>
  The jobs of the pods on a node, without repetition; the result is in map iteration order,
  which the world chooses.
\<close>

fun jobsOfPods :: "spot_job \<Rightarrow> string \<Rightarrow> pod list \<Rightarrow> string list \<Rightarrow> string list" where
  "jobsOfPods sij nodeName [] jobs = jobs"
| "jobsOfPods sij nodeName (p # ps) jobs =
     (if psNodeName (pSpec p) \<noteq> nodeName then jobsOfPods sij nodeName ps jobs
      else if labelAt (mLabels (pMeta p)) spotInstanceJobLabel \<noteq> mName (sjMeta sij) then jobsOfPods sij nodeName ps jobs
      else (let jobName = jobNameOf (mLabels (pMeta p)) in
            jobsOfPods sij nodeName ps
              (if jobName \<noteq> [] then List.insert jobName jobs else jobs)))"

definition findJobsOnNode ::
    "'w kube \<Rightarrow> spot_job \<Rightarrow> string \<Rightarrow> 'w sys \<Rightarrow> ((go_error + string list) \<times> 'w sys) option" where
  "findJobsOnNode k sij nodeName s = do {
     (r, s) \<leftarrow> listPod k (mNamespace (sjMeta sij)) [] s;
     case r of
       Inl e \<Rightarrow> Some (Inl e, s)
     | Inr pods \<Rightarrow> do {
         (rank, s) \<leftarrow> mapOrder k s;
         Some (Inr (sort_key rank (jobsOfPods sij nodeName pods [])), s)
       }
   }"

section \<open>Creating a checkpoint\<close>

text \<open>In progress and completed, over all checkpoints of a job.\<close>

fun checkpointStates :: "checkpoint_backup list \<Rightarrow> bool \<times> bool \<Rightarrow> bool \<times> bool" where
  "checkpointStates [] acc = acc"
| "checkpointStates (cp # cps) (inProg, hasDone) =
     (case cpStatus cp of
        None \<Rightarrow> checkpointStates cps (True, hasDone)
      | Some st \<Rightarrow> (case cpPhase st of
          None \<Rightarrow> checkpointStates cps (True, hasDone)
        | Some phase \<Rightarrow>
            (if \<not> terminalPhase phase then checkpointStates cps (True, hasDone)
             else if successPhase phase then checkpointStates cps (inProg, True)
             else checkpointStates cps (inProg, hasDone))))"

text \<open>
  With a completed checkpoint, a new one is held back while the job is being deleted, until
  it carries the restored-from label, or until a job restored from it exists. Another error
  of the lookup holds nothing back.
\<close>

definition awaitsRecreation ::
    "'w kube \<Rightarrow> spot_job \<Rightarrow> string \<Rightarrow> 'w sys \<Rightarrow> (bool \<times> 'w sys) option" where
  "awaitsRecreation k sij jobName s = do {
     (r, s) \<leftarrow> getJob k (mNamespace (sjMeta sij)) jobName s;
     case r of
       Inr j \<Rightarrow> Some (beingDeleted (jMeta j) \<or> mLabels (jMeta j) ''restored-from'' = None, s)
     | Inl e \<Rightarrow>
         (if isNotFound e then do {
            (r, s) \<leftarrow> listJob k (mNamespace (sjMeta sij)) [(''restored-from'', jobName)] s;
            case r of
              Inl _ \<Rightarrow> Some (True, s)
            | Inr jobs \<Rightarrow> Some (jobs = [], s)
          }
          else Some (False, s))
   }"

definition heldBack ::
    "'w kube \<Rightarrow> spot_job \<Rightarrow> string \<Rightarrow> 'w sys \<Rightarrow> (bool \<times> 'w sys) option" where
  "heldBack k sij jobName s = do {
     (r, s) \<leftarrow> listCheckpoint k (mNamespace (sjMeta sij)) [(checkpointJobLabel, jobName)] s;
     case r of
       Inl _ \<Rightarrow> Some (False, s)
     | Inr cps \<Rightarrow>
         (case checkpointStates cps (False, False) of (inProg, hasDone) \<Rightarrow>
            (if inProg then Some (True, s)
             else if hasDone then awaitsRecreation k sij jobName s
             else Some (False, s)))
   }"

definition podsOfJob ::
    "'w kube \<Rightarrow> spot_job \<Rightarrow> string \<Rightarrow> 'w sys \<Rightarrow> ((go_error + pod list) \<times> 'w sys) option" where
  "podsOfJob k sij jobName s = do {
     (r, s) \<leftarrow> listPod k (mNamespace (sjMeta sij)) [(''job-name'', jobName)] s;
     case r of
       Inl _ \<Rightarrow> listPod k (mNamespace (sjMeta sij)) [(''batch.kubernetes.io/job-name'', jobName)] s
     | Inr pods \<Rightarrow> Some (Inr pods, s)
   }"

text \<open>The first pod on a node that exists and is Ready, among those that are not skipped.\<close>

fun firstAlivePod ::
    "'w kube \<Rightarrow> (pod \<Rightarrow> bool) \<Rightarrow> pod list \<Rightarrow> 'w sys \<Rightarrow> (pod option \<times> 'w sys) option" where
  "firstAlivePod k skip [] s = Some (None, s)"
| "firstAlivePod k skip (p # ps) s =
     (if psNodeName (pSpec p) = [] \<or> skip p then firstAlivePod k skip ps s
      else Option.bind (getNode k (psNodeName (pSpec p)) s) (\<lambda>(r, s).
        case r of
          Inl _ \<Rightarrow> firstAlivePod k skip ps s
        | Inr n \<Rightarrow> (if nodeReady n then Some (Some p, s) else firstAlivePod k skip ps s)))"

definition newCheckpoint :: "spot_job \<Rightarrow> string \<Rightarrow> pod \<Rightarrow> int \<Rightarrow> checkpoint_backup" where
  "newCheckpoint sij jobName p timestamp =
     (case parseRegistry (ccImageRepo (sjCheckpointConfig (sjSpec sij))) of (url, repository) \<Rightarrow>
      \<lparr>cpMeta = noMeta\<lparr>
         mName := mName (sjMeta sij) @ ''-'' @ mName (pMeta p) @ ''-'' @ showInt timestamp,
         mNamespace := mNamespace (sjMeta sij),
         mLabels := [spotInstanceJobLabel \<mapsto> mName (sjMeta sij), checkpointJobLabel \<mapsto> jobName]\<rparr>,
       cpSpec = \<lparr>ckSchedule = ''immediately'', ckStopPod = False,
         ckPodName = mName (pMeta p), ckPodNamespace = mNamespace (pMeta p),
         ckResourceAPIVersion = ''batch/v1'', ckResourceKind = ''Job'', ckResourceName = jobName,
         ckResourceNamespace = mNamespace (sjMeta sij),
         ckRegistry = \<lparr>crURL = url, crRepository = repository,
           crSecretRef = ccCredentialRef (sjCheckpointConfig (sjSpec sij))\<rparr>,
         ckContainers = map (\<lambda>c. (cName c, repository @ '':'' @ cName c @ ''-'' @ showInt timestamp))
           (psContainers (pSpec p))\<rparr>,
       cpStatus = None\<rparr>)"

text \<open>A checkpoint of that name that is already there is no error.\<close>

definition submitCheckpoint :: "'w kube \<Rightarrow> checkpoint_backup \<Rightarrow> 'w sys \<Rightarrow> (err \<times> 'w sys) option" where
  "submitCheckpoint k cp s = do {
     (e, s) \<leftarrow> createCheckpoint k cp s;
     case e of
       None \<Rightarrow> Some (None, s)
     | Some x \<Rightarrow> Some (if isAlreadyExists x then None else Some x, s)
   }"

definition createCheckpointForJob ::
    "'w kube \<Rightarrow> spot_job \<Rightarrow> string \<Rightarrow> 'w sys \<Rightarrow> (err \<times> 'w sys) option" where
  "createCheckpointForJob k sij jobName s = do {
     (held, s) \<leftarrow> heldBack k sij jobName s;
     if held then Some (None, s)
     else do {
       (r, s) \<leftarrow> podsOfJob k sij jobName s;
       case r of
         Inl e \<Rightarrow> Some (Some e, s)
       | Inr pods \<Rightarrow> do {
           (x, s) \<leftarrow> firstAlivePod k (\<lambda>_. False) pods s;
           case x of
             None \<Rightarrow> Some (None, s)
           | Some p \<Rightarrow> do {
               (now, s) \<leftarrow> timeNow k s;
               submitCheckpoint k (newCheckpoint sij jobName p (unixSeconds now)) s
             }
         }
     }
   }"

section \<open>Reading checkpoints\<close>

lemma completed_not_inProgress: "completed cp \<Longrightarrow> \<not> inProgress cp"
  by (auto simp: completed_def completedStatus_def inProgress_def terminalPhase_def successPhase_def
      split: option.splits if_splits)

lemma completionScan_eq:
  "completionScan k now cps acc =
     (fst acc \<or> list_ex completed cps,
      snd acc \<or> list_ex (\<lambda>cp. \<exists>st. completedStatus cp = Some st \<and> completedRecently k now cp st) cps)"
  by (induction k now cps acc rule: completionScan.induct)
    (auto simp: completed_def split: option.splits)

lemma checkpointStates_eq:
  "checkpointStates cps acc = (fst acc \<or> list_ex inProgress cps, snd acc \<or> list_ex completed cps)"
  by (induction cps acc rule: checkpointStates.induct)
    (auto simp: completed_def completedStatus_def inProgress_def terminalPhase_def successPhase_def
      split: option.splits)

lemma emits_hasPendingCheckpoints [yields_op]: "emits A (hasPendingCheckpoints k sij)"
  unfolding hasPendingCheckpoints_def [abs_def] by (intro yields_intro yields_op)

lemma emits_hasCompletedCheckpoint [yields_op]: "emits A (hasCompletedCheckpoint k sij)"
  unfolding hasCompletedCheckpoint_def [abs_def] by (intro yields_intro yields_op)

lemma emits_hasRestoredJobs [yields_op]: "emits A (hasRestoredJobs k sij)"
  unfolding hasRestoredJobs_def [abs_def] by (intro yields_intro yields_op)

lemma emits_findJobsOnNode [yields_op]: "emits A (findJobsOnNode k sij nd)"
  unfolding findJobsOnNode_def [abs_def] by (intro yields_intro yields_op)

lemma emits_awaitsRecreation [yields_op]: "emits A (awaitsRecreation k sij nm)"
  unfolding awaitsRecreation_def [abs_def] by (intro yields_intro yields_op)

lemma emits_heldBack [yields_op]: "emits A (heldBack k sij nm)"
  unfolding heldBack_def [abs_def] by (intro yields_intro yields_op)

lemma emits_podsOfJob [yields_op]: "emits A (podsOfJob k sij nm)"
  unfolding podsOfJob_def [abs_def] by (intro yields_intro yields_op)

lemma returns_hasPendingCheckpoints [returns_intro]: "returns (hasPendingCheckpoints k sij)"
  unfolding hasPendingCheckpoints_def [abs_def] by (intro returns_intro)

lemma returns_hasCompletedCheckpoint [returns_intro]: "returns (hasCompletedCheckpoint k sij)"
  unfolding hasCompletedCheckpoint_def [abs_def] by (intro returns_intro)

lemma returns_hasRestoredJobs [returns_intro]: "returns (hasRestoredJobs k sij)"
  unfolding hasRestoredJobs_def [abs_def] by (intro returns_intro)

lemma returns_findJobsOnNode [returns_intro]: "returns (findJobsOnNode k sij nd)"
  unfolding findJobsOnNode_def [abs_def] by (intro returns_intro)

interpretation pending: total_contract "hasPendingCheckpoints k sij" "\<lambda>_. False" for k sij
  by unfold_locales (rule emits_hasPendingCheckpoints, rule returns_hasPendingCheckpoints)

section \<open>Jobs on a node\<close>

lemma jobsOfPods_set:
  "set (jobsOfPods sij nodeName ps jobs) = set jobs \<union>
     {nm. \<exists>p \<in> set ps. psNodeName (pSpec p) = nodeName \<and> jobNameOf (mLabels (pMeta p)) = nm \<and> nm \<noteq> []
        \<and> labelAt (mLabels (pMeta p)) spotInstanceJobLabel = mName (sjMeta sij)}"
  by (induction sij nodeName ps jobs rule: jobsOfPods.induct) (auto simp: Let_def)

lemma jobsOfPods_distinct: "distinct jobs \<Longrightarrow> distinct (jobsOfPods sij nodeName ps jobs)"
  by (induction sij nodeName ps jobs rule: jobsOfPods.induct) (simp_all add: Let_def)

section \<open>Pods that are alive\<close>

text \<open>A pod the API server placed on a node it reported Ready.\<close>

definition alive :: "'w kube \<Rightarrow> pod \<Rightarrow> bool" where
  "alive k p \<longleftrightarrow> psNodeName (pSpec p) \<noteq> []
     \<and> (\<exists>w w' n. kGetNode k (psNodeName (pSpec p)) w = (Inr n, w') \<and> nodeReady n)"

lemma aliveI:
  "psNodeName (pSpec p) \<noteq> [] \<Longrightarrow> kGetNode k (psNodeName (pSpec p)) w = (Inr n, w') \<Longrightarrow> nodeReady n
   \<Longrightarrow> alive k p"
  by (auto simp: alive_def)

text \<open>A pod that was passed over: on no node yet, or on one that is gone or not Ready.\<close>

definition passedOver :: "'w kube \<Rightarrow> pod \<Rightarrow> bool" where
  "passedOver k p \<longleftrightarrow> psNodeName (pSpec p) = []
     \<or> (\<exists>w r w'. kGetNode k (psNodeName (pSpec p)) w = (r, w') \<and> (\<forall>n. r = Inr n \<longrightarrow> \<not> nodeReady n))"

text \<open>The first alive pod of a list, among those that are not skipped.\<close>

definition firstAlive :: "'w kube \<Rightarrow> (pod \<Rightarrow> bool) \<Rightarrow> pod list \<Rightarrow> pod \<Rightarrow> bool" where
  "firstAlive k skip ps p \<longleftrightarrow> \<not> skip p \<and> alive k p
     \<and> (\<exists>xs ys. ps = xs @ p # ys \<and> (\<forall>q\<in>set xs. skip q \<or> passedOver k q))"

lemma firstAlive_here: "\<not> skip p \<Longrightarrow> alive k p \<Longrightarrow> firstAlive k skip (p # ps) p"
  unfolding firstAlive_def by (intro conjI exI [of _ "[]"] exI [of _ ps]) simp_all

lemma firstAlive_later:
  assumes "firstAlive k skip ps p" "skip q \<or> passedOver k q"
  shows "firstAlive k skip (q # ps) p"
proof -
  from assms(1) obtain xs ys where "ps = xs @ p # ys" "\<forall>q\<in>set xs. skip q \<or> passedOver k q"
    unfolding firstAlive_def by blast
  with assms have "q # ps = (q # xs) @ p # ys \<and> (\<forall>q\<in>set (q # xs). skip q \<or> passedOver k q)" by simp
  with assms(1) show ?thesis unfolding firstAlive_def by blast
qed

lemma firstAlive_in: "firstAlive k skip ps p \<Longrightarrow> p \<in> set ps \<and> \<not> skip p \<and> alive k p"
  by (auto simp: firstAlive_def)

lemma passedOverI:
  "kGetNode k (psNodeName (pSpec p)) w = (r, w') \<Longrightarrow> (\<And>n. r = Inr n \<Longrightarrow> \<not> nodeReady n) \<Longrightarrow> passedOver k p"
  unfolding passedOver_def by blast

lemma yields_firstAlivePod:
  "yields (firstAlivePod k skip ps) (\<lambda>r es. es = [] \<and> (\<forall>p. r = Some p \<longrightarrow> firstAlive k skip ps p))"
proof (induction ps)
  case Nil
  show ?case unfolding firstAlivePod.simps(1) [abs_def] by (rule yields_ret) simp
next
  case (Cons p ps)
  let ?Q = "\<lambda>r es. es = [] \<and> (\<forall>x. r = Some x \<longrightarrow> firstAlive k skip (p # ps) x)"
  have skipped: "yields (firstAlivePod k skip ps) ?Q" if "skip p \<or> passedOver k p"
    using that by (intro yields_mono [OF Cons]) (simp add: firstAlive_later)
  have seen: "yields (\<lambda>s. case r of Inl _ \<Rightarrow> firstAlivePod k skip ps s
        | Inr n \<Rightarrow> (if nodeReady n then Some (Some p, s) else firstAlivePod k skip ps s)) ?Q"
    if n: "psNodeName (pSpec p) \<noteq> []" "\<not> skip p" and r: "kGetNode k (psNodeName (pSpec p)) w = (r, w')" for r w w'
  proof (cases "\<exists>n. r = Inr n \<and> nodeReady n")
    case True
    with n r have "firstAlive k skip (p # ps) p" by (intro firstAlive_here) (auto intro: aliveI)
    with True show ?thesis by (auto intro: yields_ret)
  next
    case False
    with r have "passedOver k p" by (intro passedOverI) auto
    then have "yields (firstAlivePod k skip ps) ?Q" by (intro skipped) simp
    with False show ?thesis by (cases r) auto
  qed
  show ?case
    unfolding firstAlivePod.simps(2) [abs_def]
    by (rule yields_if, rule skipped, force simp: passedOver_def,
        rule yields_bind [OF yields_kread_val]) (use seen in auto)
qed

lemma returns_firstAlivePod [returns_intro]: "returns (firstAlivePod k skip ps)"
proof (induction ps)
  case Nil
  show ?case unfolding firstAlivePod.simps(1) [abs_def] by (rule returns_ret)
next
  case (Cons p ps)
  show ?case unfolding firstAlivePod.simps(2) [abs_def] by (intro returns_intro Cons)
qed

section \<open>Creating a checkpoint\<close>

text \<open>
  The pods of a job as they were listed: by the first of the two labels, and by the second
  when that listing failed.
\<close>

definition podsListed :: "'w kube \<Rightarrow> spot_job \<Rightarrow> string \<Rightarrow> pod list \<Rightarrow> bool" where
  "podsListed k sij jobName pods \<longleftrightarrow>
     (\<exists>w w'. kListPod k (mNamespace (sjMeta sij)) [(''job-name'', jobName)] w = (Inr pods, w'))
     \<or> (\<exists>w e w'. kListPod k (mNamespace (sjMeta sij)) [(''job-name'', jobName)] w = (Inl e, w'))
       \<and> (\<exists>w w'. kListPod k (mNamespace (sjMeta sij)) [(''batch.kubernetes.io/job-name'', jobName)] w
            = (Inr pods, w'))"

lemma yields_podsOfJob:
  "yields (podsOfJob k sij jobName) (\<lambda>r es. es = [] \<and> (\<forall>pods. r = Inr pods \<longrightarrow> podsListed k sij jobName pods))"
  unfolding podsOfJob_def [abs_def]
  by (intro yields_bind [OF yields_kread_val] yields_sum yields_ret yields_mono [OF yields_kread_val])
    (auto simp: podsListed_def)

text \<open>The pod that is checkpointed for a job: the first one of the job that is alive.\<close>

definition chosenPod :: "'w kube \<Rightarrow> spot_job \<Rightarrow> string \<Rightarrow> pod \<Rightarrow> bool" where
  "chosenPod k sij jobName p \<longleftrightarrow> (\<exists>pods. podsListed k sij jobName pods \<and> firstAlive k (\<lambda>_. False) pods p)"

text \<open>
  What creating a checkpoint for a job may do: nothing, or one create call for the first pod
  of that job that is alive. An AlreadyExists answer is not an error.
\<close>

definition checkpoints :: "'w kube \<Rightarrow> spot_job \<Rightarrow> string \<Rightarrow> err \<Rightarrow> action list \<Rightarrow> bool" where
  "checkpoints k sij jobName r es \<longleftrightarrow> es = [] \<or>
     (\<exists>p ts e. es = [ACreateCheckpoint (newCheckpoint sij jobName p ts) e] \<and> chosenPod k sij jobName p
        \<and> r = (case e of Some x \<Rightarrow> if isAlreadyExists x then None else e | None \<Rightarrow> None))"

lemma yields_createCheckpointForJob:
  "yields (createCheckpointForJob k sij jobName) (checkpoints k sij jobName)"
  unfolding createCheckpointForJob_def [abs_def] submitCheckpoint_def [abs_def]
  by (intro yields_bind [OF yields_silent [OF emits_heldBack]]
      yields_bind [OF yields_podsOfJob]
      yields_bind [OF yields_firstAlivePod] yields_bind [OF yields_kread]
      yields_bind [OF yields_kcall] yields_if yields_sum yields_option yields_ret)
    (auto simp: checkpoints_def chosenPod_def)

lemma emits_createCheckpointForJob [yields_op]:
  "(\<And>p ts e. chosenPod k sij jobName p \<Longrightarrow> A (ACreateCheckpoint (newCheckpoint sij jobName p ts) e)) \<Longrightarrow>
     emits A (createCheckpointForJob k sij jobName)"
  unfolding emits_def by (rule yields_mono [OF yields_createCheckpointForJob]) (auto simp: checkpoints_def)

lemma returns_createCheckpointForJob [returns_intro]: "returns (createCheckpointForJob k sij jobName)"
  unfolding createCheckpointForJob_def [abs_def] submitCheckpoint_def [abs_def] heldBack_def [abs_def] awaitsRecreation_def [abs_def]
    podsOfJob_def [abs_def]
  by (intro returns_intro)

interpretation ckpt: total_contract "createCheckpointForJob k sij jobName" isCreateCheckpoint
  for k sij jobName
  by unfold_locales (rule emits_createCheckpointForJob, simp, rule returns_createCheckpointForJob)

section \<open>The registry of an image repository\<close>

lemma parseRegistry_cases:
  "parseRegistry r =
     (if CHR ''/'' \<in> set r
      then (case splitSlash r of [host, rest] \<Rightarrow> if knownRegistry host then (host, rest) else (''docker.io'', r)
              | _ \<Rightarrow> (''docker.io'', r))
      else (''docker.io'', r))"
  by (simp add: parseRegistry_def goContains_char)

lemma parseRegistry_known:
  assumes "CHR ''/'' \<notin> set host" "knownRegistry host"
  shows "parseRegistry (host @ ''/'' @ rest) = (host, rest)"
proof -
  from assms(1) have "splitSlash (host @ ''/'' @ rest) = [host, rest]" by (rule splitSlash_append)
  with assms(2) show ?thesis by (simp add: parseRegistry_cases)
qed

section \<open>Properties\<close>

text \<open>
  Asking for pending checkpoints changes nothing, passes a failed listing
  on, and otherwise answers true exactly when some checkpoint of the SpotInstanceJob has no
  phase yet or a phase other than the four terminal ones.
\<close>

lemma pending_exact:
  "\<exists>r s'. hasPendingCheckpoints k sij s = Some (r, s') \<and> trace s' = trace s \<and>
     (case fst (kListCheckpoint k (mNamespace (sjMeta sij))
                  [(spotInstanceJobLabel, mName (sjMeta sij))] (world s)) of
        Inl e \<Rightarrow> r = Inl e
      | Inr cps \<Rightarrow> r = Inr (\<exists>cp \<in> set cps. Option.bind (cpStatus cp) cpPhase
           \<notin> Some ` {''Completed'', ''CompletedPodDeleted'', ''CompletedWithError'', ''Failed''}))"
proof -
  have 1: "inProgress cp \<longleftrightarrow> Option.bind (cpStatus cp) cpPhase
      \<notin> Some ` {''Completed'', ''CompletedPodDeleted'', ''CompletedWithError'', ''Failed''}" for cp
    by (auto simp: inProgress_def terminalPhase_def split: option.splits)
  show ?thesis
    by (auto simp: hasPendingCheckpoints_def kread_def list_ex_iff 1 split: prod.splits sum.splits)
qed

text \<open>
  The registry of an image repository is its part before the first
  slash when that names a known registry, and the repository the rest; otherwise the
  registry is docker.io and the repository the whole text. So the two parts put together
  give back the repository, or the repository under docker.io.
\<close>

lemma registry_exact:
  "parseRegistry r =
     (if \<exists>h t. r = h @ ''/'' @ t \<and> CHR ''/'' \<notin> set h \<and> knownRegistry h
      then (takeWhile (\<lambda>c. c \<noteq> CHR ''/'') r, tl (dropWhile (\<lambda>c. c \<noteq> CHR ''/'') r))
      else (''docker.io'', r))
   \<and> (fst (parseRegistry r) @ ''/'' @ snd (parseRegistry r) = r
      \<or> parseRegistry r = (''docker.io'', r))"
proof (cases "CHR ''/'' \<in> set r")
  case False
  then show ?thesis by (auto simp: parseRegistry_cases)
next
  case True
  then obtain h t where s: "splitSlash r = [h, t]" using splitSlash_slash by blast
  note r = splitSlash_join [OF s]
  have h: "takeWhile (\<lambda>c. c \<noteq> CHR ''/'') r = h" "tl (dropWhile (\<lambda>c. c \<noteq> CHR ''/'') r) = t"
    using s by (auto simp: splitSlash_def split: list.splits)
  have "(\<exists>h t. r = h @ ''/'' @ t \<and> CHR ''/'' \<notin> set h \<and> knownRegistry h) \<longleftrightarrow> knownRegistry h"
    using r splitSlash_append s by (metis list.inject)
  with True s h r(1) show ?thesis by (auto simp: parseRegistry_cases)
qed

text \<open>
  A checkpoint of the job that is still in progress keeps the
  operator from creating another one: the call ends without an error and without any action.
\<close>

lemma checkpoint_not_duplicated:
  assumes "kListCheckpoint k (mNamespace (sjMeta sij)) [(checkpointJobLabel, jobName)] (world s)
      = (Inr cps, w)"
    and "cp \<in> set cps" "inProgress cp"
  shows "createCheckpointForJob k sij jobName s = Some (None, s\<lparr>world := w\<rparr>)"
proof -
  from assms(2,3) have "list_ex inProgress cps" by (auto simp: list_ex_iff)
  with assms(1) show ?thesis
    by (simp add: createCheckpointForJob_def submitCheckpoint_def heldBack_def kread_def checkpointStates_eq)
qed

definition exSpec :: sij_spec where
  "exSpec = \<lparr>sjReplicas = None,
     sjJobTemplate = \<lparr>jsParallelism = None, jsCompletions = None, jsActiveDeadlineSeconds = None,
       jsBackoffLimit = None, jsTTLSecondsAfterFinished = None, jsCompletionMode = None,
       jsSuspend = None, jsPodFailurePolicy = None, jsSuccessPolicy = None,
       jsBackoffLimitPerIndex = None, jsMaxFailedIndexes = None, jsPodReplacementPolicy = None,
       jsManagedBy = None, jsManualSelector = None, jsSelector = None,
       jsTemplate = \<lparr>ptLabels = None, ptAnnotations = None,
         ptSpec = \<lparr>psNodeName = [], psContainers = [\<lparr>cName = ''main'', cImage = ''train:1'', cOther = []\<rparr>],
           psOther = []\<rparr>\<rparr>\<rparr>,
     sjCheckpointConfig = \<lparr>ccImageRepo = ''gcr.io/proj/ckpt'', ccInterval = 30,
       ccCredentialRef = None, ccStorage = None\<rparr>,
     sjInstanceTemplateRef = \<lparr>lrName = ''tmpl''\<rparr>,
     sjCredentialsRef = \<lparr>srName = ''creds'', srNamespace = ''ns''\<rparr>\<rparr>"

definition exSIJ :: spot_job where
  "exSIJ = \<lparr>sjMeta = exMeta ''train'', sjSpec = exSpec,
     sjStatus = \<lparr>ssConditions = [], ssActiveReplicas = 0, ssLastCheckpointTime = None,
       ssLastCheckpointImage = [], ssJobStatuses = []\<rparr>\<rparr>"

definition exPod :: "string \<Rightarrow> string \<Rightarrow> string \<Rightarrow> pod" where
  "exPod nm jobName node = \<lparr>pMeta = (exMeta nm)\<lparr>mLabels :=
       [spotInstanceJobLabel \<mapsto> ''train'', ''job-name'' \<mapsto> jobName]\<rparr>,
     pSpec = \<lparr>psNodeName = node, psContainers = [\<lparr>cName = ''main'', cImage = ''train:1'', cOther = []\<rparr>],
       psOther = []\<rparr>\<rparr>"

definition exCheckpoint :: "string \<Rightarrow> string \<Rightarrow> checkpoint_backup" where
  "exCheckpoint jobName phase = (newCheckpoint exSIJ jobName (exPod ''p'' jobName ''n'') 5)
     \<lparr>cpStatus := Some \<lparr>cpPhase = Some phase, cpCompletionTime = Some ''7'', cpContainers = None,
        cpBuiltImages = Some [IMap [(''containerName'', IString ''main''),
          (''imageName'', IString ''proj/ckpt:main-5'')]]\<rparr>\<rparr>"

lemmas checkpoint_examples = exSpec_def exSIJ_def exPod_def exCheckpoint_def

text \<open>
  C21. Creating a checkpoint for a job makes at most one create call,
  and none while a checkpoint of that job is listed as in progress. The CheckpointBackup is
  labelled with the SpotInstanceJob and the job, and refers to the first pod listed for that
  very job that the API server placed on a node it reported Ready; every pod before it in the
  list is on no node or on one that is gone or not Ready. It is due immediately, does not stop
  the pod, and lists exactly the pod's containers, each with an image of the parsed repository
  tagged by container name and time; an AlreadyExists answer counts as success.
\<close>

theorem checkpoint_of_alive_pod:
  assumes run: "createCheckpointForJob k sij jobName s = Some (r, s')"
    and act: "trace s' \<noteq> trace s"
  shows "\<exists>pods xs p ys ts cp e. trace s' = trace s @ [ACreateCheckpoint cp e]
    \<and> podsListed k sij jobName pods \<and> pods = xs @ p # ys \<and> alive k p \<and> list_all (passedOver k) xs
    \<and> ckPodName (cpSpec cp) = mName (pMeta p) \<and> ckPodNamespace (cpSpec cp) = mNamespace (pMeta p)
    \<and> ckResourceName (cpSpec cp) = jobName \<and> mNamespace (cpMeta cp) = mNamespace (sjMeta sij)
    \<and> ckSchedule (cpSpec cp) = ''immediately'' \<and> \<not> ckStopPod (cpSpec cp)
    \<and> mLabels (cpMeta cp) = [spotInstanceJobLabel \<mapsto> mName (sjMeta sij), checkpointJobLabel \<mapsto> jobName]
    \<and> ckContainers (cpSpec cp) = map (\<lambda>c. (cName c,
        snd (parseRegistry (ccImageRepo (sjCheckpointConfig (sjSpec sij)))) @ '':'' @ cName c
          @ ''-'' @ showInt ts)) (psContainers (pSpec p))
    \<and> (r = None \<longleftrightarrow> (case e of None \<Rightarrow> True | Some x \<Rightarrow> isAlreadyExists x))
    \<and> (case fst (kListCheckpoint k (mNamespace (sjMeta sij)) [(checkpointJobLabel, jobName)] (world s)) of
         Inl _ \<Rightarrow> True | Inr cps \<Rightarrow> \<not> list_ex inProgress cps)"
proof -
  from yieldsE [OF yields_createCheckpointForJob run] obtain es
    where es: "trace s' = trace s @ es" "checkpoints k sij jobName r es" .
  with act obtain p ts e where
    1: "es = [ACreateCheckpoint (newCheckpoint sij jobName p ts) e]" "chosenPod k sij jobName p"
      "r = (case e of Some x \<Rightarrow> if isAlreadyExists x then None else e | None \<Rightarrow> None)"
    by (auto simp: checkpoints_def)
  from 1(2) obtain pods xs ys where pods: "podsListed k sij jobName pods" "pods = xs @ p # ys" "alive k p"
    "list_all (passedOver k) xs"
    by (auto simp: chosenPod_def firstAlive_def list_all_iff)
  have free: "case fst (kListCheckpoint k (mNamespace (sjMeta sij)) [(checkpointJobLabel, jobName)] (world s)) of
         Inl _ \<Rightarrow> True | Inr cps \<Rightarrow> \<not> list_ex inProgress cps"
    using run act checkpoint_not_duplicated [of k sij jobName s]
    by (cases "kListCheckpoint k (mNamespace (sjMeta sij)) [(checkpointJobLabel, jobName)] (world s)")
      (auto simp: list_ex_iff split: sum.split)
  show ?thesis
    by (rule exI [of _ pods], rule exI [of _ xs], rule exI [of _ p], rule exI [of _ ys], rule exI [of _ ts],
        rule exI [of _ "newCheckpoint sij jobName p ts"], rule exI [of _ e])
      (use es(1) 1 pods free in \<open>auto simp: newCheckpoint_def split: prod.splits option.splits\<close>)
qed

definition aliveCluster :: cluster where
  "aliveCluster = exCluster\<lparr>clPods := [exPod ''p'' ''j'' ''n''],
     clNodes := [\<lparr>nMeta = noMeta\<lparr>mName := ''n''\<rparr>, nConditions = [\<lparr>cdType = ''Ready'', cdStatus = ''True''\<rparr>]\<rparr>]\<rparr>"

theorem checkpoint_of_alive_pod_witness:
  "\<exists>r s' cp e. createCheckpointForJob refKube exSIJ ''j'' \<lparr>world = aliveCluster, trace = []\<rparr> = Some (r, s')
     \<and> trace s' = [ACreateCheckpoint cp e]
     \<and> (\<exists>pods p. podsListed refKube exSIJ ''j'' pods \<and> p \<in> set pods \<and> alive refKube p
          \<and> ckPodName (cpSpec cp) = mName (pMeta p))"
proof -
  have "\<exists>r s'. createCheckpointForJob refKube exSIJ ''j'' \<lparr>world = aliveCluster, trace = []\<rparr> = Some (r, s')
      \<and> trace s' \<noteq> []"
    by (auto simp: createCheckpointForJob_def submitCheckpoint_def heldBack_def podsOfJob_def aliveCluster_def nodeReady_def
        newCheckpoint_def checkpoint_examples cluster_eval example_defs split: prod.splits)
  then obtain r s' where run:
    "createCheckpointForJob refKube exSIJ ''j'' \<lparr>world = aliveCluster, trace = []\<rparr> = Some (r, s')"
    and tr: "trace s' \<noteq> []" by blast
  have "trace s' \<noteq> trace \<lparr>world = aliveCluster, trace = []\<rparr>" using tr by simp
  from checkpoint_of_alive_pod [OF run this] obtain pods xs p ys ts cp e where
    "trace s' = trace \<lparr>world = aliveCluster, trace = []\<rparr> @ [ACreateCheckpoint cp e]"
    "podsListed refKube exSIJ ''j'' pods" "pods = xs @ p # ys"
    "alive refKube p" "ckPodName (cpSpec cp) = mName (pMeta p)"
    by blast
  then have "trace s' = [ACreateCheckpoint cp e]" "podsListed refKube exSIJ ''j'' pods \<and> p \<in> set pods
      \<and> alive refKube p \<and> ckPodName (cpSpec cp) = mName (pMeta p)" by simp_all
  with run show ?thesis by blast
qed

end
