(* ===== verification/Jobs.thy ===== *)
theory Jobs
  imports Checkpoint
begin

text \<open>
  The jobs of a SpotInstanceJob (\<^verbatim>\<open>internal/controller/spotinstancejob_job.go\<close> but for
  the replica loop, and the parts of \<^verbatim>\<open>spotinstancejob_checkpoint.go\<close> that restore jobs):
  creating a replica on its machine, restoring a job with checkpoint images, and applying
  the completed checkpoints.

  A Go map is shared when the struct that holds it is copied. Creating a replica copies the
  job template of the SpotInstanceJob and writes labels into the copied pod template, so it
  changes the caller's SpotInstanceJob as well when that template has a label map; the
  definitions return the SpotInstanceJob as it is left.
\<close>

section \<open>Selecting a machine\<close>

text \<open>The loop over the listed instances: the first one not preempted that is running and joined.\<close>

definition readyPI :: "prov_instance \<Rightarrow> bool" where
  "readyPI p \<longleftrightarrow> piState (piStatus p) = ''RUNNING'' \<and> piJoinedCluster (piStatus p)
     \<and> piNodeName (piStatus p) \<noteq> []"

fun selectReadyPI :: "prov_instance list \<Rightarrow> prov_instance option" where
  "selectReadyPI [] = None"
| "selectReadyPI (p # ps) =
     (if preempted p then selectReadyPI ps
      else if readyPI p then Some p else selectReadyPI ps)"

interpretation ready: first_match selectReadyPI "\<lambda>p. \<not> preempted p \<and> readyPI p"
  by unfold_locales auto

text \<open>The labels by which the objects of one replica are found.\<close>

definition replicaSelector :: "spot_job \<Rightarrow> int \<Rightarrow> (string \<times> string) list" where
  "replicaSelector sij i =
     [(spotInstanceJobLabel, mName (sjMeta sij)), (jobReplicaLabel, showInt i)]"

section \<open>Creating a replica\<close>

definition withReplicaLabels :: "spot_job \<Rightarrow> int \<Rightarrow> labels \<Rightarrow> labels" where
  "withReplicaLabels sij i ls =
     ls(spotInstanceJobLabel \<mapsto> mName (sjMeta sij), jobReplicaLabel \<mapsto> showInt i)"

text \<open>
  The labels of the pod template, and the SpotInstanceJob after they are set: a nil map is
  replaced in the copy only, any other is the template's own map.
\<close>

definition templateLabels :: "spot_job \<Rightarrow> labels option" where
  "templateLabels sij = ptLabels (jsTemplate (sjJobTemplate (sjSpec sij)))"

definition setTemplateLabels :: "labels \<Rightarrow> job_spec \<Rightarrow> job_spec" where
  "setTemplateLabels ls spec = spec\<lparr>jsTemplate := (jsTemplate spec)\<lparr>ptLabels := Some ls\<rparr>\<rparr>"

definition labelTemplate :: "(labels \<Rightarrow> labels) \<Rightarrow> spot_job \<Rightarrow> job_spec \<times> spot_job" where
  "labelTemplate f sij =
     (case templateLabels sij of
        None \<Rightarrow> (setTemplateLabels (f Map.empty) (sjJobTemplate (sjSpec sij)), sij)
      | Some ls \<Rightarrow>
          (let spec = setTemplateLabels (f ls) (sjJobTemplate (sjSpec sij))
           in (spec, sij\<lparr>sjSpec := (sjSpec sij)\<lparr>sjJobTemplate := spec\<rparr>\<rparr>)))"

definition replicaJob :: "spot_job \<Rightarrow> string \<Rightarrow> int \<Rightarrow> job_spec \<Rightarrow> job" where
  "replicaJob sij jobName i spec =
     \<lparr>jMeta = noMeta\<lparr>mName := jobName, mNamespace := mNamespace (sjMeta sij),
        mLabels := withReplicaLabels sij i Map.empty\<rparr>,
      jSpec = spec, jActive = 0, jSucceeded = 0\<rparr>"

definition setNodeName :: "string \<Rightarrow> job \<Rightarrow> job" where
  "setNodeName node j =
     j\<lparr>jSpec := (jSpec j)\<lparr>jsTemplate := (jsTemplate (jSpec j))
        \<lparr>ptSpec := (ptSpec (jsTemplate (jSpec j)))\<lparr>psNodeName := node\<rparr>\<rparr>\<rparr>\<rparr>"

text \<open>A failed listing, or no machine that is ready, leaves the placement to the scheduler.\<close>

definition assignNode ::
    "'w kube \<Rightarrow> spot_job \<Rightarrow> int \<Rightarrow> job \<Rightarrow> 'w sys \<Rightarrow> (job \<times> 'w sys) option" where
  "assignNode k sij i j s = do {
     (r, s) \<leftarrow> listPI k (mNamespace (sjMeta sij)) (replicaSelector sij i) s;
     case r of
       Inl _ \<Rightarrow> Some (j, s)
     | Inr pis \<Rightarrow> (case selectReadyPI pis of
         None \<Rightarrow> Some (j, s)
       | Some p \<Rightarrow> Some (setNodeName (piNodeName (piStatus p)) j, s))
   }"

definition createJobReplica ::
    "'w kube \<Rightarrow> spot_job \<Rightarrow> string \<Rightarrow> int \<Rightarrow> 'w sys \<Rightarrow> ((err \<times> spot_job) \<times> 'w sys) option" where
  "createJobReplica k sij jobName i s = do {
     let (spec, sij) = labelTemplate (withReplicaLabels sij i) sij;
     (j, s) \<leftarrow> assignNode k sij i (replicaJob sij jobName i spec) s;
     case kSetCtrlRef k (sjMeta sij) (jMeta j) of
       Inl e \<Rightarrow> Some ((Some e, sij), s)
     | Inr m \<Rightarrow> do {
         (e, s) \<leftarrow> createJob k (j\<lparr>jMeta := m\<rparr>) s;
         Some ((e, sij), s)
       }
   }"

section \<open>Deleting a job\<close>

definition deleteJob :: "'w kube \<Rightarrow> string \<Rightarrow> string \<Rightarrow> 'w sys \<Rightarrow> (err \<times> 'w sys) option" where
  "deleteJob k ns jobName s = do {
     (r, s) \<leftarrow> getJob k ns jobName s;
     case r of
       Inl e \<Rightarrow> Some (if isNotFound e then None else Some e, s)
     | Inr j \<Rightarrow> deleteJobObj k j False s
   }"

section \<open>Restoring a job with checkpoint images\<close>

text \<open>Container name to image; a later entry replaces an earlier one.\<close>

fun imageMap :: "string \<Rightarrow> cmap list \<Rightarrow> labels \<Rightarrow> labels" where
  "imageMap pre [] acc = acc"
| "imageMap pre (c # cs) acc =
     (case stringAt c ''name'' of
        None \<Rightarrow> imageMap pre cs acc
      | Some nm \<Rightarrow> (case stringAt c ''image'' of
          None \<Rightarrow> imageMap pre cs acc
        | Some img \<Rightarrow> imageMap pre cs (acc(nm \<mapsto> pre @ img))))"

text \<open>The images of a checkpoint, each under the registry of the SpotInstanceJob's image repository.\<close>

definition checkpointImages :: "spot_job \<Rightarrow> cmap list \<Rightarrow> labels" where
  "checkpointImages sij cs =
     (let registryURL = fst (parseRegistry (ccImageRepo (sjCheckpointConfig (sjSpec sij))))
      in imageMap (registryURL @ ''/'') cs Map.empty)"

definition updateImages :: "labels \<Rightarrow> container list \<Rightarrow> container list" where
  "updateImages imgs cs =
     map (\<lambda>c. case imgs (cName c) of None \<Rightarrow> c | Some img \<Rightarrow> c\<lparr>cImage := img\<rparr>) cs"

text \<open>The pod spec of the restored job: no node, the containers with their checkpoint images.\<close>

definition restoredPodSpec :: "labels \<Rightarrow> job \<Rightarrow> pod_spec" where
  "restoredPodSpec imgs j =
     (let ps = ptSpec (jsTemplate (jSpec j)) in
      ps\<lparr>psNodeName := [], psContainers := updateImages imgs (psContainers ps)\<rparr>)"

definition restoredSpec :: "spot_job \<Rightarrow> int \<Rightarrow> labels \<Rightarrow> job \<Rightarrow> job_spec" where
  "restoredSpec sij i imgs j =
     \<lparr>jsParallelism = jsParallelism (jSpec j), jsCompletions = jsCompletions (jSpec j),
      jsActiveDeadlineSeconds = jsActiveDeadlineSeconds (jSpec j),
      jsBackoffLimit = jsBackoffLimit (jSpec j),
      jsTTLSecondsAfterFinished = jsTTLSecondsAfterFinished (jSpec j),
      jsCompletionMode = jsCompletionMode (jSpec j), jsSuspend = jsSuspend (jSpec j),
      jsPodFailurePolicy = jsPodFailurePolicy (jSpec j),
      jsSuccessPolicy = None, jsBackoffLimitPerIndex = None, jsMaxFailedIndexes = None,
      jsPodReplacementPolicy = None, jsManagedBy = None, jsManualSelector = None,
      jsSelector = None,
      jsTemplate = \<lparr>ptLabels = Some (withReplicaLabels sij i Map.empty),
        ptAnnotations = Some (case ptAnnotations (jsTemplate (jSpec j)) of
            None \<Rightarrow> Map.empty | Some ann \<Rightarrow> ann),
        ptSpec = restoredPodSpec imgs j\<rparr>\<rparr>"

definition restoredJob :: "spot_job \<Rightarrow> string \<Rightarrow> int \<Rightarrow> labels \<Rightarrow> job \<Rightarrow> job" where
  "restoredJob sij jobName i imgs j =
     \<lparr>jMeta = noMeta\<lparr>mName := jobName, mNamespace := mNamespace (sjMeta sij),
        mLabels := withReplicaLabels sij i Map.empty,
        mAnnotations := [checkpointUpdatedAnnotation \<mapsto> ''true'']\<rparr>,
      jSpec = restoredSpec sij i imgs j, jActive = 0, jSucceeded = 0\<rparr>"

text \<open>
  Placing the restored job: when the machines of the replica can be listed, a ready one is
  required; when they cannot, the placement is left to the scheduler.
\<close>

definition waitingFor :: "int \<Rightarrow> string \<Rightarrow> go_error" where
  "waitingFor i what =
     errorf (''waiting for ProvisionedInstance with replica index '' @ showInt i @ what)"

definition placeRestored ::
    "'w kube \<Rightarrow> spot_job \<Rightarrow> int \<Rightarrow> job \<Rightarrow> 'w sys \<Rightarrow> ((go_error + job) \<times> 'w sys) option" where
  "placeRestored k sij i j s = do {
     (r, s) \<leftarrow> listPI k (mNamespace (sjMeta sij)) (replicaSelector sij i) s;
     case r of
       Inl _ \<Rightarrow> Some (Inr j, s)
     | Inr pis \<Rightarrow>
         (case pis of
            [] \<Rightarrow> Some (Inl (waitingFor i '' to be created''), s)
          | _ # _ \<Rightarrow> (case selectReadyPI pis of
              None \<Rightarrow> Some (Inl (waitingFor i '' to be ready''), s)
            | Some p \<Rightarrow> Some (Inr (setNodeName (piNodeName (piStatus p)) j), s)))
   }"

text \<open>
  The create call; when the name is taken, the job that has it is only looked at, and both
  outcomes of the look are success.
\<close>

definition createRestored ::
    "'w kube \<Rightarrow> spot_job \<Rightarrow> job \<Rightarrow> 'w sys \<Rightarrow> (err \<times> 'w sys) option" where
  "createRestored k sij j s =
     (case kSetCtrlRef k (sjMeta sij) (jMeta j) of
        Inl e \<Rightarrow> Some (Some (wrapErr ''failed to set controller reference: '' e), s)
      | Inr m \<Rightarrow> do {
          (e, s) \<leftarrow> createJob k (j\<lparr>jMeta := m\<rparr>) s;
          case e of
            None \<Rightarrow> Some (None, s)
          | Some x \<Rightarrow>
              (if isAlreadyExists x then do {
                 (r, s) \<leftarrow> getJob k (mNamespace (sjMeta sij)) (mName m) s;
                 Some (None, s)
               }
               else Some (Some (wrapErr ''failed to create updated job: '' x), s))
        })"

definition replaceJob ::
    "'w kube \<Rightarrow> spot_job \<Rightarrow> string \<Rightarrow> labels \<Rightarrow> job \<Rightarrow> 'w sys \<Rightarrow> (err \<times> 'w sys) option" where
  "replaceJob k sij jobName imgs j s = do {
     let i = replicaIndexOf 0 (mLabels (jMeta j));
     (e, s) \<leftarrow> deleteJobObj k j True s;
     case e of
       Some x \<Rightarrow> Some (Some (wrapErr ''failed to delete job: '' x), s)
     | None \<Rightarrow> do {
         (u, s) \<leftarrow> goSleep k (seconds 2) s;
         (r, s) \<leftarrow> placeRestored k sij i (restoredJob sij jobName i imgs j) s;
         case r of
           Inl x \<Rightarrow> Some (Some x, s)
         | Inr newJob \<Rightarrow> createRestored k sij newJob s
       }
   }"

definition updateJobWithCheckpoint ::
    "'w kube \<Rightarrow> spot_job \<Rightarrow> string \<Rightarrow> cmap list \<Rightarrow> 'w sys \<Rightarrow> (err \<times> 'w sys) option" where
  "updateJobWithCheckpoint k sij jobName cs s = do {
     (r, s) \<leftarrow> getJob k (mNamespace (sjMeta sij)) jobName s;
     case r of
       Inl e \<Rightarrow> Some (if isNotFound e then None else Some e, s)
     | Inr j \<Rightarrow>
         (if hasCheckpointUpdated (jMeta j) then Some (None, s)
          else replaceJob k sij jobName (checkpointImages sij cs) j s)
   }"

section \<open>Recreating a job from the template\<close>

text \<open>
  The container slice is shared as well: the images are written into the SpotInstanceJob's
  own template. With no containers given nothing is written.
\<close>

definition setTemplateImages :: "labels \<Rightarrow> job_spec \<Rightarrow> job_spec" where
  "setTemplateImages imgs spec =
     spec\<lparr>jsTemplate := (jsTemplate spec)\<lparr>ptSpec := (ptSpec (jsTemplate spec))
        \<lparr>psContainers := updateImages imgs (psContainers (ptSpec (jsTemplate spec)))\<rparr>\<rparr>\<rparr>"

definition recreateJobWithCheckpoint ::
    "'w kube \<Rightarrow> spot_job \<Rightarrow> string \<Rightarrow> cmap list \<Rightarrow> 'w sys \<Rightarrow> ((err \<times> spot_job) \<times> 'w sys) option" where
  "recreateJobWithCheckpoint k sij oldJobName cs s = do {
     (now, s) \<leftarrow> timeNow k s;
     let newJobName = oldJobName @ ''-restored-'' @ showInt (unixSeconds now);
     let (spec, sij) = labelTemplate (\<lambda>ls. ls(spotInstanceJobLabel \<mapsto> mName (sjMeta sij))) sij;
     let imgs = imageMap [] cs Map.empty;
     let spec = setTemplateImages imgs spec;
     let sij = sij\<lparr>sjSpec := (sjSpec sij)\<lparr>sjJobTemplate :=
                     setTemplateImages imgs (sjJobTemplate (sjSpec sij))\<rparr>\<rparr>;
     let m = noMeta\<lparr>mName := newJobName, mNamespace := mNamespace (sjMeta sij),
               mLabels := [spotInstanceJobLabel \<mapsto> mName (sjMeta sij), ''restored-from'' \<mapsto> oldJobName]\<rparr>;
     case kSetCtrlRef k (sjMeta sij) m of
       Inl e \<Rightarrow> Some ((Some e, sij), s)
     | Inr m \<Rightarrow> do {
         (e, s) \<leftarrow> createJob k \<lparr>jMeta = m, jSpec = spec, jActive = 0, jSucceeded = 0\<rparr> s;
         Some ((e, sij), s)
       }
   }"

section \<open>Applying completed checkpoints\<close>

text \<open>
  One job of the set: the source of the checkpoint and the jobs already processed are left
  alone, as are those that are gone, deleted or already restored. The result is the set of
  processed jobs.
\<close>

definition processJob ::
    "'w kube \<Rightarrow> spot_job \<Rightarrow> string \<Rightarrow> cmap list \<Rightarrow> string \<Rightarrow> string set \<Rightarrow> 'w sys
       \<Rightarrow> (string set \<times> 'w sys) option" where
  "processJob k sij source cs jobName processed s =
     (if source \<noteq> [] \<and> jobName = source then Some (processed, s)
      else if jobName \<in> processed then Some (processed, s)
      else do {
        (r, s) \<leftarrow> getJob k (mNamespace (sjMeta sij)) jobName s;
        case r of
          Inl _ \<Rightarrow> Some (processed, s)
        | Inr j \<Rightarrow>
            (if hasCheckpointUpdated (jMeta j) then Some (insert jobName processed, s)
             else if beingDeleted (jMeta j) then Some (processed, s)
             else do {
               (e, s) \<leftarrow> updateJobWithCheckpoint k sij jobName cs s;
               Some (if e = None then insert jobName processed else processed, s)
             })
      })"

fun processJobs ::
    "'w kube \<Rightarrow> spot_job \<Rightarrow> string \<Rightarrow> cmap list \<Rightarrow> string list \<Rightarrow> string set \<Rightarrow> 'w sys
       \<Rightarrow> (string set \<times> 'w sys) option" where
  "processJobs k sij source cs [] processed s = Some (processed, s)"
| "processJobs k sij source cs (j # js) processed s =
     Option.bind (processJob k sij source cs j processed s)
       (\<lambda>(processed, s). processJobs k sij source cs js processed s)"

text \<open>Each checkpoint visits the jobs in a map order of its own.\<close>

fun processCheckpoints ::
    "'w kube \<Rightarrow> spot_job \<Rightarrow> string list \<Rightarrow> checkpoint_backup list \<Rightarrow> string set \<Rightarrow> 'w sys
       \<Rightarrow> (unit \<times> 'w sys) option" where
  "processCheckpoints k sij jobs [] processed s = Some ((), s)"
| "processCheckpoints k sij jobs (cp # cps) processed s =
     (case completedStatus cp of
        None \<Rightarrow> processCheckpoints k sij jobs cps processed s
      | Some st \<Rightarrow>
          (if checkpointContainers st = [] then processCheckpoints k sij jobs cps processed s
           else Option.bind (mapOrder k s) (\<lambda>(rank, s).
             Option.bind (processJobs k sij (labelAt (mLabels (cpMeta cp)) checkpointJobLabel)
                 (checkpointContainers st) (sort_key rank jobs) processed s)
               (\<lambda>(processed, s). processCheckpoints k sij jobs cps processed s))))"

definition processCompletedCheckpoints ::
    "'w kube \<Rightarrow> spot_job \<Rightarrow> string list \<Rightarrow> 'w sys \<Rightarrow> (err \<times> 'w sys) option" where
  "processCompletedCheckpoints k sij jobs s = do {
     (r, s) \<leftarrow> listCheckpoint k (mNamespace (sjMeta sij)) [(spotInstanceJobLabel, mName (sjMeta sij))] s;
     case r of
       Inl e \<Rightarrow> Some (Some e, s)
     | Inr cps \<Rightarrow>
         (if jobs = [] then Some (None, s)
          else do { (u, s) \<leftarrow> processCheckpoints k sij jobs cps {} s; Some (None, s) })
   }"

section \<open>Restoring from the latest checkpoint\<close>

text \<open>The containers and completion time of the latest completed checkpoint that has both.\<close>

definition datedContainers :: "'w kube \<Rightarrow> checkpoint_backup \<Rightarrow> (cmap list \<times> int) option" where
  "datedContainers k cp =
     (case completedStatus cp of
        None \<Rightarrow> None
      | Some st \<Rightarrow> (case cpCompletionTime st of
          None \<Rightarrow> None
        | Some str \<Rightarrow> (case kParseTime k str of
            None \<Rightarrow> None
          | Some t \<Rightarrow> (if checkpointContainers st = [] then None
                      else Some (checkpointContainers st, t)))))"

fun latestContainers ::
    "'w kube \<Rightarrow> checkpoint_backup list \<Rightarrow> (cmap list \<times> int) option \<Rightarrow> (cmap list \<times> int) option" where
  "latestContainers k [] latest = latest"
| "latestContainers k (cp # cps) latest =
     (case datedContainers k cp of
        None \<Rightarrow> latestContainers k cps latest
      | Some (cs, t) \<Rightarrow>
          (case latest of
             None \<Rightarrow> latestContainers k cps (Some (cs, t))
           | Some (_, t0) \<Rightarrow> latestContainers k cps (if t0 < t then Some (cs, t) else latest)))"

definition recreateJobFromLatestCheckpoint ::
    "'w kube \<Rightarrow> spot_job \<Rightarrow> string \<Rightarrow> 'w sys \<Rightarrow> (unit \<times> 'w sys) option" where
  "recreateJobFromLatestCheckpoint k sij oldJobName s = do {
     (r, s) \<leftarrow> listCheckpoint k (mNamespace (sjMeta sij)) [(spotInstanceJobLabel, mName (sjMeta sij))] s;
     case r of
       Inl _ \<Rightarrow> Some ((), s)
     | Inr cps \<Rightarrow> (case latestContainers k cps None of
         None \<Rightarrow> Some ((), s)
       | Some latest \<Rightarrow> do {
           (r, s) \<leftarrow> getJob k (mNamespace (sjMeta sij)) oldJobName s;
           case r of
             Inl _ \<Rightarrow> Some ((), s)
           | Inr j \<Rightarrow> do {
               (e, s) \<leftarrow> updateJobWithCheckpoint k sij oldJobName (fst latest) s;
               Some ((), s)
             }
         })
   }"

section \<open>The caller's SpotInstanceJob\<close>

text \<open>The SpotInstanceJob up to the labels of its pod template, which are shared.\<close>

definition sameJob :: "spot_job \<Rightarrow> spot_job \<Rightarrow> bool" where
  "sameJob a b \<longleftrightarrow> sjMeta b = sjMeta a \<and> sjStatus b = sjStatus a
     \<and> (\<exists>l. sjSpec b = (sjSpec a)\<lparr>sjJobTemplate := (sjJobTemplate (sjSpec a))
          \<lparr>jsTemplate := (jsTemplate (sjJobTemplate (sjSpec a)))\<lparr>ptLabels := l\<rparr>\<rparr>\<rparr>)"

lemma sameJob_refl [simp]: "sameJob a a"
  unfolding sameJob_def by (auto intro: exI [of _ "templateLabels a"] simp: templateLabels_def)

lemma sameJob_trans: "sameJob a b \<Longrightarrow> sameJob b c \<Longrightarrow> sameJob a c"
  unfolding sameJob_def by auto

lemma sameJob_fields:
  assumes "sameJob a b"
  shows "sjMeta b = sjMeta a" "sjStatus b = sjStatus a" "desiredReplicas b = desiredReplicas a"
    "sjCheckpointConfig (sjSpec b) = sjCheckpointConfig (sjSpec a)"
    "sjCredentialsRef (sjSpec b) = sjCredentialsRef (sjSpec a)"
  using assms by (auto simp: sameJob_def desiredReplicas_def)

lemma sameJob_podSpec:
  "sameJob a b \<Longrightarrow> ptSpec (jsTemplate (sjJobTemplate (sjSpec b))) = ptSpec (jsTemplate (sjJobTemplate (sjSpec a)))"
  by (auto simp: sameJob_def)

lemma replicaSelector_same: "sameJob a b \<Longrightarrow> replicaSelector b i = replicaSelector a i"
  by (simp add: replicaSelector_def sameJob_fields)

lemma labelTemplate_fst:
  "fst (labelTemplate f sij) = setTemplateLabels
     (f (case templateLabels sij of None \<Rightarrow> Map.empty | Some ls \<Rightarrow> ls)) (sjJobTemplate (sjSpec sij))"
  by (simp add: labelTemplate_def Let_def split: option.splits)

lemma labelTemplate_same: "sameJob sij (snd (labelTemplate f sij))"
proof (cases "templateLabels sij")
  case None
  then show ?thesis by (simp add: labelTemplate_def)
next
  case (Some ls)
  then show ?thesis by (auto simp: labelTemplate_def Let_def sameJob_def setTemplateLabels_def)
qed

lemma labelTemplate_eqD:
  "labelTemplate f sij = (spec, sij') \<Longrightarrow> sameJob sij sij' \<and> spec = fst (labelTemplate f sij)"
  using labelTemplate_same [of sij f] by simp

lemma setTemplateLabels_fields [simp]:
  "ptLabels (jsTemplate (setTemplateLabels ls spec)) = Some ls"
  "ptSpec (jsTemplate (setTemplateLabels ls spec)) = ptSpec (jsTemplate spec)"
  by (simp_all add: setTemplateLabels_def)

section \<open>Placing a replica\<close>

text \<open>A node of a running, joined machine of the replica that is not preempted, as listed.\<close>

definition placement :: "'w kube \<Rightarrow> spot_job \<Rightarrow> int \<Rightarrow> string \<Rightarrow> bool" where
  "placement k sij i node \<longleftrightarrow> (\<exists>w w' pis p.
     kListPI k (mNamespace (sjMeta sij)) (replicaSelector sij i) w = (Inr pis, w')
     \<and> p \<in> set pis \<and> \<not> preempted p \<and> readyPI p \<and> node = piNodeName (piStatus p))"

lemma placementI:
  "kListPI k (mNamespace (sjMeta sij)) (replicaSelector sij i) w = (Inr pis, w') \<Longrightarrow>
   selectReadyPI pis = Some p \<Longrightarrow> placement k sij i (piNodeName (piStatus p))"
  using ready.select_sound [of pis p] unfolding placement_def by blast

lemma placement_same: "sameJob a b \<Longrightarrow> placement k b i node \<longleftrightarrow> placement k a i node"
  by (simp add: placement_def replicaSelector_same sameJob_fields)

lemma setNodeName_fields [simp]:
  "jMeta (setNodeName nd j) = jMeta j"
  "psNodeName (ptSpec (jsTemplate (jSpec (setNodeName nd j)))) = nd"
  "psContainers (ptSpec (jsTemplate (jSpec (setNodeName nd j)))) = psContainers (ptSpec (jsTemplate (jSpec j)))"
  "ptLabels (jsTemplate (jSpec (setNodeName nd j))) = ptLabels (jsTemplate (jSpec j))"
  "ptAnnotations (jsTemplate (jSpec (setNodeName nd j))) = ptAnnotations (jsTemplate (jSpec j))"
  by (simp_all add: setNodeName_def)

lemma yields_assignNode:
  "yields (assignNode k sij i j) (\<lambda>r es. es = [] \<and>
     (r = j \<or> (\<exists>nd. placement k sij i nd \<and> r = setNodeName nd j)))"
  unfolding assignNode_def [abs_def]
  by (intro yields_bind [OF yields_kread_val] yields_sum yields_option yields_ret)
    (auto intro: placementI)

lemma returns_assignNode [returns_intro]: "returns (assignNode k sij i j)"
  unfolding assignNode_def [abs_def] by (intro returns_intro)

section \<open>Creating a replica\<close>

text \<open>The job of a replica: its metadata but for the owner, its labels, its placement.\<close>

definition replicaOf :: "'w kube \<Rightarrow> spot_job \<Rightarrow> string \<Rightarrow> int \<Rightarrow> job \<Rightarrow> bool" where
  "replicaOf k sij jobName i j \<longleftrightarrow>
     kSetCtrlRef k (sjMeta sij) (noMeta\<lparr>mName := jobName, mNamespace := mNamespace (sjMeta sij),
        mLabels := withReplicaLabels sij i Map.empty\<rparr>) = Inr (jMeta j)
     \<and> (\<exists>ls. ptLabels (jsTemplate (jSpec j)) = Some (withReplicaLabels sij i ls))
     \<and> psContainers (ptSpec (jsTemplate (jSpec j)))
         = psContainers (ptSpec (jsTemplate (sjJobTemplate (sjSpec sij))))
     \<and> (psNodeName (ptSpec (jsTemplate (jSpec j)))
          = psNodeName (ptSpec (jsTemplate (sjJobTemplate (sjSpec sij))))
        \<or> placement k sij i (psNodeName (ptSpec (jsTemplate (jSpec j)))))"

lemma withReplicaLabels_same: "sameJob a b \<Longrightarrow> withReplicaLabels b i ls = withReplicaLabels a i ls"
  by (simp add: withReplicaLabels_def sameJob_fields)

lemma replicaOf_same: "sameJob a b \<Longrightarrow> replicaOf k b nm i j \<longleftrightarrow> replicaOf k a nm i j"
  by (simp add: replicaOf_def sameJob_fields sameJob_podSpec placement_same withReplicaLabels_same)

definition createsReplica ::
    "'w kube \<Rightarrow> spot_job \<Rightarrow> string \<Rightarrow> int \<Rightarrow> err \<times> spot_job \<Rightarrow> action list \<Rightarrow> bool" where
  "createsReplica k sij jobName i r es \<longleftrightarrow> sameJob sij (snd r) \<and>
     (es = [] \<and> fst r \<noteq> None \<or> (\<exists>j. es = [ACreateJob j (fst r)] \<and> replicaOf k sij jobName i j))"

lemma replicaOfI:
  assumes "labelTemplate (withReplicaLabels sij i) sij = (spec, sij')"
    and "j = replicaJob sij' jobName i spec
       \<or> (\<exists>nd. placement k sij' i nd \<and> j = setNodeName nd (replicaJob sij' jobName i spec))"
    and "kSetCtrlRef k (sjMeta sij') (jMeta j) = Inr m"
  shows "replicaOf k sij jobName i (j\<lparr>jMeta := m\<rparr>)"
proof -
  from labelTemplate_eqD [OF assms(1)] have s: "sameJob sij sij'"
    and spec: "spec = fst (labelTemplate (withReplicaLabels sij i) sij)" by auto
  let ?m = "noMeta\<lparr>mName := jobName, mNamespace := mNamespace (sjMeta sij),
        mLabels := withReplicaLabels sij i Map.empty\<rparr>"
  from s have r: "jMeta (replicaJob sij' jobName i spec) = ?m"
    by (simp add: replicaJob_def sameJob_fields withReplicaLabels_same)
  with assms(2) have "jMeta j = ?m" by auto
  with assms(3) s have m: "kSetCtrlRef k (sjMeta sij) ?m = Inr m" by (simp add: sameJob_fields)
  from assms(2) show ?thesis
    using m s by (auto simp: replicaOf_def replicaJob_def spec labelTemplate_fst placement_same)
qed

lemma yields_createJobReplica:
  "yields (createJobReplica k sij jobName i) (createsReplica k sij jobName i)"
  unfolding createJobReplica_def [abs_def] Let_def
  by (intro yields_bind [OF yields_assignNode] yields_bind [OF yields_kcall] yields_prod yields_sum
      yields_ret)
    (auto simp: createsReplica_def dest: labelTemplate_eqD intro: replicaOfI)

lemma returns_createJobReplica [returns_intro]: "returns (createJobReplica k sij jobName i)"
  unfolding createJobReplica_def [abs_def] Let_def by (intro returns_intro)

section \<open>Images\<close>

lemma updateImages_names [simp]: "map cName (updateImages imgs cs) = map cName cs"
  by (induction cs) (auto simp: updateImages_def split: option.splits)

lemma updateImages_length [simp]: "length (updateImages imgs cs) = length cs"
  by (simp add: updateImages_def)

lemma updateImages_none [simp]: "updateImages Map.empty cs = cs"
  by (simp add: updateImages_def)

lemma updateImages_image:
  "n < length cs \<Longrightarrow> cImage (updateImages imgs cs ! n)
     = (case imgs (cName (cs ! n)) of None \<Rightarrow> cImage (cs ! n) | Some img \<Rightarrow> img)"
  by (simp add: updateImages_def split: option.splits)

lemma updateImages_other:
  "n < length cs \<Longrightarrow> cOther (updateImages imgs cs ! n) = cOther (cs ! n)"
  by (simp add: updateImages_def split: option.splits)

text \<open>The entries that are read from a status that reports these containers.\<close>

definition reported :: "(string \<times> string) list \<Rightarrow> cmap list" where
  "reported cs = map (\<lambda>(nm, img). [(''name'', IString nm), (''image'', IString img)]) cs"

text \<open>
  A status that reports these containers: in its containers, or, when it has none, as built
  images.
\<close>

definition reports :: "ckpt_status \<Rightarrow> (string \<times> string) list \<Rightarrow> bool" where
  "reports st cs \<longleftrightarrow>
     cpContainers st = Some (map (\<lambda>(nm, img). IMap [(''name'', IString nm), (''image'', IString img)]) cs)
     \<or> (cpContainers st = None \<or> cpContainers st = Some [])
       \<and> cpBuiltImages st = Some (map (\<lambda>(nm, img).
           IMap [(''containerName'', IString nm), (''imageName'', IString img)]) cs)"

lemma checkpointContainers_reported:
  assumes "reports st cs" "cs \<noteq> []"
  shows "checkpointContainers st = reported cs"
  using assms
  by (cases cs) (auto simp: reports_def checkpointContainers_def reported_def asMap_def fromBuiltImage_def
    stringOrEmpty_def stringAt_def)

lemma imageMap_reported:
  "imageMap pre (reported (map (\<lambda>c. (cName c, f (cName c))) cs)) acc nm
     = (if nm \<in> cName ` set cs then Some (pre @ f nm) else acc nm)"
  by (induction cs arbitrary: acc) (auto simp: reported_def stringAt_def)

section \<open>Restoring a job\<close>

text \<open>A job the API server answered for a name.\<close>

definition fetched :: "'w kube \<Rightarrow> spot_job \<Rightarrow> string \<Rightarrow> job \<Rightarrow> bool" where
  "fetched k sij nm j \<longleftrightarrow> (\<exists>w w'. kGetJob k (mNamespace (sjMeta sij)) nm w = (Inr j, w'))"

lemma fetchedI: "kGetJob k (mNamespace (sjMeta sij)) nm w = (Inr j, w') \<Longrightarrow> fetched k sij nm j"
  by (auto simp: fetched_def)

text \<open>
  The job that replaces j: the restored job under the same name with an owner reference,
  on a ready machine of its replica; without a node only when the machines could not be
  listed.
\<close>

definition replacementOf :: "'w kube \<Rightarrow> spot_job \<Rightarrow> string \<Rightarrow> cmap list \<Rightarrow> job \<Rightarrow> job \<Rightarrow> bool" where
  "replacementOf k sij nm cs j j' \<longleftrightarrow> (let i = replicaIndexOf 0 (mLabels (jMeta j)) in
     (\<exists>m. kSetCtrlRef k (sjMeta sij) (jMeta (restoredJob sij nm i (checkpointImages sij cs) j)) = Inr m
        \<and> (j' = (restoredJob sij nm i (checkpointImages sij cs) j)\<lparr>jMeta := m\<rparr>
             \<and> (\<exists>w e w'. kListPI k (mNamespace (sjMeta sij)) (replicaSelector sij i) w = (Inl e, w'))
           \<or> (\<exists>nd. placement k sij i nd
                \<and> j' = (setNodeName nd (restoredJob sij nm i (checkpointImages sij cs) j))\<lparr>jMeta := m\<rparr>))))"

lemma yields_placeRestored:
  "yields (placeRestored k sij i j) (\<lambda>r es. es = [] \<and> (\<forall>j'. r = Inr j' \<longrightarrow>
     j' = j \<and> (\<exists>w e w'. kListPI k (mNamespace (sjMeta sij)) (replicaSelector sij i) w = (Inl e, w'))
     \<or> (\<exists>nd. placement k sij i nd \<and> j' = setNodeName nd j)))"
  unfolding placeRestored_def [abs_def]
  by (intro yields_bind [OF yields_kread_val] yields_sum yields_list yields_option yields_ret)
    (auto simp del: selectReadyPI.simps intro: placementI)

lemma yields_createRestored:
  "yields (createRestored k sij j) (\<lambda>r es.
     (es = [] \<and> r \<noteq> None) \<or>
     (\<exists>m e. es = [ACreateJob (j\<lparr>jMeta := m\<rparr>) e] \<and> kSetCtrlRef k (sjMeta sij) (jMeta j) = Inr m
        \<and> (r = None \<longleftrightarrow> (case e of None \<Rightarrow> True | Some x \<Rightarrow> isAlreadyExists x))))"
  unfolding createRestored_def [abs_def]
  by (intro yields_sum yields_ret yields_bind [OF yields_kcall] yields_option yields_if
      yields_bind [OF yields_kread]) auto

definition replaces ::
    "'w kube \<Rightarrow> spot_job \<Rightarrow> string \<Rightarrow> cmap list \<Rightarrow> job \<Rightarrow> err \<Rightarrow> action list \<Rightarrow> bool" where
  "replaces k sij nm cs j r es \<longleftrightarrow>
     (\<exists>x. es = [ADeleteJob j True (Some x)] \<and> r \<noteq> None)
     \<or> (es = [ADeleteJob j True None, ASleep (seconds 2)] \<and> r \<noteq> None)
     \<or> (\<exists>j' e. es = [ADeleteJob j True None, ASleep (seconds 2), ACreateJob j' e]
          \<and> replacementOf k sij nm cs j j'
          \<and> (r = None \<longleftrightarrow> (case e of None \<Rightarrow> True | Some x \<Rightarrow> isAlreadyExists x)))"

lemma yields_replaceJob:
  "yields (replaceJob k sij nm (checkpointImages sij cs) j) (replaces k sij nm cs j)"
  unfolding replaceJob_def [abs_def] Let_def
  by (intro yields_bind [OF yields_kcall] yields_option yields_ret
      yields_bind [OF yields_placeRestored] yields_sum yields_mono [OF yields_createRestored])
    (auto simp: replaces_def replacementOf_def Let_def)

text \<open>
  Nothing is done only when the job cannot be read or was restored before; what the lookup
  answered is then the result.
\<close>

definition untouched :: "'w kube \<Rightarrow> spot_job \<Rightarrow> string \<Rightarrow> err \<Rightarrow> bool" where
  "untouched k sij nm r \<longleftrightarrow> (\<exists>x w w'. kGetJob k (mNamespace (sjMeta sij)) nm w = (x, w')
     \<and> (case x of Inl e \<Rightarrow> r = (if isNotFound e then None else Some e)
        | Inr j \<Rightarrow> hasCheckpointUpdated (jMeta j) \<and> r = None))"

lemma untouchedI:
  assumes "kGetJob k (mNamespace (sjMeta sij)) nm w = (x, w')"
    and "case x of Inl e \<Rightarrow> r = (if isNotFound e then None else Some e)
       | Inr j \<Rightarrow> hasCheckpointUpdated (jMeta j) \<and> r = None"
  shows "untouched k sij nm r"
  using assms unfolding untouched_def by blast

definition restores ::
    "'w kube \<Rightarrow> spot_job \<Rightarrow> string \<Rightarrow> cmap list \<Rightarrow> err \<Rightarrow> action list \<Rightarrow> bool" where
  "restores k sij nm cs r es \<longleftrightarrow> es = [] \<and> untouched k sij nm r \<or>
     (\<exists>j. fetched k sij nm j \<and> \<not> hasCheckpointUpdated (jMeta j) \<and> replaces k sij nm cs j r es)"

lemma yields_updateJobWithCheckpoint:
  "yields (updateJobWithCheckpoint k sij nm cs) (restores k sij nm cs)"
  unfolding updateJobWithCheckpoint_def [abs_def]
  by (intro yields_bind [OF yields_kread_val] yields_sum yields_if yields_ret
      yields_mono [OF yields_replaceJob])
    (simp_all add: restores_def, (fastforce intro: untouchedI fetchedI)+)

lemma returns_updateJobWithCheckpoint [returns_intro]:
  "returns (updateJobWithCheckpoint k sij nm cs)"
  unfolding updateJobWithCheckpoint_def [abs_def] replaceJob_def [abs_def] placeRestored_def [abs_def]
    createRestored_def [abs_def] Let_def
  by (intro returns_intro)

section \<open>Applying completed checkpoints\<close>

text \<open>
  The actions of a pass that restores jobs of the given names: deleting a job fetched under
  one of the names and not restored yet, waiting, and creating its replacement.
\<close>

definition restoreAction :: "'w kube \<Rightarrow> spot_job \<Rightarrow> (string \<Rightarrow> bool) \<Rightarrow> action \<Rightarrow> bool" where
  "restoreAction k sij ok a \<longleftrightarrow>
     (case a of
        ADeleteJob j bg _ \<Rightarrow> bg \<and> (\<exists>nm. ok nm \<and> fetched k sij nm j \<and> \<not> hasCheckpointUpdated (jMeta j))
      | ASleep d \<Rightarrow> d = seconds 2
      | ACreateJob j' _ \<Rightarrow> (\<exists>nm cs j. ok nm \<and> fetched k sij nm j \<and> replacementOf k sij nm cs j j')
      | _ \<Rightarrow> False)"

lemma restoreAction_mono: "restoreAction k sij P a \<Longrightarrow> (\<And>nm. P nm \<Longrightarrow> Q nm) \<Longrightarrow> restoreAction k sij Q a"
  by (auto simp: restoreAction_def split: action.splits)

lemma restores_actions: "restores k sij nm cs r es \<Longrightarrow> ok nm \<Longrightarrow> list_all (restoreAction k sij ok) es"
  unfolding restores_def replaces_def restoreAction_def by (auto; blast)

lemma emits_updateJobWithCheckpoint:
  "ok nm \<Longrightarrow> emits (restoreAction k sij ok) (updateJobWithCheckpoint k sij nm cs)"
  unfolding emits_def by (rule yields_mono [OF yields_updateJobWithCheckpoint]) (rule restores_actions)

definition mayRestore :: "string list \<Rightarrow> string \<Rightarrow> string \<Rightarrow> bool" where
  "mayRestore names source nm \<longleftrightarrow> nm \<in> set names \<and> (source = [] \<or> nm \<noteq> source)"

lemma emits_processJob:
  assumes "source = [] \<or> jobName \<noteq> source \<Longrightarrow> ok jobName"
  shows "emits (restoreAction k sij ok) (processJob k sij source cs jobName processed)"
  unfolding processJob_def [abs_def]
  by (intro yields_intro yields_op emits_updateJobWithCheckpoint) (use assms in auto)

lemma emits_processJobs:
  "(\<And>nm. nm \<in> set js \<Longrightarrow> source = [] \<or> nm \<noteq> source \<Longrightarrow> ok nm) \<Longrightarrow>
   emits (restoreAction k sij ok) (processJobs k sij source cs js processed)"
proof (induction js arbitrary: processed)
  case Nil
  show ?case unfolding processJobs.simps(1) [abs_def] by (intro yields_intro)
next
  case (Cons j js)
  show ?case unfolding processJobs.simps(2) [abs_def]
    by (intro emits_bind emits_prod emits_processJob Cons.IH) (simp_all add: Cons.prems)
qed

lemma emits_processCheckpoints:
  "emits (restoreAction k sij (\<lambda>nm. nm \<in> set jobs)) (processCheckpoints k sij jobs cps processed)"
proof (induction cps arbitrary: processed)
  case Nil
  show ?case unfolding processCheckpoints.simps(1) [abs_def] by (intro yields_intro)
next
  case (Cons cp cps)
  show ?case unfolding processCheckpoints.simps(2) [abs_def]
    by (intro yields_intro yields_op emits_processJobs Cons.IH) simp_all
qed

lemma emits_processCompletedCheckpoints [yields_op]:
  "emits (restoreAction k sij (\<lambda>nm. nm \<in> set jobs)) (processCompletedCheckpoints k sij jobs)"
  unfolding processCompletedCheckpoints_def [abs_def]
  by (intro yields_intro yields_op emits_processCheckpoints)

text \<open>The jobs created with success, by name, and the bookkeeping that keeps them apart.\<close>

fun createdJobNames :: "action list \<Rightarrow> string list" where
  "createdJobNames [] = []"
| "createdJobNames (ACreateJob j None # es) = mName (jMeta j) # createdJobNames es"
| "createdJobNames (_ # es) = createdJobNames es"

lemma createdJobNames_append [simp]:
  "createdJobNames (xs @ ys) = createdJobNames xs @ createdJobNames ys"
  by (induction xs rule: createdJobNames.induct) simp_all

definition once :: "string set \<Rightarrow> string set \<Rightarrow> action list \<Rightarrow> bool" where
  "once before after es \<longleftrightarrow> before \<subseteq> after \<and> distinct (createdJobNames es)
     \<and> set (createdJobNames es) \<subseteq> after - before"

lemma once_Nil [simp]: "once a a []"
  by (simp add: once_def)

lemma once_append: "once a b xs \<Longrightarrow> once b c ys \<Longrightarrow> once a c (xs @ ys)"
  by (auto simp: once_def)

text \<open>An owner reference changes the list of owners and nothing else.\<close>

definition owners_only :: "'w kube \<Rightarrow> bool" where
  "owners_only k \<longleftrightarrow> (\<forall>owner m m'. kSetCtrlRef k owner m = Inr m' \<longrightarrow> (\<exists>os. m' = m\<lparr>mOwners := os\<rparr>))"

lemma owners_onlyD:
  assumes "owners_only k" "kSetCtrlRef k owner m = Inr m'"
  shows "mName m' = mName m" "mNamespace m' = mNamespace m" "mLabels m' = mLabels m"
    "mAnnotations m' = mAnnotations m"
  using assms unfolding owners_only_def by fastforce+

lemma owners_only_refKube [simp]: "owners_only refKube"
  by (auto simp: owners_only_def)

lemma replacementOf_meta:
  assumes "owners_only k" "replacementOf k sij nm cs j j'"
  shows "mName (jMeta j') = nm" "mNamespace (jMeta j') = mNamespace (sjMeta sij)"
    "hasCheckpointUpdated (jMeta j')"
    "mLabels (jMeta j') = withReplicaLabels sij (replicaIndexOf 0 (mLabels (jMeta j))) Map.empty"
proof -
  let ?r = "restoredJob sij nm (replicaIndexOf 0 (mLabels (jMeta j))) (checkpointImages sij cs) j"
  from assms(2) obtain m where "kSetCtrlRef k (sjMeta sij) (jMeta ?r) = Inr m" "jMeta j' = m"
    unfolding replacementOf_def Let_def by auto
  with owners_onlyD [OF assms(1)] show "mName (jMeta j') = nm"
    "mNamespace (jMeta j') = mNamespace (sjMeta sij)"
    "hasCheckpointUpdated (jMeta j')"
    "mLabels (jMeta j') = withReplicaLabels sij (replicaIndexOf 0 (mLabels (jMeta j))) Map.empty"
    by (auto simp: restoredJob_def hasCheckpointUpdated_def)
qed

lemma created_within:
  assumes "owners_only k" "list_all (restoreAction k sij ok) es"
  shows "set (createdJobNames es) \<subseteq> {nm. ok nm}"
  using assms(2)
proof (induction es rule: createdJobNames.induct)
  case (2 j es)
  then show ?case using replacementOf_meta(1) [OF assms(1)]
    by (auto simp: restoreAction_def)
qed simp_all

lemma restores_names:
  assumes "owners_only k" "restores k sij nm cs r es"
  shows "createdJobNames es = [] \<or> createdJobNames es = [nm] \<and> r = None"
proof -
  from assms(2) consider "es = []" | j where "fetched k sij nm j" "replaces k sij nm cs j r es"
    unfolding restores_def by blast
  then show ?thesis
  proof cases
    case 2
    from 2(2) consider x where "es = [ADeleteJob j True (Some x)]"
      | "es = [ADeleteJob j True None, ASleep (seconds 2)]"
      | j' e where "es = [ADeleteJob j True None, ASleep (seconds 2), ACreateJob j' e]"
          "replacementOf k sij nm cs j j'"
          "r = None \<longleftrightarrow> (case e of None \<Rightarrow> True | Some x \<Rightarrow> isAlreadyExists x)"
      unfolding replaces_def by blast
    then show ?thesis
    proof cases
      case (3 j' e)
      with replacementOf_meta(1) [OF assms(1) 3(2)] show ?thesis by (cases e) simp_all
    qed simp_all
  qed simp
qed

lemma yields_processJob:
  assumes "owners_only k"
  shows "yields (processJob k sij source cs nm processed) (once processed)"
  unfolding processJob_def [abs_def]
  by (intro yields_if yields_ret yields_bind [OF yields_kread] yields_sum
      yields_bind [OF yields_updateJobWithCheckpoint])
    (use restores_names [OF assms] in \<open>fastforce simp: once_def\<close>)+

lemma yields_processJobs:
  assumes "owners_only k"
  shows "yields (processJobs k sij source cs js processed) (once processed)"
proof (induction js arbitrary: processed)
  case Nil
  show ?case unfolding processJobs.simps(1) [abs_def] by (rule yields_ret) simp
next
  case (Cons j js)
  show ?case unfolding processJobs.simps(2) [abs_def]
    by (intro yields_bind [OF yields_processJob [OF assms]] yields_mono [OF Cons.IH])
      (rule once_append)
qed

lemma yields_processCheckpoints:
  assumes "owners_only k"
  shows "yields (processCheckpoints k sij jobs cps processed) (\<lambda>_ es. \<exists>after. once processed after es)"
proof (induction cps arbitrary: processed)
  case Nil
  show ?case unfolding processCheckpoints.simps(1) [abs_def]
    by (rule yields_ret) (rule exI [of _ processed], simp)
next
  case (Cons cp cps)
  show ?case unfolding processCheckpoints.simps(2) [abs_def]
    by (intro yields_option yields_if yields_bind [OF yields_kread]
        yields_bind [OF yields_processJobs [OF assms]] yields_mono [OF Cons.IH])
      (auto intro: once_append)
qed

lemma returns_processJob [returns_intro]: "returns (processJob k sij source cs nm processed)"
  unfolding processJob_def [abs_def] by (intro returns_intro)

lemma returns_processJobs [returns_intro]: "returns (processJobs k sij source cs js processed)"
proof (induction js arbitrary: processed)
  case Nil
  show ?case unfolding processJobs.simps(1) [abs_def] by (intro returns_intro)
next
  case (Cons j js)
  show ?case unfolding processJobs.simps(2) [abs_def] by (intro returns_intro Cons)
qed

lemma returns_processCheckpoints [returns_intro]: "returns (processCheckpoints k sij jobs cps processed)"
proof (induction cps arbitrary: processed)
  case Nil
  show ?case unfolding processCheckpoints.simps(1) [abs_def] by (intro returns_intro)
next
  case (Cons cp cps)
  show ?case unfolding processCheckpoints.simps(2) [abs_def] by (intro returns_intro Cons)
qed

lemma returns_processCompletedCheckpoints [returns_intro]:
  "returns (processCompletedCheckpoints k sij jobs)"
  unfolding processCompletedCheckpoints_def [abs_def] by (intro returns_intro)

interpretation process: total_contract "processCompletedCheckpoints k sij jobs"
    "restoreAction k sij (\<lambda>nm. nm \<in> set jobs)" for k sij jobs
  by unfold_locales (rule emits_processCompletedCheckpoints, rule returns_processCompletedCheckpoints)

lemma emits_recreateJobFromLatestCheckpoint [yields_op]:
  "emits (restoreAction k sij (\<lambda>x. x = nm)) (recreateJobFromLatestCheckpoint k sij nm)"
  unfolding recreateJobFromLatestCheckpoint_def [abs_def]
  by (intro yields_intro yields_op emits_updateJobWithCheckpoint) simp

lemma returns_recreateJobFromLatestCheckpoint [returns_intro]:
  "returns (recreateJobFromLatestCheckpoint k sij nm)"
  unfolding recreateJobFromLatestCheckpoint_def [abs_def] by (intro returns_intro)

interpretation restoreLatest: total_contract "recreateJobFromLatestCheckpoint k sij nm"
    "restoreAction k sij (\<lambda>x. x = nm)" for k sij nm
  by unfold_locales
    (rule emits_recreateJobFromLatestCheckpoint, rule returns_recreateJobFromLatestCheckpoint)

section \<open>The latest checkpoint\<close>

lemma latestContainers_sound:
  "latestContainers k cps latest = Some x \<Longrightarrow>
     (latest = Some x \<or> (\<exists>cp \<in> set cps. datedContainers k cp = Some x))
     \<and> (\<forall>cp y. cp \<in> set cps \<and> datedContainers k cp = Some y \<longrightarrow> snd y \<le> snd x)
     \<and> (\<forall>y. latest = Some y \<longrightarrow> snd y \<le> snd x)"
proof (induction k cps latest rule: latestContainers.induct)
  case (1 k latest)
  then show ?case by simp
next
  case (2 k cp cps latest)
  show ?case
  proof (cases "datedContainers k cp")
    case None
    with 2 show ?thesis by auto
  next
    case (Some y)
    obtain cs t where y: "y = (cs, t)" by (cases y)
    show ?thesis
    proof (cases latest)
      case None
      with 2(2)[OF Some y [symmetric] None] 2(4) Some y show ?thesis by auto
    next
      case l: (Some z)
      obtain cs0 t0 where z: "z = (cs0, t0)" by (cases z)
      from 2(3)[OF Some y [symmetric] l z [symmetric]] 2(4) Some y l z show ?thesis
        by (auto split: if_splits)
    qed
  qed
qed

lemma latestContainers_None:
  "latestContainers k cps latest = None \<longleftrightarrow> latest = None \<and> (\<forall>cp \<in> set cps. datedContainers k cp = None)"
  by (induction k cps latest rule: latestContainers.induct)
    (auto split: option.splits prod.splits)

section \<open>Properties\<close>

text \<open>
  C23. Creating a replica makes at most one create call, and returns its
  error. The job carries the given name, the labels of the SpotInstanceJob and the replica
  index on itself and on its pods, and the template's containers; its pods stay where the
  template puts them or go to the node of an instance of the same replica that is running,
  has joined and is not preempted. The caller's SpotInstanceJob changes in its pod template
  labels at most.
\<close>

theorem replica_job_exact:
  assumes law: "owners_only k"
    and run: "createJobReplica k sij nm i s = Some ((e, sij'), s')"
  shows "sameJob sij sij' \<and> (trace s' = trace s \<and> e \<noteq> None \<or>
    (\<exists>j ls. trace s' = trace s @ [ACreateJob j e]
       \<and> mName (jMeta j) = nm \<and> mNamespace (jMeta j) = mNamespace (sjMeta sij)
       \<and> mLabels (jMeta j) = [spotInstanceJobLabel \<mapsto> mName (sjMeta sij), jobReplicaLabel \<mapsto> showInt i]
       \<and> ptLabels (jsTemplate (jSpec j)) = Some ls
       \<and> ls spotInstanceJobLabel = Some (mName (sjMeta sij)) \<and> ls jobReplicaLabel = Some (showInt i)
       \<and> psContainers (ptSpec (jsTemplate (jSpec j)))
           = psContainers (ptSpec (jsTemplate (sjJobTemplate (sjSpec sij))))
       \<and> (psNodeName (ptSpec (jsTemplate (jSpec j)))
            = psNodeName (ptSpec (jsTemplate (sjJobTemplate (sjSpec sij))))
          \<or> placement k sij i (psNodeName (ptSpec (jsTemplate (jSpec j)))))))"
proof -
  from yieldsE [OF yields_createJobReplica run] obtain es
    where es: "trace s' = trace s @ es" "createsReplica k sij nm i (e, sij') es" .
  show ?thesis
  proof (cases "es = []")
    case True
    with es show ?thesis by (auto simp: createsReplica_def)
  next
    case False
    with es obtain j where 1: "es = [ACreateJob j e]" and j: "replicaOf k sij nm i j"
      and s: "sameJob sij sij'" by (auto simp: createsReplica_def)
    from j obtain ls where ls: "ptLabels (jsTemplate (jSpec j)) = Some (withReplicaLabels sij i ls)"
      by (auto simp: replicaOf_def)
    from j owners_onlyD [OF law] have "mName (jMeta j) = nm" "mNamespace (jMeta j) = mNamespace (sjMeta sij)"
      "mLabels (jMeta j) = withReplicaLabels sij i Map.empty"
      unfolding replicaOf_def by fastforce+
    with j ls s 1 es(1) show ?thesis
      by (intro conjI [OF s] disjI2 [OF exI [of _ j]] exI [of _ "withReplicaLabels sij i ls"])
        (auto simp: withReplicaLabels_def replicaOf_def)
  qed
qed

theorem replica_job_exact_witness:
  "\<exists>r s'. createJobReplica refKube exSIJ ''train-replica-0-5'' 0 \<lparr>world = exCluster, trace = []\<rparr> = Some (r, s')
     \<and> sameJob exSIJ (snd r)"
proof -
  obtain e sij' s' where run: "createJobReplica refKube exSIJ ''train-replica-0-5'' 0
      \<lparr>world = exCluster, trace = []\<rparr> = Some ((e, sij'), s')"
    using returns_createJobReplica unfolding returns_def by fastforce
  from replica_job_exact [OF owners_only_refKube run] run show ?thesis by auto
qed

lemma restored_created:
  assumes law: "owners_only k"
    and run: "updateJobWithCheckpoint k sij nm cs s = Some (r, s')"
    and tr: "trace s' = trace s @ es" "ACreateJob j' e \<in> set es"
  shows "\<exists>j. es = [ADeleteJob j True None, ASleep (seconds 2), ACreateJob j' e]
    \<and> fetched k sij nm j \<and> \<not> hasCheckpointUpdated (jMeta j) \<and> replacementOf k sij nm cs j j'
    \<and> psContainers (ptSpec (jsTemplate (jSpec j')))
        = updateImages (checkpointImages sij cs) (psContainers (ptSpec (jsTemplate (jSpec j))))"
proof -
  from yieldsE [OF yields_updateJobWithCheckpoint run] tr(1) have 1: "restores k sij nm cs r es" by auto
  with tr(2) obtain j where f: "fetched k sij nm j" "\<not> hasCheckpointUpdated (jMeta j)"
    and rep: "replaces k sij nm cs j r es" unfolding restores_def by auto
  from rep tr(2) have es: "es = [ADeleteJob j True None, ASleep (seconds 2), ACreateJob j' e]"
    and new: "replacementOf k sij nm cs j j'" unfolding replaces_def by auto
  have "psContainers (ptSpec (jsTemplate (jSpec j')))
      = updateImages (checkpointImages sij cs) (psContainers (ptSpec (jsTemplate (jSpec j))))"
    using new by (auto simp: replacementOf_def Let_def restoredJob_def restoredSpec_def restoredPodSpec_def)
  with f es new show ?thesis by blast
qed

text \<open>
  C8. Restoring a job creates a job only after deleting the old one with
  its pods, which was read under that name and not restored before, and waiting two seconds;
  the new one has the same name, the checkpoint-updated annotation, the same containers with
  exactly the images of the checkpoint replaced, and runs on a ready machine of its replica,
  unless the machines could not be listed.
\<close>

theorem restore_replaces_job:
  assumes law: "owners_only k"
    and run: "updateJobWithCheckpoint k sij nm cs s = Some (r, s')"
    and tr: "trace s' = trace s @ es" "ACreateJob j' e \<in> set es"
  shows "\<exists>j. es = [ADeleteJob j True None, ASleep (seconds 2), ACreateJob j' e]
    \<and> fetched k sij nm j \<and> \<not> hasCheckpointUpdated (jMeta j)
    \<and> mName (jMeta j') = nm \<and> hasCheckpointUpdated (jMeta j')
    \<and> psContainers (ptSpec (jsTemplate (jSpec j')))
        = updateImages (checkpointImages sij cs) (psContainers (ptSpec (jsTemplate (jSpec j))))
    \<and> (psNodeName (ptSpec (jsTemplate (jSpec j'))) = []
         \<and> (\<exists>w x w'. kListPI k (mNamespace (sjMeta sij))
              (replicaSelector sij (replicaIndexOf 0 (mLabels (jMeta j)))) w = (Inl x, w'))
       \<or> placement k sij (replicaIndexOf 0 (mLabels (jMeta j))) (psNodeName (ptSpec (jsTemplate (jSpec j')))))"
proof -
  from restored_created [OF assms] obtain j where
    es: "es = [ADeleteJob j True None, ASleep (seconds 2), ACreateJob j' e]"
    and f: "fetched k sij nm j" "\<not> hasCheckpointUpdated (jMeta j)" and new: "replacementOf k sij nm cs j j'"
    and im: "psContainers (ptSpec (jsTemplate (jSpec j')))
      = updateImages (checkpointImages sij cs) (psContainers (ptSpec (jsTemplate (jSpec j))))" by blast
  have "psNodeName (ptSpec (jsTemplate (jSpec j'))) = []
         \<and> (\<exists>w x w'. kListPI k (mNamespace (sjMeta sij))
              (replicaSelector sij (replicaIndexOf 0 (mLabels (jMeta j)))) w = (Inl x, w'))
       \<or> placement k sij (replicaIndexOf 0 (mLabels (jMeta j))) (psNodeName (ptSpec (jsTemplate (jSpec j'))))"
    using new by (auto simp: replacementOf_def Let_def restoredJob_def restoredSpec_def restoredPodSpec_def)
  with f es im replacementOf_meta [OF law new] show ?thesis by blast
qed

definition exReadyPI :: prov_instance where
  "exReadyPI = (exPI ''vm'' (noPIStatus\<lparr>piState := ''RUNNING'', piJoinedCluster := True, piNodeName := ''n2''\<rparr>))
     \<lparr>piMeta := (exMeta ''vm'')\<lparr>mLabels := [spotInstanceJobLabel \<mapsto> ''train'', jobReplicaLabel \<mapsto> ''0'']\<rparr>\<rparr>"

definition exJob :: job where
  "exJob = \<lparr>jMeta = (exMeta ''j'')\<lparr>mLabels := [spotInstanceJobLabel \<mapsto> ''train'', jobReplicaLabel \<mapsto> ''0'']\<rparr>,
     jSpec = sjJobTemplate exSpec, jActive = 1, jSucceeded = 0\<rparr>"

lemma replicaIndexOf_exJob [simp]: "replicaIndexOf 0 (mLabels (jMeta exJob)) = 0"
  by (simp add: replicaIndexOf_def exJob_def parseInt32_def parseUint_def digitVal_def)

lemma showInt_0 [simp]: "showInt 0 = ''0''"
  by code_simp

definition restoreCluster :: cluster where
  "restoreCluster = exCluster\<lparr>clPIs := [exReadyPI], clJobs := [exJob]\<rparr>"

theorem restore_replaces_job_witness:
  "\<exists>j' :: job. mName (jMeta j') = ''j'' \<and> hasCheckpointUpdated (jMeta j')"
proof -
  have "\<exists>r s' j' e. updateJobWithCheckpoint refKube exSIJ ''j'' [] \<lparr>world = restoreCluster, trace = []\<rparr> = Some (r, s')
     \<and> ACreateJob j' e \<in> set (trace s')"
    by (auto simp: updateJobWithCheckpoint_def replaceJob_def placeRestored_def createRestored_def
        hasCheckpointUpdated_def restoreCluster_def exReadyPI_def exJob_def replicaSelector_def
        preempted_def readyPI_def replicaIndexOf_def parseInt32_def parseUint_def digitVal_def
        checkpoint_examples cluster_eval example_defs
        split: prod.splits)
  then obtain r s' j' e where run: "updateJobWithCheckpoint refKube exSIJ ''j'' []
      \<lparr>world = restoreCluster, trace = []\<rparr> = Some (r, s')" and a: "ACreateJob j' e \<in> set (trace s')" by blast
  from restore_replaces_job [OF owners_only_refKube run _ a] show ?thesis by auto
qed

text \<open>
  C26. The images a checkpoint asks for are the images a restored job
  runs. A CheckpointBackup is made for a pod, and its status reports its own containers, in
  either of the two formats that are read. When a job is restored with them, each of its
  containers that the pod has runs the image under the registry, repository, container name
  and time it was pushed to; every other container, and everything else of each container, is
  that of the job that was deleted.
\<close>

theorem pushed_image_restored:
  assumes law: "owners_only k"
    and st: "reports st (ckContainers (cpSpec (newCheckpoint sij jobName p ts)))" "psContainers (pSpec p) \<noteq> []"
    and run: "updateJobWithCheckpoint k sij nm (checkpointContainers st) s = Some (r, s')"
    and tr: "trace s' = trace s @ es" "ACreateJob j' e \<in> set es"
  shows "\<exists>j url repo. ADeleteJob j True None \<in> set es \<and> fetched k sij nm j
    \<and> parseRegistry (ccImageRepo (sjCheckpointConfig (sjSpec sij))) = (url, repo)
    \<and> psContainers (ptSpec (jsTemplate (jSpec j')))
        = map (\<lambda>c. if cName c \<in> cName ` set (psContainers (pSpec p))
                   then c\<lparr>cImage := url @ ''/'' @ repo @ '':'' @ cName c @ ''-'' @ showInt ts\<rparr> else c)
            (psContainers (ptSpec (jsTemplate (jSpec j))))"
proof -
  obtain url repo where r: "parseRegistry (ccImageRepo (sjCheckpointConfig (sjSpec sij))) = (url, repo)"
    by fastforce
  let ?cs = "ckContainers (cpSpec (newCheckpoint sij jobName p ts))"
  have "?cs \<noteq> []" using st(2) by (simp add: newCheckpoint_def r)
  with st(1) have cs: "checkpointContainers st = reported ?cs" by (rule checkpointContainers_reported)
  have "checkpointImages sij (reported ?cs) = (\<lambda>n. if n \<in> cName ` set (psContainers (pSpec p))
      then Some (url @ ''/'' @ repo @ '':'' @ n @ ''-'' @ showInt ts) else None)"
    using imageMap_reported [of "url @ ''/''" "\<lambda>n. repo @ '':'' @ n @ ''-'' @ showInt ts"
        "psContainers (pSpec p)" Map.empty]
    by (simp add: fun_eq_iff newCheckpoint_def checkpointImages_def r)
  then have imgs: "updateImages (checkpointImages sij (reported ?cs)) xs
      = map (\<lambda>c. if cName c \<in> cName ` set (psContainers (pSpec p))
                   then c\<lparr>cImage := url @ ''/'' @ repo @ '':'' @ cName c @ ''-'' @ showInt ts\<rparr> else c) xs" for xs
    by (simp add: updateImages_def)
  from restored_created [OF law run tr] obtain j where
    "es = [ADeleteJob j True None, ASleep (seconds 2), ACreateJob j' e]" "fetched k sij nm j"
    "psContainers (ptSpec (jsTemplate (jSpec j')))
        = updateImages (checkpointImages sij (checkpointContainers st)) (psContainers (ptSpec (jsTemplate (jSpec j))))"
    by blast
  with r show ?thesis by (intro exI [of _ j] exI [of _ url] exI [of _ repo]) (simp add: cs imgs)
qed

theorem pushed_image_restored_witness:
  "\<exists>r s' j' e. updateJobWithCheckpoint refKube exSIJ ''j''
       (checkpointContainers (the (cpStatus (exCheckpoint ''i'' ''Completed''))))
       \<lparr>world = restoreCluster, trace = []\<rparr> = Some (r, s')
     \<and> ACreateJob j' e \<in> set (trace s')
     \<and> map cImage (psContainers (ptSpec (jsTemplate (jSpec j')))) = [''gcr.io/proj/ckpt:main-5'']"
proof -
  let ?st = "the (cpStatus (exCheckpoint ''i'' ''Completed''))"
  have five: "showInt 5 = ''5''" by code_simp
  have reg: "parseRegistry ''gcr.io/proj/ckpt'' = (''gcr.io'', ''proj/ckpt'')" by code_simp
  have st: "reports ?st (ckContainers (cpSpec (newCheckpoint exSIJ ''i'' (exPod ''p'' ''i'' ''n'') 5)))"
    "psContainers (pSpec (exPod ''p'' ''i'' ''n'')) \<noteq> []"
    by (simp_all add: reports_def newCheckpoint_def checkpoint_examples five reg)
  have "\<exists>r s' j' e. updateJobWithCheckpoint refKube exSIJ ''j'' (checkpointContainers ?st)
      \<lparr>world = restoreCluster, trace = []\<rparr> = Some (r, s')
      \<and> trace s' = [ADeleteJob exJob True None, ASleep (seconds 2), ACreateJob j' e]"
    by (auto simp: updateJobWithCheckpoint_def replaceJob_def placeRestored_def createRestored_def
        hasCheckpointUpdated_def restoreCluster_def exReadyPI_def exJob_def replicaSelector_def
        preempted_def readyPI_def replicaIndexOf_def parseInt32_def parseUint_def digitVal_def
        checkpoint_examples cluster_eval example_defs
        split: prod.splits)
  then obtain r s' j' e where run: "updateJobWithCheckpoint refKube exSIJ ''j'' (checkpointContainers ?st)
      \<lparr>world = restoreCluster, trace = []\<rparr> = Some (r, s')"
    and tr: "trace s' = [ADeleteJob exJob True None, ASleep (seconds 2), ACreateJob j' e]" by blast
  then have a: "ACreateJob j' e \<in> set (trace s')" by simp
  from pushed_image_restored [OF owners_only_refKube st run _ a] tr obtain url repo where
    "parseRegistry (ccImageRepo (sjCheckpointConfig (sjSpec exSIJ))) = (url, repo)"
    "psContainers (ptSpec (jsTemplate (jSpec j')))
        = map (\<lambda>c. if cName c \<in> cName ` set (psContainers (pSpec (exPod ''p'' ''i'' ''n'')))
                   then c\<lparr>cImage := url @ ''/'' @ repo @ '':'' @ cName c @ ''-'' @ showInt 5\<rparr> else c)
            (psContainers (ptSpec (jsTemplate (jSpec exJob))))"
    by auto
  then have "map cImage (psContainers (ptSpec (jsTemplate (jSpec j')))) = [''gcr.io/proj/ckpt:main-5'']"
    by (simp add: exJob_def checkpoint_examples reg five)
  with run a show ?thesis by (intro exI conjI)
qed

text \<open>
  C34. The old job is deleted before a machine for the new one is looked
  for. When no instance of the replica is ready at that moment, the call fails after the
  deletion, and neither job exists: the next attempt finds no job to restore.
\<close>

theorem restore_can_lose_job:
  assumes get: "kGetJob k (mNamespace (sjMeta sij)) nm (world s) = (Inr j, w1)"
      "\<not> hasCheckpointUpdated (jMeta j)"
    and del: "kDeleteJob k j True w1 = (None, w2)" "kSleep k (seconds 2) w2 = (u, w3)"
    and none: "kListPI k (mNamespace (sjMeta sij))
        (replicaSelector sij (replicaIndexOf 0 (mLabels (jMeta j)))) w3 = (Inr pis, w4)"
      "selectReadyPI pis = None"
    and again: "kGetJob k (mNamespace (sjMeta sij)) nm w4 = (Inl (GoError NotFound msg), w5)"
  shows "\<exists>x s'. updateJobWithCheckpoint k sij nm cs s = Some (Some x, s')
    \<and> trace s' = trace s @ [ADeleteJob j True None, ASleep (seconds 2)]
    \<and> updateJobWithCheckpoint k sij nm cs s' = Some (None, s'\<lparr>world := w5\<rparr>)"
proof -
  from none(2) show ?thesis
    using get del none(1) again
    by (cases pis) (auto simp: updateJobWithCheckpoint_def replaceJob_def placeRestored_def kread_def
        kcall_def Let_def isNotFound_def simp del: selectReadyPI.simps)
qed

theorem restore_can_lose_job_witness:
  "\<exists>x s'. updateJobWithCheckpoint refKube exSIJ ''j'' []
       \<lparr>world = exCluster\<lparr>clJobs := [exJob]\<rparr>, trace = []\<rparr> = Some (Some x, s')
     \<and> trace s' = [ADeleteJob exJob True None, ASleep (seconds 2)]"
proof -
  let ?s = "\<lparr>world = exCluster\<lparr>clJobs := [exJob]\<rparr>, trace = []\<rparr>"
  let ?c = "exCluster\<lparr>clNow := seconds 2\<rparr>"
  have 1: "kGetJob refKube (mNamespace (sjMeta exSIJ)) ''j'' (world ?s)
      = (Inr exJob, exCluster\<lparr>clJobs := [exJob]\<rparr>)"
    by (simp add: exJob_def checkpoint_examples cluster_eval example_defs)
  have 2: "\<not> hasCheckpointUpdated (jMeta exJob)"
    by (simp add: exJob_def hasCheckpointUpdated_def cluster_eval example_defs)
  have 3: "kDeleteJob refKube exJob True (exCluster\<lparr>clJobs := [exJob]\<rparr>) = (None, exCluster)"
    by (simp add: exJob_def cluster_eval example_defs)
  have 4: "kSleep refKube (seconds 2) exCluster = ((), ?c)"
    by (simp add: cluster_eval example_defs)
  have 5: "kListPI refKube (mNamespace (sjMeta exSIJ))
      (replicaSelector exSIJ (replicaIndexOf 0 (mLabels (jMeta exJob)))) ?c = (Inr [], ?c)"
    by (simp add: cluster_eval example_defs)
  have 6: "kGetJob refKube (mNamespace (sjMeta exSIJ)) ''j'' ?c
      = (Inl (GoError NotFound ''j not found''), ?c)"
    by (simp add: cluster_eval example_defs)
  show ?thesis using restore_can_lose_job [OF 1 2 3 4 5 _ 6, where cs = "[]"] by auto
qed

text \<open>
  C4. While a checkpoint is applied to a set of jobs, the job the checkpoint
  was taken from is never touched: each job that is deleted was read under a name of the set
  other than the source's, before it was restored, and is deleted together with its pods.
\<close>

theorem source_untouched:
  assumes run: "processJobs k sij source cs names processed s = Some (r, s')"
    and tr: "trace s' = trace s @ es" "ADeleteJob j bg e \<in> set es"
  shows "bg \<and> \<not> hasCheckpointUpdated (jMeta j)
    \<and> (\<exists>nm \<in> set names. fetched k sij nm j \<and> (source = [] \<or> nm \<noteq> source))"
proof -
  have "emits (restoreAction k sij (mayRestore names source)) (processJobs k sij source cs names processed)"
    by (rule emits_processJobs) (simp add: mayRestore_def)
  then obtain es' where es': "trace s' = trace s @ es'"
    and all: "list_all (restoreAction k sij (mayRestore names source)) es'"
    unfolding emits_def using run by (rule yieldsE)
  from all es' tr have "restoreAction k sij (mayRestore names source) (ADeleteJob j bg e)"
    by (auto simp: list_all_iff)
  then show ?thesis unfolding restoreAction_def mayRestore_def by auto
qed

theorem source_untouched_witness:
  "\<exists>nm \<in> {''i'', ''j''}. fetched refKube exSIJ nm exJob \<and> nm \<noteq> ''i''"
proof -
  have "\<exists>r s'. processJobs refKube exSIJ ''i'' [[(''name'', IString ''main''), (''image'', IString ''x'')]]
        [''i'', ''j''] {} \<lparr>world = restoreCluster, trace = []\<rparr> = Some (r, s')
     \<and> ADeleteJob exJob True None \<in> set (trace s')"
    by (auto simp: processJob_def updateJobWithCheckpoint_def replaceJob_def placeRestored_def
        createRestored_def hasCheckpointUpdated_def restoreCluster_def exReadyPI_def exJob_def
        replicaSelector_def preempted_def readyPI_def replicaIndexOf_def parseInt32_def parseUint_def
        digitVal_def checkpoint_examples cluster_eval example_defs
        split: prod.splits)
  then obtain r s' where run: "processJobs refKube exSIJ ''i''
      [[(''name'', IString ''main''), (''image'', IString ''x'')]]
      [''i'', ''j''] {} \<lparr>world = restoreCluster, trace = []\<rparr> = Some (r, s')"
    and a: "ADeleteJob exJob True None \<in> set (trace s')" by blast
  from source_untouched [OF run _ a] show ?thesis by auto
qed

text \<open>
  C12. One application of all completed checkpoints to a set of jobs always comes
  back. It restores a job from at most one of them, though several may fit and each visits the
  jobs in an order of its own: no name is created twice with success, only names of the set
  are created, and what is deleted on the way are jobs read under a name of the set before
  they were restored, each together with its pods.
\<close>

theorem restored_once:
  assumes law: "owners_only k"
  shows "\<exists>r s' es. processCompletedCheckpoints k sij names s = Some (r, s') \<and> trace s' = trace s @ es
    \<and> distinct (createdJobNames es) \<and> set (createdJobNames es) \<subseteq> set names
    \<and> (\<forall>j bg e. ADeleteJob j bg e \<in> set es \<longrightarrow> bg \<and> \<not> hasCheckpointUpdated (jMeta j)
        \<and> (\<exists>nm \<in> set names. fetched k sij nm j))"
proof -
  obtain r s' es where run: "processCompletedCheckpoints k sij names s = Some (r, s')"
    and es: "trace s' = trace s @ es" "list_all (restoreAction k sij (\<lambda>nm. nm \<in> set names)) es"
    using process.terminates [of k sij names s] by blast
  have "yields (processCompletedCheckpoints k sij names) (\<lambda>_ es. \<exists>after. once {} after es)"
    unfolding processCompletedCheckpoints_def [abs_def]
    by (intro yields_bind [OF yields_kread] yields_sum yields_if yields_ret
        yields_bind [OF yields_processCheckpoints [OF law]]) (auto intro: exI [of _ "{}"])
  from yieldsE [OF this run] es(1) have "distinct (createdJobNames es)" by (auto simp: once_def)
  moreover have "set (createdJobNames es) \<subseteq> set names"
    using created_within [OF law es(2)] by simp
  moreover have "restoreAction k sij (\<lambda>nm. nm \<in> set names) (ADeleteJob j bg e)"
    if "ADeleteJob j bg e \<in> set es" for j bg e using es(2) that by (auto simp: list_all_iff)
  ultimately show ?thesis using run es(1) unfolding restoreAction_def by fastforce
qed

text \<open>Two completed checkpoints of the lone job i fit the job j, which is restored once.\<close>

definition twiceCluster :: cluster where
  "twiceCluster = restoreCluster\<lparr>clCheckpoints := [exCheckpoint ''i'' ''Completed'', exCheckpoint ''h'' ''Completed'']\<rparr>"

theorem restored_once_witness:
  "\<exists>r s'. processCompletedCheckpoints refKube exSIJ [''j''] \<lparr>world = twiceCluster, trace = []\<rparr> = Some (r, s')
     \<and> createdJobNames (trace s') = [''j'']"
proof -
  let ?s = "\<lparr>world = twiceCluster, trace = []\<rparr>"
  let ?cs = "checkpointContainers (the (cpStatus (exCheckpoint ''i'' ''Completed'')))"
  have "\<exists>s1. updateJobWithCheckpoint refKube exSIJ ''j'' ?cs ?s = Some (None, s1)
      \<and> ''j'' \<in> set (createdJobNames (trace s1))"
    by (auto simp: restoredJob_def updateJobWithCheckpoint_def replaceJob_def placeRestored_def createRestored_def
        hasCheckpointUpdated_def twiceCluster_def restoreCluster_def exReadyPI_def exJob_def
        replicaSelector_def preempted_def readyPI_def replicaIndexOf_def parseInt32_def parseUint_def
        digitVal_def checkpoint_examples cluster_eval example_defs
        split: prod.splits)
  then obtain s1 where "updateJobWithCheckpoint refKube exSIJ ''j'' ?cs ?s = Some (None, s1)"
    and new: "''j'' \<in> set (createdJobNames (trace s1))" by blast
  moreover have "kGetJob refKube (mNamespace (sjMeta exSIJ)) ''j'' twiceCluster = (Inr exJob, twiceCluster)"
    "\<not> hasCheckpointUpdated (jMeta exJob)" "\<not> beingDeleted (jMeta exJob)"
    by (simp_all add: twiceCluster_def restoreCluster_def exJob_def hasCheckpointUpdated_def
        checkpoint_examples cluster_eval example_defs)
  ultimately have first: "processJob refKube exSIJ ''i'' ?cs ''j'' {} ?s = Some ({''j''}, s1)"
    by (simp add: processJob_def kread_def)
  have again: "processJob refKube exSIJ src cs ''j'' {''j''} s = Some ({''j''}, s)" for src cs s
    by (simp add: processJob_def)
  have cps: "kListCheckpoint refKube (mNamespace (sjMeta exSIJ)) [(spotInstanceJobLabel, mName (sjMeta exSIJ))] twiceCluster
      = (Inr (clCheckpoints twiceCluster), twiceCluster)"
    by (simp add: twiceCluster_def restoreCluster_def newCheckpoint_def checkpoint_examples cluster_eval example_defs split: prod.split)
  have reports: "completedStatus (exCheckpoint jn ''Completed'') = Some (the (cpStatus (exCheckpoint i ''Completed'')))"
    "labelAt (mLabels (cpMeta (exCheckpoint jn st))) checkpointJobLabel = jn"
    "?cs \<noteq> []" for jn i st
    by (simp_all add: completedStatus_def successPhase_def labelAt_def checkpointContainers_def newCheckpoint_def checkpoint_examples cluster_eval example_defs split: prod.split)
  have "clCheckpoints twiceCluster = [exCheckpoint ''i'' ''Completed'', exCheckpoint ''h'' ''Completed'']"
    by (simp add: twiceCluster_def)
  with cps first again reports(1) [of _ "''i''"] reports(2,3) new
  have "\<exists>r s'. processCompletedCheckpoints refKube exSIJ [''j''] ?s = Some (r, s')
     \<and> ''j'' \<in> set (createdJobNames (trace s'))"
    by (simp add: processCompletedCheckpoints_def kread_def cluster_eval)
  then obtain r s' where run: "processCompletedCheckpoints refKube exSIJ [''j''] ?s = Some (r, s')"
    and made: "''j'' \<in> set (createdJobNames (trace s'))" by blast
  from restored_once [OF owners_only_refKube, of exSIJ "[''j'']" ?s] run
  have once: "distinct (createdJobNames (trace s'))" "set (createdJobNames (trace s')) \<subseteq> {''j''}" by auto
  with made have "createdJobNames (trace s') = [''j'']"
    by (cases "createdJobNames (trace s')") (auto simp: subset_singleton_iff)
  with run show ?thesis by blast
qed

text \<open>
  C25. The checkpoint a lone job is restored from is a completed one with
  containers and a completion time that parses, and none of those is later; there is none
  only if no checkpoint has all of these.
\<close>

theorem latest_is_latest:
  "case latestContainers k cps None of
     None \<Rightarrow> (\<forall>cp. cp \<in> set cps \<longrightarrow> datedContainers k cp = None)
   | Some (cs, t) \<Rightarrow>
       (\<exists>cp st. cp \<in> set cps \<and> completedStatus cp = Some st \<and> cs = checkpointContainers st \<and> cs \<noteq> []
          \<and> (\<exists>str. cpCompletionTime st = Some str \<and> kParseTime k str = Some t))
       \<and> (\<forall>cp cs' t'. cp \<in> set cps \<and> datedContainers k cp = Some (cs', t') \<longrightarrow> t' \<le> t)"
proof (cases "latestContainers k cps None")
  case None
  then show ?thesis using latestContainers_None [of k cps None] by simp
next
  case (Some x)
  obtain cs t where x: "x = (cs, t)" by (cases x)
  from latestContainers_sound [OF Some] x obtain cp
    where "cp \<in> set cps" "datedContainers k cp = Some (cs, t)" by auto
  with latestContainers_sound [OF Some] x Some show ?thesis
    by (fastforce simp: datedContainers_def split: option.splits if_splits)
qed

theorem latest_is_latest_witness:
  "\<exists>cs t. latestContainers refKube [exCheckpoint ''j'' ''Completed''] None = Some (cs, t)
     \<and> (\<forall>cs' t'. datedContainers refKube (exCheckpoint ''j'' ''Completed'') = Some (cs', t') \<longrightarrow> t' \<le> t)"
proof -
  have "datedContainers refKube (exCheckpoint ''j'' ''Completed'') \<noteq> None"
    by (simp add: datedContainers_def completedStatus_def successPhase_def exCheckpoint_def
        checkpointContainers_def parseInt32_def parseUint_def digitVal_def)
  with latest_is_latest [where k = refKube and cps = "[exCheckpoint ''j'' ''Completed'']"] show ?thesis
    by (auto split: option.splits)
qed

text \<open>
  C38. A job made by the operator carries no restored-from label:
  neither one that creating a replica makes nor one that restoring a job with a checkpoint
  makes. So once one checkpoint of such a job has completed, no further checkpoint is ever made
  for it while the API server has the job with the labels it was created with.
\<close>

theorem live_job_checkpointed_once:
  assumes law: "owners_only k"
    and made: "(\<exists>x. createJobReplica k sij0 jn i t = Some (x, t'))
        \<or> (\<exists>x. updateJobWithCheckpoint k sij0 jn cs t = Some (x, t'))"
      "trace t' = trace t @ es" "ACreateJob j0 e \<in> set es"
    and job: "kGetJob k (mNamespace (sjMeta sij)) nm w1 = (Inr j, w2)" "mLabels (jMeta j) = mLabels (jMeta j0)"
    and cps: "kListCheckpoint k (mNamespace (sjMeta sij)) [(checkpointJobLabel, nm)] (world s) = (Inr cps, w1)"
      "list_ex completed cps"
  shows "mLabels (jMeta j0) ''restored-from'' = None
    \<and> (\<exists>w. createCheckpointForJob k sij nm s = Some (None, s\<lparr>world := w\<rparr>))"
proof -
  have lab: "mLabels (jMeta j0) ''restored-from'' = None"
    using made(1)
  proof
    assume "\<exists>x. createJobReplica k sij0 jn i t = Some (x, t')"
    then obtain x where "createJobReplica k sij0 jn i t = Some (x, t')" by blast
    from yieldsE [OF yields_createJobReplica this] obtain es'
      where "trace t' = trace t @ es'" "createsReplica k sij0 jn i x es'" .
    with made(2) have "createsReplica k sij0 jn i x es" by simp
    with made(3) have "replicaOf k sij0 jn i j0" unfolding createsReplica_def by force
    with owners_onlyD(3) [OF law] have "mLabels (jMeta j0) = withReplicaLabels sij0 i Map.empty"
      unfolding replicaOf_def by fastforce
    then show ?thesis by (simp add: withReplicaLabels_def spotInstanceJobLabel_def jobReplicaLabel_def)
  next
    assume "\<exists>x. updateJobWithCheckpoint k sij0 jn cs t = Some (x, t')"
    then obtain x where "updateJobWithCheckpoint k sij0 jn cs t = Some (x, t')" by blast
    from restored_created [OF law this made(2,3)] obtain j1 where "replacementOf k sij0 jn cs j1 j0" by blast
    from replacementOf_meta(4) [OF law this] show ?thesis
      by (simp add: withReplicaLabels_def spotInstanceJobLabel_def jobReplicaLabel_def)
  qed
  with job cps show ?thesis
    by (cases "list_ex inProgress cps")
      (auto simp: createCheckpointForJob_def submitCheckpoint_def heldBack_def awaitsRecreation_def kread_def
        checkpointStates_eq)
qed

text \<open>A replica made in the reference environment, and a completed checkpoint of it.\<close>

theorem live_job_checkpointed_once_witness:
  "\<exists>j0. mLabels (jMeta j0) ''restored-from'' = None
     \<and> (\<exists>w. createCheckpointForJob refKube exSIJ ''j''
       \<lparr>world = exCluster\<lparr>clJobs := [j0], clCheckpoints := [exCheckpoint ''j'' ''Completed'']\<rparr>, trace = []\<rparr>
       = Some (None, \<lparr>world = w, trace = []\<rparr>))"
proof -
  have "\<exists>x t' j0 e. createJobReplica refKube exSIJ ''j'' 0 \<lparr>world = exCluster, trace = []\<rparr> = Some (x, t')
      \<and> trace t' = [ACreateJob j0 e] \<and> mName (jMeta j0) = ''j'' \<and> mNamespace (jMeta j0) = ''ns''"
    by (simp add: createJobReplica_def labelTemplate_def templateLabels_def assignNode_def replicaSelector_def
        replicaJob_def withReplicaLabels_def cluster_eval example_defs checkpoint_examples)
  then obtain x t' j0 e where run: "createJobReplica refKube exSIJ ''j'' 0 \<lparr>world = exCluster, trace = []\<rparr> = Some (x, t')"
    and t': "trace t' = [ACreateJob j0 e]"
    and nm: "mName (jMeta j0) = ''j''" "mNamespace (jMeta j0) = ''ns''" by (elim exE conjE)
  from t' have tr: "trace t' = trace (\<lparr>world = exCluster, trace = []\<rparr> :: cluster sys) @ [ACreateJob j0 e]" by simp
  let ?c = "exCluster\<lparr>clJobs := [j0], clCheckpoints := [exCheckpoint ''j'' ''Completed'']\<rparr>"
  have 1: "kGetJob refKube (mNamespace (sjMeta exSIJ)) ''j'' ?c = (Inr j0, ?c)"
    by (simp add: nm checkpoint_examples cluster_eval example_defs)
  have 2: "kListCheckpoint refKube (mNamespace (sjMeta exSIJ)) [(checkpointJobLabel, ''j'')]
      (world \<lparr>world = ?c, trace = []\<rparr>) = (Inr [exCheckpoint ''j'' ''Completed''], ?c)"
    by (simp add: checkpoint_examples newCheckpoint_def cluster_eval example_defs split: prod.splits)
  have 3: "list_ex completed [exCheckpoint ''j'' ''Completed'']"
    by (simp add: completed_def completedStatus_def successPhase_def exCheckpoint_def)
  have 4: "(\<exists>x. createJobReplica refKube exSIJ ''j'' 0 \<lparr>world = exCluster, trace = []\<rparr> = Some (x, t'))
      \<or> (\<exists>x. updateJobWithCheckpoint refKube exSIJ ''j'' [] \<lparr>world = exCluster, trace = []\<rparr> = Some (x, t'))"
    using run by simp
  have 5: "ACreateJob j0 e \<in> set [ACreateJob j0 e]" by simp
  from live_job_checkpointed_once [OF owners_only_refKube 4 tr 5 1 refl 2 3] show ?thesis
    by (intro exI [of _ j0]) simp
qed

end
