(* ===== verification/Instances.thy ===== *)
theory Instances
  imports Jobs
begin

text \<open>
  The machines of a SpotInstanceJob
  (\<^verbatim>\<open>internal/controller/spotinstancejob_provisionedinstance.go\<close>): counting the active
  ProvisionedInstances, the replica indices they hold, and the loop that creates the missing
  ones. The loop is a partial function: nothing in the code bounds the number of failing
  create calls, so that it returns is something to prove.
\<close>

section \<open>Counting\<close>

definition fetchTemplateFor ::
    "'w kube \<Rightarrow> spot_job \<Rightarrow> 'w sys \<Rightarrow> ((go_error + instance_template) \<times> 'w sys) option" where
  "fetchTemplateFor k sij s =
     getTemplate k (mNamespace (sjMeta sij)) (lrName (sjInstanceTemplateRef (sjSpec sij))) s"

definition activePI :: "prov_instance \<Rightarrow> bool" where
  "activePI p \<longleftrightarrow> (piState (piStatus p) = [] \<or> piState (piStatus p) = ''PENDING''
       \<or> piState (piStatus p) = ''PROVISIONING'' \<or> piState (piStatus p) = ''RUNNING'')
     \<and> \<not> beingDeleted (piMeta p)"

definition terminatedPI :: "prov_instance \<Rightarrow> bool" where
  "terminatedPI p \<longleftrightarrow> piState (piStatus p) = ''TERMINATED'' \<and> piPreemptionNotice (piStatus p)"

definition countActive :: "prov_instance list \<Rightarrow> int" where
  "countActive pis = wrap32 (int (length (filter activePI pis)))"

text \<open>
  The replica indices held by instances that are not preempted: those of the labels that
  parse as 32-bit integers.
\<close>

fun usedIndices :: "prov_instance list \<Rightarrow> int list" where
  "usedIndices [] = []"
| "usedIndices (p # ps) =
     (if preempted p then usedIndices ps
      else (case mLabels (piMeta p) jobReplicaLabel of
              None \<Rightarrow> usedIndices ps
            | Some str \<Rightarrow> (case parseInt32 str of
                None \<Rightarrow> usedIndices ps
              | Some i \<Rightarrow> i # usedIndices ps)))"

section \<open>The next free index\<close>

text \<open>
  The inner loop of both allocators: skip the used indices, and stop anyway once the limit
  is reached. The index is an int32; the loop has no other bound.
\<close>

partial_function (option) nextFree :: "int list \<Rightarrow> int \<Rightarrow> int \<Rightarrow> int option" where
  "nextFree used limit i =
     (if i \<in> set used
      then (let j = wrap32 (i + 1) in if limit \<le> j then Some j else nextFree used limit j)
      else Some i)"

section \<open>Creating instances\<close>

definition newInstance :: "spot_job \<Rightarrow> instance_template \<Rightarrow> int \<Rightarrow> int \<Rightarrow> prov_instance" where
  "newInstance sij tmpl i now =
     \<lparr>piMeta = noMeta\<lparr>mName := mName (sjMeta sij) @ ''-'' @ mName (itMeta tmpl) @ ''-'' @ showInt i
          @ ''-'' @ showInt (unixSeconds now),
        mNamespace := mNamespace (sjMeta sij),
        mLabels := [spotInstanceJobLabel \<mapsto> mName (sjMeta sij), jobReplicaLabel \<mapsto> showInt i]\<rparr>,
      piSpec = \<lparr>piTemplateName = mName (itMeta tmpl), piTemplateNamespace = mNamespace (itMeta tmpl),
        piSpotJobRef = None, piCredentialsRef = sjCredentialsRef (sjSpec sij)\<rparr>,
      piStatus = noPIStatus\<rparr>"

text \<open>
  One pass of the creation loop. A create call that fails is logged and the next index is
  tried; only a failing owner reference ends the loop early.
\<close>

partial_function (option) createInstances ::
    "'w kube \<Rightarrow> spot_job \<Rightarrow> instance_template \<Rightarrow> int \<Rightarrow> int \<Rightarrow> int list \<Rightarrow> int \<Rightarrow> int \<Rightarrow> 'w sys
       \<Rightarrow> (err \<times> 'w sys) option" where
  "createInstances k sij tmpl limit needed used i created s =
     (if needed \<le> created then Some (None, s)
      else Option.bind (nextFree used limit i) (\<lambda>i.
        Option.bind (timeNow k s) (\<lambda>(now, s).
          let p = newInstance sij tmpl i now in
          case kSetCtrlRef k (sjMeta sij) (piMeta p) of
            Inl e \<Rightarrow> Some (Some e, s)
          | Inr m \<Rightarrow> Option.bind (createPI k (p\<lparr>piMeta := m\<rparr>) s) (\<lambda>(e, s).
              case e of
                Some x \<Rightarrow>
                  createInstances k sij tmpl limit needed used (wrap32 (i + 1)) created s
              | None \<Rightarrow>
                  createInstances k sij tmpl limit needed (i # used) (wrap32 (i + 1))
                    (wrap32 (created + 1)) s))))"

declare nextFree.simps [code] createInstances.simps [code]

text \<open>
  With terminated instances and too few active ones, the creation waits for checkpoints in
  progress; a failed check does not hold it back.
\<close>

definition waitsForCheckpoint ::
    "'w kube \<Rightarrow> spot_job \<Rightarrow> prov_instance list \<Rightarrow> 'w sys \<Rightarrow> (bool \<times> 'w sys) option" where
  "waitsForCheckpoint k sij pis s =
     (if list_ex terminatedPI pis \<and> countActive pis < desiredReplicas sij
      then do {
        (r, s) \<leftarrow> hasPendingCheckpoints k sij s;
        Some (case r of Inl _ \<Rightarrow> False | Inr b \<Rightarrow> b, s)
      }
      else Some (False, s))"

definition reconcileProvisionedInstances ::
    "'w kube \<Rightarrow> spot_job \<Rightarrow> instance_template \<Rightarrow> 'w sys \<Rightarrow> (err \<times> 'w sys) option" where
  "reconcileProvisionedInstances k sij tmpl s = do {
     (r, s) \<leftarrow> listPI k (mNamespace (sjMeta sij)) [(spotInstanceJobLabel, mName (sjMeta sij))] s;
     case r of
       Inl e \<Rightarrow> Some (Some e, s)
     | Inr pis \<Rightarrow> do {
         (waits, s) \<leftarrow> waitsForCheckpoint k sij pis s;
         if waits then Some (None, s)
         else if countActive pis < desiredReplicas sij
         then createInstances k sij tmpl (wrap32 (desiredReplicas sij * 2))
                (wrap32 (desiredReplicas sij - countActive pis)) (usedIndices pis) 0 0 s
         else Some (None, s)
       }
   }"

section \<open>The next free index\<close>

text \<open>The scan ends on an index that is free, or on the limit or above; it stays an int32.\<close>

lemma nextFree_result:
  assumes "nextFree used limit i = Some j"
  shows "(in32 i \<longrightarrow> in32 j) \<and> (j \<notin> set used \<or> limit \<le> j)"
  by (rule nextFree.raw_induct [where P = "\<lambda>used limit i j. (in32 i \<longrightarrow> in32 j) \<and> (j \<notin> set used \<or> limit \<le> j)",
        OF _ assms])
    (auto simp: Let_def split: if_splits)

text \<open>Below the limit the scan is a plain search upwards, so it ends.\<close>

lemma nextFree_below:
  assumes "in32 i" "in32 limit" "i < limit"
  shows "\<exists>j. nextFree used limit i = Some j \<and> i \<le> j \<and> j \<le> limit \<and> (\<forall>x. i \<le> x \<and> x < j \<longrightarrow> x \<in> set used)"
  using assms
proof (induction "nat (limit - i)" arbitrary: i rule: less_induct)
  case less
  have w: "wrap32 (i + 1) = i + 1" using less.prems by (intro wrap32_succ) (auto simp: in32_def)
  show ?case
  proof (cases "i \<in> set used \<and> i + 1 < limit")
    case True
    with less.prems have "in32 (i + 1)" "nat (limit - (i + 1)) < nat (limit - i)"
      by (auto simp: in32_def)
    with less.hyps [of "i + 1"] less.prems(2) True obtain j where
      j: "nextFree used limit (i + 1) = Some j" "i + 1 \<le> j" "j \<le> limit"
        "\<forall>x. i + 1 \<le> x \<and> x < j \<longrightarrow> x \<in> set used" by blast
    from True w j(1) have "nextFree used limit i = Some j"
      by (subst nextFree.simps) (simp add: Let_def)
    moreover have "\<forall>x. i \<le> x \<and> x < j \<longrightarrow> x \<in> set used"
      using j(4) True by (metis add1_zle_eq le_less)
    ultimately show ?thesis using j(2,3) by (intro exI [of _ j]) simp
  next
    case False
    with w less.prems(3) have "nextFree used limit i = Some (if i \<in> set used then i + 1 else i)"
      by (subst nextFree.simps) (auto simp: Let_def)
    with less.prems(3) False show ?thesis
      by (intro exI [of _ "if i \<in> set used then i + 1 else i"]) auto
  qed
qed

text \<open>With a free index in range, the scan finds the least one.\<close>

lemma nextFree_finds:
  assumes i: "in32 i" "in32 limit" and free: "free_in used i limit \<noteq> {}"
  shows "\<exists>j. nextFree used limit i = Some j \<and> j \<in> free_in used i limit
    \<and> free_in used i limit = insert j (free_in used (j + 1) limit)"
proof -
  from free have "i < limit" by (auto simp: free_in_def)
  from nextFree_below [OF i this] obtain j where j: "nextFree used limit i = Some j" "i \<le> j" "j \<le> limit"
    and below: "\<forall>x. i \<le> x \<and> x < j \<longrightarrow> x \<in> set used" by blast
  from free below have lt: "j < limit" by (fastforce simp: free_in_def)
  with nextFree_result [OF j(1)] have nin: "j \<notin> set used" by auto
  have "free_in used i limit = insert j (free_in used (j + 1) limit)"
  proof (rule set_eqI)
    fix x
    show "x \<in> free_in used i limit \<longleftrightarrow> x \<in> insert j (free_in used (j + 1) limit)"
      using below nin lt j(2) by (cases "x < j") (auto simp: free_in_def)
  qed
  with j lt nin show ?thesis by (auto simp: free_in_def)
qed

section \<open>Creating instances\<close>

text \<open>The create call of one instance: the new object under index i with its owner.\<close>

definition createsInstance :: "'w kube \<Rightarrow> spot_job \<Rightarrow> instance_template \<Rightarrow> int \<Rightarrow> action \<Rightarrow> bool" where
  "createsInstance k sij tmpl i a \<longleftrightarrow> (\<exists>now m e.
     kSetCtrlRef k (sjMeta sij) (piMeta (newInstance sij tmpl i now)) = Inr m
     \<and> a = ACreatePI ((newInstance sij tmpl i now)\<lparr>piMeta := m\<rparr>) e)"

text \<open>The indices of the instances created with success, as their labels say.\<close>

fun createdIndices :: "action list \<Rightarrow> int list" where
  "createdIndices [] = []"
| "createdIndices (ACreatePI p None # es) = replicaIndexOf (- 1) (mLabels (piMeta p)) # createdIndices es"
| "createdIndices (_ # es) = createdIndices es"

lemma createdIndices_append [simp]:
  "createdIndices (xs @ ys) = createdIndices xs @ createdIndices ys"
  by (induction xs rule: createdIndices.induct) simp_all

lemma createdIndices_in32: "i \<in> set (createdIndices es) \<Longrightarrow> in32 i"
proof (induction es rule: createdIndices.induct)
  case (2 p es)
  have "in32 (replicaIndexOf (- 1) (mLabels (piMeta p)))"
    by (rule replicaIndexOf_in32) (simp add: in32_def)
  with 2 show ?case by auto
qed simp_all

lemma createsInstance_index:
  assumes "owners_only k" "in32 i"
    "kSetCtrlRef k (sjMeta sij) (piMeta (newInstance sij tmpl i now)) = Inr m"
  shows "createdIndices [ACreatePI ((newInstance sij tmpl i now)\<lparr>piMeta := m\<rparr>) e] = (if e = None then [i] else [])"
proof -
  have "mLabels m jobReplicaLabel = Some (showInt i)"
    using owners_onlyD(3) [OF assms(1,3)] by (simp add: newInstance_def)
  with assms(2) show ?thesis by (cases e) simp_all
qed

text \<open>
  What a run of the loop may do, from a number of instances created so far: create calls
  only, at most as many successes as are missing, and under indices below the limit each at
  most once and none in use.
\<close>

definition allocates ::
    "'w kube \<Rightarrow> spot_job \<Rightarrow> instance_template \<Rightarrow> int \<Rightarrow> int \<Rightarrow> int list \<Rightarrow> int \<Rightarrow> action list \<Rightarrow> bool" where
  "allocates k sij tmpl limit needed used created es \<longleftrightarrow>
     list_all (\<lambda>a. \<exists>i. createsInstance k sij tmpl i a) es
     \<and> int (length (createdIndices es)) \<le> max 0 (needed - created)
     \<and> distinct (filter (\<lambda>i. i < limit) (createdIndices es))
     \<and> (\<forall>i \<in> set (createdIndices es). i < limit \<longrightarrow> i \<notin> set used)"

lemma allocates_Nil [simp]: "allocates k sij tmpl limit needed used created []"
  by (simp add: allocates_def)

lemma allocates_failed:
  assumes "owners_only k" "in32 i"
    "kSetCtrlRef k (sjMeta sij) (piMeta (newInstance sij tmpl i now)) = Inr m"
    "allocates k sij tmpl limit needed used created es"
  shows "allocates k sij tmpl limit needed used created
     (ACreatePI ((newInstance sij tmpl i now)\<lparr>piMeta := m\<rparr>) (Some x) # es)"
  using assms(3,4) by (auto simp: allocates_def createsInstance_def)

lemma allocates_created:
  assumes "owners_only k" "in32 i" "i \<notin> set used \<or> limit \<le> i" "created < needed"
    "kSetCtrlRef k (sjMeta sij) (piMeta (newInstance sij tmpl i now)) = Inr m"
    "allocates k sij tmpl limit needed (i # used) (created + 1) es"
  shows "allocates k sij tmpl limit needed used created
     (ACreatePI ((newInstance sij tmpl i now)\<lparr>piMeta := m\<rparr>) None # es)"
proof -
  have "createdIndices (ACreatePI ((newInstance sij tmpl i now)\<lparr>piMeta := m\<rparr>) None # es) = i # createdIndices es"
    using createsInstance_index [OF assms(1,2,5), of None] by simp
  with assms(3-6) show ?thesis
    by (auto simp: allocates_def createsInstance_def simp del: createdIndices.simps)
qed

text \<open>
  The same for any implementation of the recursive call: what the body of the loop makes of
  a call that allocates.
\<close>

lemma createInstances_run:
  assumes law: "owners_only k" and n: "in32 needed"
    and run: "createInstances k sij tmpl limit needed used i created s = Some y"
    and start: "in32 i" "0 \<le> created"
  shows "\<exists>es. trace (snd y) = trace s @ es \<and> allocates k sij tmpl limit needed used created es"
proof -
  let ?P = "\<lambda>k' sij' tmpl' limit' needed' used i created s y. k' = k \<and> sij' = sij \<and> tmpl' = tmpl
     \<and> limit' = limit \<and> needed' = needed \<longrightarrow> in32 i \<longrightarrow> 0 \<le> created \<longrightarrow>
       (\<exists>es. trace (snd y) = trace s @ es \<and> allocates k sij tmpl limit needed used created es)"
  have "?P k sij tmpl limit needed used i created s y"
  proof (rule createInstances.raw_induct [where P = ?P, OF _ run])
    fix loop :: "'a kube \<Rightarrow> spot_job \<Rightarrow> instance_template \<Rightarrow> int \<Rightarrow> int \<Rightarrow> int list \<Rightarrow> int \<Rightarrow> int \<Rightarrow> 'a sys
       \<Rightarrow> (err \<times> 'a sys) option"
      and k' sij' tmpl' limit' needed' used i created s y
    assume IH: "\<And>k' sij' tmpl' limit' needed' used i created s y.
        loop k' sij' tmpl' limit' needed' used i created s = Some y \<Longrightarrow>
        ?P k' sij' tmpl' limit' needed' used i created s y"
      and eq: "(if needed' \<le> created then Some (None, s)
      else Option.bind (nextFree used limit' i) (\<lambda>i.
        Option.bind (timeNow k' s) (\<lambda>(now, s).
          let p = newInstance sij' tmpl' i now in
          case kSetCtrlRef k' (sjMeta sij') (piMeta p) of
            Inl e \<Rightarrow> Some (Some e, s)
          | Inr m \<Rightarrow> Option.bind (createPI k' (p\<lparr>piMeta := m\<rparr>) s) (\<lambda>(e, s).
              case e of
                Some x \<Rightarrow>
                  loop k' sij' tmpl' limit' needed' used (wrap32 (i + 1)) created s
              | None \<Rightarrow>
                  loop k' sij' tmpl' limit' needed' (i # used) (wrap32 (i + 1))
                    (wrap32 (created + 1)) s)))) = Some y"
    have rec: "yields (loop k sij tmpl limit needed used i created)
        (\<lambda>_. allocates k sij tmpl limit needed used created)"
      if "in32 i" "0 \<le> created" for used i created
      using IH that by (fastforce simp: yields_iff)
    show "?P k' sij' tmpl' limit' needed' used i created s y"
    proof (intro impI)
      assume *: "k' = k \<and> sij' = sij \<and> tmpl' = tmpl \<and> limit' = limit \<and> needed' = needed"
        and i: "in32 i" and c: "0 \<le> created"
      from * have same: "k' = k" "sij' = sij" "tmpl' = tmpl" "limit' = limit" "needed' = needed"
        by simp_all
      have w: "wrap32 (created + 1) = created + 1" if "created < needed"
        using that n c by (intro wrap32_id) (auto simp: in32_def)
      have body: "yields (\<lambda>s. if needed \<le> created then Some (None, s)
        else Option.bind (nextFree used limit i) (\<lambda>i.
          Option.bind (timeNow k s) (\<lambda>(now, s).
            let p = newInstance sij tmpl i now in
            case kSetCtrlRef k (sjMeta sij) (piMeta p) of
              Inl e \<Rightarrow> Some (Some e, s)
            | Inr m \<Rightarrow> Option.bind (createPI k (p\<lparr>piMeta := m\<rparr>) s) (\<lambda>(e, s).
                case e of
                  Some x \<Rightarrow> loop k sij tmpl limit needed used (wrap32 (i + 1)) created s
                | None \<Rightarrow> loop k sij tmpl limit needed (i # used) (wrap32 (i + 1))
                      (wrap32 (created + 1)) s))))
         (\<lambda>_. allocates k sij tmpl limit needed used created)"
        unfolding Let_def
        by (intro yields_if yields_ret yields_pure yields_bind [OF yields_kread] yields_sum
            yields_bind [OF yields_kcall] yields_option yields_mono [OF rec])
          (use i c in \<open>auto simp: w dest!: nextFree_result intro: allocates_failed [OF law] allocates_created [OF law]\<close>)
      show "\<exists>es. trace (snd y) = trace s @ es \<and> allocates k sij tmpl limit needed used created es"
        by (rule yieldsD [OF body eq [unfolded same]])
    qed
  qed
  with start show ?thesis by simp
qed

lemma yields_createInstances:
  assumes "owners_only k" "in32 needed" "in32 i" "0 \<le> created"
  shows "yields (createInstances k sij tmpl limit needed used i created)
      (\<lambda>_. allocates k sij tmpl limit needed used created)"
  using createInstances_run [OF assms(1,2) _ assms(3,4)] unfolding yields_iff by blast

section \<open>When create calls succeed, and when they never do\<close>

lemma first_of_sorted:
  assumes "finite S" "\<And>x. x \<in> S \<Longrightarrow> (j :: int) < x"
  shows "sorted_list_of_set (insert j S) = j # sorted_list_of_set S"
proof -
  have "j \<notin> S" using assms(2) by blast
  moreover have "Min (insert j S) = j" using assms by (intro Min_eqI) (auto intro: less_imp_le)
  ultimately show ?thesis
    using sorted_list_of_set_nonempty [of "insert j S"] assms(1) by simp
qed

text \<open>A client whose owner references and create calls go through.\<close>

definition creates_succeed :: "'w kube \<Rightarrow> bool" where
  "creates_succeed k \<longleftrightarrow> (\<forall>owner m. \<exists>m'. kSetCtrlRef k owner m = Inr m')
     \<and> (\<forall>p w. fst (kCreatePI k p w) = None)"

text \<open>The least free indices are taken, in order, until the missing instances exist.\<close>

lemma createInstances_succeeds:
  assumes k: "owners_only k" "creates_succeed k" and n: "in32 needed" "in32 limit"
  shows "in32 i \<Longrightarrow> 0 \<le> created \<Longrightarrow> created \<le> needed \<Longrightarrow>
    nat (needed - created) \<le> card (free_in used i limit) \<Longrightarrow>
    \<exists>s' es. createInstances k sij tmpl limit needed used i created s = Some (None, s')
      \<and> trace s' = trace s @ es
      \<and> createdIndices es = take (nat (needed - created)) (sorted_list_of_set (free_in used i limit))
      \<and> length es = nat (needed - created)"
proof (induction "nat (needed - created)" arbitrary: used i created s)
  case 0
  then show ?case by (subst createInstances.simps) simp
next
  case (Suc n)
  from Suc(2) have lt: "created < needed" by simp
  from Suc have "free_in used i limit \<noteq> {}" by auto
  from nextFree_finds [OF Suc.prems(1) assms(4) this] obtain j
    where j: "nextFree used limit i = Some j" "j \<in> free_in used i limit"
      and free: "free_in used i limit = insert j (free_in used (j + 1) limit)" by blast
  from nextFree_result [OF j(1)] Suc.prems(1) have j32: "in32 j" by simp
  from j(2) assms(4) have jl: "j < limit" "wrap32 (j + 1) = j + 1"
    using wrap32_succ [OF j32] by (auto simp: free_in_def in32_def)
  have c1: "wrap32 (created + 1) = created + 1"
    using lt n(1) Suc.prems(2) by (intro wrap32_id) (auto simp: in32_def)
  have cons: "free_in (j # used) (j + 1) limit = free_in used (j + 1) limit"
    by (rule free_in_cons_below) simp
  have gt: "j < x" if "x \<in> free_in used (j + 1) limit" for x
    using that by (simp add: free_in_def)
  have notin: "j \<notin> free_in used (j + 1) limit" by (simp add: free_in_def)
  have n': "n = nat (needed - (created + 1))" using Suc(2) by simp
  have room: "nat (needed - (created + 1)) \<le> card (free_in (j # used) (j + 1) limit)"
    using Suc.prems(4) Suc(2) n' notin unfolding cons free by simp
  obtain now w1 where now: "kNow k (world s) = (now, w1)" by fastforce
  obtain m where m: "kSetCtrlRef k (sjMeta sij) (piMeta (newInstance sij tmpl j now)) = Inr m"
    using k(2) unfolding creates_succeed_def by blast
  let ?p = "(newInstance sij tmpl j now)\<lparr>piMeta := m\<rparr>"
  obtain w2 where cr: "kCreatePI k ?p w1 = (None, w2)"
    using k(2) unfolding creates_succeed_def by (metis prod.collapse)
  let ?s = "s\<lparr>world := w2, trace := trace s @ [ACreatePI ?p None]\<rparr>"
  have step: "createInstances k sij tmpl limit needed used i created s
      = createInstances k sij tmpl limit needed (j # used) (j + 1) (created + 1) ?s"
    using lt j(1) now m cr jl(2) c1
    by (subst createInstances.simps) (simp add: kread_def kcall_def Let_def)
  have "in32 (j + 1)" using jl assms(4) j32 by (auto simp: in32_def)
  from Suc(1) [OF n' this _ _ room] lt Suc.prems(2) obtain s' es where
    rec: "createInstances k sij tmpl limit needed (j # used) (j + 1) (created + 1) ?s = Some (None, s')"
      "trace s' = trace ?s @ es"
      "createdIndices es = take n (sorted_list_of_set (free_in used (j + 1) limit))" "length es = n"
    unfolding cons n' [symmetric] by fastforce
  have idx: "createdIndices (ACreatePI ?p None # es) = j # createdIndices es"
    using createsInstance_index [OF k(1) j32 m, of None] by simp
  have sorted: "sorted_list_of_set (insert j (free_in used (j + 1) limit))
      = j # sorted_list_of_set (free_in used (j + 1) limit)"
    by (rule first_of_sorted) (simp_all add: gt)
  have "take (nat (needed - created)) (sorted_list_of_set (free_in used i limit))
      = j # take n (sorted_list_of_set (free_in used (j + 1) limit))"
    unfolding Suc(2) [symmetric] free sorted by (simp only: take_Suc_Cons)
  with rec step idx Suc(2) show ?case
    by (intro exI [of _ s'] exI [of _ "ACreatePI ?p None # es"]) simp
qed

definition creates_fail :: "'w kube \<Rightarrow> bool" where
  "creates_fail k \<longleftrightarrow> (\<forall>owner m. \<exists>m'. kSetCtrlRef k owner m = Inr m')
     \<and> (\<forall>p w. fst (kCreatePI k p w) \<noteq> None)"

lemma createInstances_diverges:
  assumes k: "creates_fail k" and lt: "created < needed"
  shows "createInstances k sij tmpl limit needed used i created s = None"
proof -
  have "\<not> (k = k \<and> created < needed)"
    if run: "createInstances k sij tmpl limit needed used i created s = Some y" for y
  proof (rule createInstances.raw_induct [where P = "\<lambda>k' sij tmpl limit needed used i created s y.
        \<not> (k' = k \<and> created < needed)", OF _ run], rule notI)
    fix loop :: "'a kube \<Rightarrow> spot_job \<Rightarrow> instance_template \<Rightarrow> int \<Rightarrow> int \<Rightarrow> int list \<Rightarrow> int \<Rightarrow> int \<Rightarrow> 'a sys
       \<Rightarrow> (err \<times> 'a sys) option"
      and k' sij tmpl limit needed used i created s y
    assume IH: "\<And>k' sij tmpl limit needed used i created s y.
        loop k' sij tmpl limit needed used i created s = Some y \<Longrightarrow> \<not> (k' = k \<and> created < needed)"
      and eq: "(if needed \<le> created then Some (None, s)
      else Option.bind (nextFree used limit i) (\<lambda>i.
        Option.bind (timeNow k' s) (\<lambda>(now, s).
          let p = newInstance sij tmpl i now in
          case kSetCtrlRef k' (sjMeta sij) (piMeta p) of
            Inl e \<Rightarrow> Some (Some e, s)
          | Inr m \<Rightarrow> Option.bind (createPI k' (p\<lparr>piMeta := m\<rparr>) s) (\<lambda>(e, s).
              case e of
                Some x \<Rightarrow>
                  loop k' sij tmpl limit needed used (wrap32 (i + 1)) created s
              | None \<Rightarrow>
                  loop k' sij tmpl limit needed (i # used) (wrap32 (i + 1))
                    (wrap32 (created + 1)) s)))) = Some y"
      and *: "k' = k \<and> created < needed"
    obtain j where j: "nextFree used limit i = Some j"
      using eq * by (cases "nextFree used limit i") auto
    obtain now w1 where now: "kNow k (world s) = (now, w1)" by fastforce
    obtain m where m: "kSetCtrlRef k (sjMeta sij) (piMeta (newInstance sij tmpl j now)) = Inr m"
      using k unfolding creates_fail_def by blast
    obtain x w2 where cr: "kCreatePI k ((newInstance sij tmpl j now)\<lparr>piMeta := m\<rparr>) w1 = (Some x, w2)"
      using k unfolding creates_fail_def by (metis not_None_eq prod.collapse)
    from eq * j now m cr have "loop k sij tmpl limit needed used (wrap32 (j + 1)) created
        (s\<lparr>world := w2, trace := trace s @ [ACreatePI ((newInstance sij tmpl j now)\<lparr>piMeta := m\<rparr>) (Some x)]\<rparr>)
        = Some y"
      by (simp add: kread_def kcall_def Let_def)
    from IH [OF this] * show False by simp
  qed
  with lt show ?thesis by (cases "createInstances k sij tmpl limit needed used i created s") auto
qed

section \<open>The reconciliation\<close>

lemma emits_waitsForCheckpoint [yields_op]: "emits A (waitsForCheckpoint k sij pis)"
  unfolding waitsForCheckpoint_def [abs_def] by (intro yields_intro yields_op)

lemma countActive_nonneg: "length pis \<le> 2147483647 \<Longrightarrow> 0 \<le> countActive pis"
proof -
  assume "length pis \<le> 2147483647"
  moreover have "length (filter activePI pis) \<le> length pis" by simp
  ultimately have "length (filter activePI pis) \<le> 2147483647" by linarith
  then have "wrap32 (int (length (filter activePI pis))) = int (length (filter activePI pis))"
    by (intro wrap32_id) (simp add: in32_def)
  then show ?thesis by (simp add: countActive_def)
qed

lemma needed_wrap:
  "in32 d \<Longrightarrow> 0 \<le> c \<Longrightarrow> c < d \<Longrightarrow> wrap32 (d - c) = d - c"
  by (rule wrap32_id) (simp add: in32_def)

lemma usedIndices_eq: "set (usedIndices pis) = {i. \<exists>p \<in> set pis. \<not> preempted p
    \<and> (\<exists>str. mLabels (piMeta p) jobReplicaLabel = Some str \<and> parseInt32 str = Some i)}"
  by (induction pis) (auto split: option.splits)

lemma reconcile_instances_run:
  assumes law: "owners_only k"
    and pis: "kListPI k (mNamespace (sjMeta sij)) [(spotInstanceJobLabel, mName (sjMeta sij))] (world s)
      = (Inr pis, w)" "length pis \<le> 2147483647"
    and run: "reconcileProvisionedInstances k sij tmpl s = Some (r, s')"
  shows "\<exists>es. trace s' = trace s @ es \<and> (es = [] \<or>
     allocates k sij tmpl (wrap32 (desiredReplicas sij * 2)) (desiredReplicas sij - countActive pis)
       (usedIndices pis) 0 es)"
proof -
  let ?s = "s\<lparr>world := w\<rparr>"
  let ?rest = "\<lambda>s. Option.bind (waitsForCheckpoint k sij pis s) (\<lambda>(waits, s).
         if waits then Some (None, s)
         else if countActive pis < desiredReplicas sij
         then createInstances k sij tmpl (wrap32 (desiredReplicas sij * 2))
                (wrap32 (desiredReplicas sij - countActive pis)) (usedIndices pis) 0 0 s
         else Some (None, s))"
  have n32: "in32 (desiredReplicas sij - countActive pis)" if "countActive pis < desiredReplicas sij"
    using that in32_desiredReplicas [of sij] countActive_nonneg [OF pis(2)] by (auto simp: in32_def)
  from run pis(1) have "?rest ?s = Some (r, s')"
    by (simp add: reconcileProvisionedInstances_def kread_def)
  moreover have "yields ?rest (\<lambda>_ es. es = [] \<or>
     allocates k sij tmpl (wrap32 (desiredReplicas sij * 2)) (desiredReplicas sij - countActive pis)
       (usedIndices pis) 0 es)"
    using needed_wrap [OF in32_desiredReplicas countActive_nonneg [OF pis(2)]] n32
    by (intro yields_bind [OF yields_silent [OF emits_waitsForCheckpoint]] yields_if yields_ret
        yields_mono [OF yields_createInstances [OF law]]) (simp_all add: in32_def [of 0])
  ultimately show ?thesis by (auto elim!: yieldsE)
qed

lemma provisioning_run:
  assumes k: "owners_only k" "creates_succeed k"
    and d: "0 \<le> desiredReplicas sij" "desiredReplicas sij \<le> 1073741823"
    and pis: "kListPI k (mNamespace (sjMeta sij)) [(spotInstanceJobLabel, mName (sjMeta sij))] (world s)
      = (Inr pis, w)" "length pis \<le> 2147483647" "\<not> list_ex terminatedPI pis"
    and room: "int (card (set (usedIndices pis))) \<le> desiredReplicas sij + countActive pis"
  shows "\<exists>s' es. reconcileProvisionedInstances k sij tmpl s = Some (None, s') \<and> trace s' = trace s @ es
    \<and> createdIndices es = take (nat (desiredReplicas sij - countActive pis))
        (sorted_list_of_set ({0..<2 * desiredReplicas sij} - set (usedIndices pis)))
    \<and> length (createdIndices es) = nat (desiredReplicas sij - countActive pis)"
proof -
  let ?d = "desiredReplicas sij" and ?c = "countActive pis" and ?u = "usedIndices pis"
  let ?s = "s\<lparr>world := w\<rparr>"
  have d32: "in32 ?d" "in32 (?d * 2)" and lim: "wrap32 (?d * 2) = ?d * 2"
    using d by (auto simp: in32_def intro: wrap32_id)
  have c: "0 \<le> ?c" using pis(2) by (rule countActive_nonneg)
  have free: "free_in ?u 0 (?d * 2) = {0..<2 * ?d} - set ?u" by (auto simp: free_in_def)
  show ?thesis
  proof (cases "?c < ?d")
    case False
    with pis(1,3) show ?thesis
      by (auto simp: reconcileProvisionedInstances_def waitsForCheckpoint_def kread_def)
  next
    case True
    have n: "wrap32 (?d - ?c) = ?d - ?c" using needed_wrap [OF d32(1) c True] .
    have "nat (?d * 2) \<le> card (free_in ?u 0 (?d * 2)) + card (set ?u)"
      using d(1) by (intro card_free_in_ge) simp
    with room True have fits: "nat (?d - ?c) \<le> card (free_in ?u 0 (?d * 2))" by linarith
    have "in32 (?d - ?c)" using True c d by (simp add: in32_def)
    from createInstances_succeeds [OF k this d32(2), of 0 0 ?u sij tmpl ?s] fits True
    obtain s' es where run: "createInstances k sij tmpl (?d * 2) (?d - ?c) ?u 0 0 ?s = Some (None, s')"
      and es: "trace s' = trace ?s @ es"
        "createdIndices es = take (nat (?d - ?c)) (sorted_list_of_set (free_in ?u 0 (?d * 2)))"
      by (auto simp: in32_def)
    from run pis(1,3) True n lim have "reconcileProvisionedInstances k sij tmpl s = Some (None, s')"
      by (simp add: reconcileProvisionedInstances_def waitsForCheckpoint_def kread_def)
    moreover from es(2) fits have "length (createdIndices es) = nat (?d - ?c)" by simp
    ultimately show ?thesis using es unfolding free by auto
  qed
qed

section \<open>Properties\<close>

text \<open>
  C18. One reconciliation of the instances only makes create calls, each
  for an instance of this SpotInstanceJob and its template; at most as many succeed as active
  instances are missing, whatever else fails; and below the index limit no two of them get
  the same replica index, nor one that an instance that is not preempted holds.
\<close>

theorem never_overprovisions:
  assumes law: "owners_only k"
    and pis: "kListPI k (mNamespace (sjMeta sij)) [(spotInstanceJobLabel, mName (sjMeta sij))] (world s)
      = (Inr pis, w)" "length pis \<le> 2147483647"
    and run: "reconcileProvisionedInstances k sij tmpl s = Some (r, s')"
    and tr: "trace s' = trace s @ es"
  shows "list_all (\<lambda>a. \<exists>i. createsInstance k sij tmpl i a) es
    \<and> int (length (createdIndices es)) \<le> max 0 (desiredReplicas sij - countActive pis)
    \<and> distinct (filter (\<lambda>i. i < wrap32 (desiredReplicas sij * 2)) (createdIndices es))
    \<and> (\<forall>i p. i \<in> set (createdIndices es) \<and> i < wrap32 (desiredReplicas sij * 2)
         \<and> p \<in> set pis \<and> \<not> preempted p \<longrightarrow> mLabels (piMeta p) jobReplicaLabel \<noteq> Some (showInt i))"
proof -
  from reconcile_instances_run [OF law pis run] tr
  have "allocates k sij tmpl (wrap32 (desiredReplicas sij * 2)) (desiredReplicas sij - countActive pis)
       (usedIndices pis) 0 es" by auto
  moreover have "i \<in> set (usedIndices pis)"
    if "in32 i" "p \<in> set pis" "\<not> preempted p" "mLabels (piMeta p) jobReplicaLabel = Some (showInt i)" for i p
    using that by (auto simp: usedIndices_eq)
  moreover have "in32 i" if "i \<in> set (createdIndices es)" for i
    using that by (rule createdIndices_in32)
  ultimately show ?thesis unfolding allocates_def by fastforce
qed

theorem never_overprovisions_witness:
  "\<exists>r s'. reconcileProvisionedInstances refKube exSIJ exTemplate \<lparr>world = restoreCluster, trace = []\<rparr> = Some (r, s')
     \<and> length (createdIndices (trace s')) \<le> 1"
proof -
  let ?s = "\<lparr>world = restoreCluster, trace = []\<rparr>"
  have list: "kListPI refKube (mNamespace (sjMeta exSIJ)) [(spotInstanceJobLabel, mName (sjMeta exSIJ))] (world ?s)
      = (Inr [exReadyPI], restoreCluster)"
    by (simp add: restoreCluster_def exReadyPI_def checkpoint_examples cluster_eval example_defs)
  have d: "desiredReplicas exSIJ = 2" by (simp add: desiredReplicas_def checkpoint_examples)
  have c: "countActive [exReadyPI] = 1"
    by (simp add: countActive_def activePI_def exReadyPI_def cluster_eval example_defs in32_def)
  have u: "usedIndices [exReadyPI] = [0]"
    by (simp add: preempted_def exReadyPI_def cluster_eval example_defs parseInt32_def
        parseUint_def digitVal_def)
  have "nextFree [0] 4 0 = Some 1"
    by (subst nextFree.simps, simp, subst nextFree.simps) (simp add: wrap32_def)
  then obtain r s' where run: "reconcileProvisionedInstances refKube exSIJ exTemplate ?s = Some (r, s')"
    using list d c u
    by (auto simp: reconcileProvisionedInstances_def waitsForCheckpoint_def kread_def kcall_def Let_def
        terminatedPI_def wrap32_def newInstance_def createInstances.simps exReadyPI_def restoreCluster_def
        refCreate_def named_def cluster_eval example_defs checkpoint_examples)
  from never_overprovisions [OF owners_only_refKube list _ run, of "trace s'"] run c d show ?thesis
    by (simp add: in32_def)
qed

text \<open>
  C6. When create calls go through and no instance is terminated, the
  reconciliation returns without an error and has created exactly the missing instances,
  under the least free replica indices in increasing order, provided the indices in use leave
  room below twice the desired number.
\<close>

theorem provisions_exactly:
  assumes k: "owners_only k" "creates_succeed k"
    and d: "0 \<le> desiredReplicas sij" "desiredReplicas sij \<le> 1073741823"
    and pis: "kListPI k (mNamespace (sjMeta sij)) [(spotInstanceJobLabel, mName (sjMeta sij))] (world s)
      = (Inr pis, w)" "length pis \<le> 2147483647" "\<not> list_ex terminatedPI pis"
    and room: "int (card (set (usedIndices pis))) \<le> desiredReplicas sij + countActive pis"
  shows "\<exists>s' es. reconcileProvisionedInstances k sij tmpl s = Some (None, s') \<and> trace s' = trace s @ es
    \<and> createdIndices es = take (nat (desiredReplicas sij - countActive pis))
        (sorted_list_of_set ({0..<2 * desiredReplicas sij} - set (usedIndices pis)))
    \<and> length (createdIndices es) = nat (desiredReplicas sij - countActive pis)"
  by (rule provisioning_run [OF assms])

text \<open>A reference client that takes every create call.\<close>

definition openKube :: "cluster kube" where
  "openKube = refKube\<lparr>kCreatePI := (\<lambda>p c. (None, c\<lparr>clPIs := clPIs c @ [p]\<rparr>))\<rparr>"

lemma openKube_laws: "owners_only openKube" "creates_succeed openKube"
  by (auto simp: owners_only_def creates_succeed_def openKube_def)

theorem provisions_exactly_witness:
  "\<exists>s'. reconcileProvisionedInstances openKube exSIJ exTemplate \<lparr>world = exCluster, trace = []\<rparr> = Some (None, s')
     \<and> length (createdIndices (trace s')) = 2"
proof -
  have d: "desiredReplicas exSIJ = 2" by (simp add: desiredReplicas_def checkpoint_examples)
  have list: "kListPI openKube (mNamespace (sjMeta exSIJ)) [(spotInstanceJobLabel, mName (sjMeta exSIJ))]
      (world \<lparr>world = exCluster, trace = []\<rparr>) = (Inr [], exCluster)"
    by (simp add: openKube_def cluster_eval example_defs)
  have c: "countActive [] = 0" by (simp add: countActive_def in32_def)
  from provisions_exactly [OF openKube_laws _ _ list, of exTemplate] d c show ?thesis by auto
qed

text \<open>
  C35. When every create call fails, as under an exhausted quota, the
  reconciliation of a SpotInstanceJob that misses an instance never comes back: the loop
  retries with the next index for ever, and nothing bounds it.
\<close>

theorem creation_never_ends:
  assumes k: "creates_fail k"
    and d: "countActive pis < desiredReplicas sij"
    and pis: "kListPI k (mNamespace (sjMeta sij)) [(spotInstanceJobLabel, mName (sjMeta sij))] (world s)
      = (Inr pis, w)" "length pis \<le> 2147483647" "\<not> list_ex terminatedPI pis"
  shows "reconcileProvisionedInstances k sij tmpl s = None"
proof -
  have n: "wrap32 (desiredReplicas sij - countActive pis) = desiredReplicas sij - countActive pis"
    by (rule needed_wrap [OF in32_desiredReplicas countActive_nonneg [OF pis(2)] d])
  have "createInstances k sij tmpl (wrap32 (desiredReplicas sij * 2))
      (desiredReplicas sij - countActive pis) (usedIndices pis) 0 0 (s\<lparr>world := w\<rparr>) = None"
    using d by (intro createInstances_diverges [OF k]) simp
  with n pis(1,3) d show ?thesis
    by (simp add: reconcileProvisionedInstances_def waitsForCheckpoint_def kread_def)
qed

theorem creation_never_ends_witness:
  "reconcileProvisionedInstances (refKube\<lparr>kCreatePI := (\<lambda>p c. (Some (errorf ''exceeded quota''), c))\<rparr>)
     exSIJ exTemplate \<lparr>world = exCluster, trace = []\<rparr> = None"
proof (rule creation_never_ends)
  show "creates_fail (refKube\<lparr>kCreatePI := (\<lambda>p c. (Some (errorf ''exceeded quota''), c))\<rparr>)"
    by (simp add: creates_fail_def)
  show "countActive [] < desiredReplicas exSIJ"
    by (simp add: countActive_def in32_def desiredReplicas_def checkpoint_examples)
  show "kListPI (refKube\<lparr>kCreatePI := (\<lambda>p c. (Some (errorf ''exceeded quota''), c))\<rparr>)
      (mNamespace (sjMeta exSIJ)) [(spotInstanceJobLabel, mName (sjMeta exSIJ))]
      (world \<lparr>world = exCluster, trace = []\<rparr>) = (Inr [], exCluster)"
    by (simp add: cluster_eval example_defs)
qed simp_all

text \<open>
  C36. An instance whose machine reports STAGING, REPAIRING, SUSPENDING or
  SUSPENDED and has no preemption notice is not counted as active, but it keeps its index: when
  it is the only instance listed, under index 0, for one desired replica, a second instance is
  created, with index 1.
\<close>

theorem staging_not_counted:
  assumes k: "owners_only k" "creates_succeed k" and d: "desiredReplicas sij = 1"
    and p: "piState (piStatus p) \<in> {''STAGING'', ''REPAIRING'', ''SUSPENDING'', ''SUSPENDED''}"
      "\<not> piPreemptionNotice (piStatus p)"
      "mLabels (piMeta p) jobReplicaLabel = Some ''0''"
    and list: "kListPI k (mNamespace (sjMeta sij)) [(spotInstanceJobLabel, mName (sjMeta sij))] (world s)
      = (Inr [p], w)"
  shows "\<exists>s' es. reconcileProvisionedInstances k sij tmpl s = Some (None, s')
    \<and> trace s' = trace s @ es \<and> createdIndices es = [1]"
proof -
  have c: "countActive [p] = 0" using p(1) by (auto simp: countActive_def activePI_def in32_def)
  have u: "usedIndices [p] = [0]"
    using p by (auto simp: preempted_def parseInt32_def parseUint_def digitVal_def)
  have t: "\<not> list_ex terminatedPI [p]" using p(1) by (auto simp: terminatedPI_def)
  have "{0..<2} - {0 :: int} = {1}" by auto
  then have "sorted_list_of_set ({0..<2} - {0 :: int}) = [1]" by simp
  with provisioning_run [OF k _ _ list _ t, of tmpl] d c u show ?thesis
    by (simp del: usedIndices.simps) blast
qed

theorem staging_not_counted_witness:
  "\<exists>s'. reconcileProvisionedInstances openKube (exSIJ\<lparr>sjSpec := exSpec\<lparr>sjReplicas := Some 1\<rparr>\<rparr>) exTemplate
       \<lparr>world = exCluster\<lparr>clPIs := [exReadyPI\<lparr>piStatus := noPIStatus\<lparr>piState := ''STAGING''\<rparr>\<rparr>]\<rparr>, trace = []\<rparr>
     = Some (None, s') \<and> createdIndices (trace s') = [1]"
proof -
  let ?p = "exReadyPI\<lparr>piStatus := noPIStatus\<lparr>piState := ''STAGING''\<rparr>\<rparr>"
  let ?sij = "exSIJ\<lparr>sjSpec := exSpec\<lparr>sjReplicas := Some 1\<rparr>\<rparr>"
  have d: "desiredReplicas ?sij = 1" by (simp add: desiredReplicas_def in32_def)
  have p: "piState (piStatus ?p) \<in> {''STAGING'', ''REPAIRING'', ''SUSPENDING'', ''SUSPENDED''}"
    "\<not> piPreemptionNotice (piStatus ?p)"
    "mLabels (piMeta ?p) jobReplicaLabel = Some ''0''"
    by (simp_all add: exReadyPI_def noPIStatus_def)
  have list: "kListPI openKube (mNamespace (sjMeta ?sij)) [(spotInstanceJobLabel, mName (sjMeta ?sij))]
      (world \<lparr>world = exCluster\<lparr>clPIs := [?p]\<rparr>, trace = []\<rparr>) = (Inr [?p], exCluster\<lparr>clPIs := [?p]\<rparr>)"
    by (simp add: openKube_def exReadyPI_def exSIJ_def cluster_eval example_defs)
  from staging_not_counted [OF openKube_laws d p list] show ?thesis by simp
qed

end
