(* ===== verification/JobReplicas.thy ===== *)
theory JobReplicas
  imports Instances
begin

text \<open>
  The replica loop (\<^verbatim>\<open>reconcileJobReplicas\<close> of
  \<^verbatim>\<open>internal/controller/spotinstancejob_job.go\<close>): which replica indices already have a
  job, and the loop that creates the missing ones on machines that have joined.
\<close>

section \<open>Indices that have a job\<close>

definition parsedIndex :: "labels \<Rightarrow> int option" where
  "parsedIndex ls = (case ls jobReplicaLabel of None \<Rightarrow> None | Some str \<Rightarrow> parseInt32 str)"

definition liveJob :: "job \<Rightarrow> bool" where
  "liveJob j \<longleftrightarrow> 0 < jActive j \<or> 0 < jSucceeded j \<or> hasCheckpointUpdated (jMeta j)"

text \<open>
  A job deleted less than ten seconds ago still holds its index; the clock is read anew for
  every deleted job.
\<close>

fun scanJobs :: "'w kube \<Rightarrow> job list \<Rightarrow> int list \<Rightarrow> 'w sys \<Rightarrow> (int list \<times> 'w sys) option" where
  "scanJobs k [] used s = Some (used, s)"
| "scanJobs k (j # js) used s =
     (case mDeletionTimestamp (jMeta j) of
        Some t \<Rightarrow> Option.bind (timeNow k s) (\<lambda>(now, s).
          scanJobs k js
            (if now - t < seconds 10
             then (case parsedIndex (mLabels (jMeta j)) of
                     None \<Rightarrow> used | Some i \<Rightarrow> List.insert i used)
             else used) s)
      | None \<Rightarrow>
          (let i = replicaIndexOf (- 1) (mLabels (jMeta j)) in
           scanJobs k js (if liveJob j \<and> 0 \<le> i then List.insert i used else used) s))"

section \<open>One replica index\<close>

text \<open>The jobs found for one index: the first that is live, or deleted just now, counts.\<close>

fun anyValidJob :: "'w kube \<Rightarrow> job list \<Rightarrow> 'w sys \<Rightarrow> (bool \<times> 'w sys) option" where
  "anyValidJob k [] s = Some (False, s)"
| "anyValidJob k (j # js) s =
     (case mDeletionTimestamp (jMeta j) of
        Some t \<Rightarrow> Option.bind (timeNow k s) (\<lambda>(now, s).
          if now - t < seconds 10 then Some (True, s) else anyValidJob k js s)
      | None \<Rightarrow> (if liveJob j then Some (True, s) else anyValidJob k js s))"

definition indexHasJob ::
    "'w kube \<Rightarrow> spot_job \<Rightarrow> int \<Rightarrow> 'w sys \<Rightarrow> (bool \<times> 'w sys) option" where
  "indexHasJob k sij i s = do {
     (r, s) \<leftarrow> listJob k (mNamespace (sjMeta sij)) (replicaSelector sij i) s;
     case r of
       Inl _ \<Rightarrow> Some (False, s)
     | Inr jobs \<Rightarrow> anyValidJob k jobs s
   }"

fun selectActivePI :: "prov_instance list \<Rightarrow> prov_instance option" where
  "selectActivePI [] = None"
| "selectActivePI (p # ps) = (if preempted p then selectActivePI ps else Some p)"

interpretation active: first_match selectActivePI "\<lambda>p. \<not> preempted p"
  by unfold_locales auto

text \<open>
  Whether the machine of an index lets a job be created: the first one not preempted must
  have joined. A failed listing does not hold the job back.
\<close>

definition machineReady ::
    "'w kube \<Rightarrow> spot_job \<Rightarrow> int \<Rightarrow> 'w sys \<Rightarrow> (bool \<times> 'w sys) option" where
  "machineReady k sij i s = do {
     (r, s) \<leftarrow> listPI k (mNamespace (sjMeta sij)) (replicaSelector sij i) s;
     case r of
       Inl _ \<Rightarrow> Some (True, s)
     | Inr pis \<Rightarrow> (case selectActivePI pis of
         None \<Rightarrow> Some (False, s)
       | Some p \<Rightarrow> Some (piJoinedCluster (piStatus p) \<and> piNodeName (piStatus p) \<noteq> [], s))
   }"

datatype attempt = HasJob | NotReady | CreateFailed | Created

definition replicaJobName :: "spot_job \<Rightarrow> int \<Rightarrow> int \<Rightarrow> string" where
  "replicaJobName sij i now =
     mName (sjMeta sij) @ ''-replica-'' @ showInt i @ ''-'' @ showInt (unixSeconds now)"

definition tryReplica ::
    "'w kube \<Rightarrow> spot_job \<Rightarrow> int \<Rightarrow> 'w sys \<Rightarrow> ((attempt \<times> spot_job) \<times> 'w sys) option" where
  "tryReplica k sij i s = do {
     (has, s) \<leftarrow> indexHasJob k sij i s;
     if has then Some ((HasJob, sij), s)
     else do {
       (ready, s) \<leftarrow> machineReady k sij i s;
       if \<not> ready then Some ((NotReady, sij), s)
       else do {
         (now, s) \<leftarrow> timeNow k s;
         ((e, sij), s) \<leftarrow> createJobReplica k sij (replicaJobName sij i now) i s;
         Some ((if e = None then Created else CreateFailed, sij), s)
       }
     }
   }"

section \<open>The loop\<close>

partial_function (option) jobLoop ::
    "'w kube \<Rightarrow> int \<Rightarrow> int \<Rightarrow> spot_job \<Rightarrow> int list \<Rightarrow> int \<Rightarrow> int \<Rightarrow> int \<Rightarrow> 'w sys
       \<Rightarrow> (spot_job \<times> 'w sys) option" where
  "jobLoop k limit needed sij used i created skipped s =
     (if needed \<le> created \<or> limit \<le> i then Some (sij, s)
      else Option.bind (nextFree used limit i) (\<lambda>i.
        if limit \<le> i then Some (sij, s)
        else Option.bind (tryReplica k sij i s) (\<lambda>((a, sij), s).
          case a of
            HasJob \<Rightarrow> jobLoop k limit needed sij (i # used) (wrap32 (i + 1)) created skipped s
          | NotReady \<Rightarrow>
              (if limit \<le> wrap32 (skipped + 1) then Some (sij, s)
               else jobLoop k limit needed sij used (wrap32 (i + 1)) created
                      (wrap32 (skipped + 1)) s)
          | CreateFailed \<Rightarrow> jobLoop k limit needed sij used (wrap32 (i + 1)) created skipped s
          | Created \<Rightarrow>
              jobLoop k limit needed sij (i # used) (wrap32 (i + 1)) (wrap32 (created + 1)) 0 s)))"

declare jobLoop.simps [code]

definition reconcileJobReplicas ::
    "'w kube \<Rightarrow> spot_job \<Rightarrow> 'w sys \<Rightarrow> ((err \<times> spot_job) \<times> 'w sys) option" where
  "reconcileJobReplicas k sij s = do {
     (r, s) \<leftarrow> listJob k (mNamespace (sjMeta sij)) [(spotInstanceJobLabel, mName (sjMeta sij))] s;
     case r of
       Inl e \<Rightarrow> Some ((Some e, sij), s)
     | Inr jobs \<Rightarrow> do {
         (r, s) \<leftarrow> hasPendingCheckpoints k sij s;
         if r = Inr True then Some ((None, sij), s)
         else do {
           (used, s) \<leftarrow> scanJobs k jobs [] s;
           let count = wrap32 (int (length used));
           if count < desiredReplicas sij
           then do {
             (sij, s) \<leftarrow> jobLoop k (wrap32 (desiredReplicas sij * 2))
                          (wrap32 (desiredReplicas sij - count)) sij used 0 0 0 s;
             Some ((None, sij), s)
           }
           else Some ((None, sij), s)
         }
       }
   }"

section \<open>Reading the jobs\<close>

lemma parsedIndex_in32: "parsedIndex ls = Some i \<Longrightarrow> in32 i"
  by (auto simp: parsedIndex_def split: option.splits dest: parseInt32_range)

lemma yields_scanJobs:
  "yields (scanJobs k js used) (\<lambda>r es. es = [] \<and> set used \<subseteq> set r \<and> length r \<le> length used + length js
     \<and> (\<forall>j. j \<in> set js \<and> mDeletionTimestamp (jMeta j) = None \<and> liveJob j
          \<and> 0 \<le> replicaIndexOf (- 1) (mLabels (jMeta j))
          \<longrightarrow> replicaIndexOf (- 1) (mLabels (jMeta j)) \<in> set r))"
proof (induction js arbitrary: used)
  case Nil
  show ?case unfolding scanJobs.simps(1) [abs_def] by (rule yields_ret) simp
next
  case (Cons j js)
  note IH = yields_mono [OF Cons]
  show ?case unfolding scanJobs.simps(2) [abs_def] Let_def
    by (intro yields_option yields_bind [OF yields_kread] IH)
      (auto simp: List.insert_def split: if_splits option.splits)
qed

lemma returns_scanJobs [returns_intro]: "returns (scanJobs k js used)"
proof (induction js arbitrary: used)
  case Nil
  show ?case unfolding scanJobs.simps(1) [abs_def] by (intro returns_intro)
next
  case (Cons j js)
  show ?case unfolding scanJobs.simps(2) [abs_def] by (intro returns_intro Cons)
qed

lemma emits_anyValidJob [yields_op]: "emits A (anyValidJob k js)"
proof (induction js)
  case Nil
  show ?case unfolding anyValidJob.simps(1) [abs_def] by (intro yields_intro)
next
  case (Cons j js)
  show ?case unfolding anyValidJob.simps(2) [abs_def] by (intro yields_intro yields_op Cons)
qed

lemma returns_anyValidJob [returns_intro]: "returns (anyValidJob k js)"
proof (induction js)
  case Nil
  show ?case unfolding anyValidJob.simps(1) [abs_def] by (intro returns_intro)
next
  case (Cons j js)
  show ?case unfolding anyValidJob.simps(2) [abs_def] by (intro returns_intro Cons)
qed

lemma emits_indexHasJob [yields_op]: "emits A (indexHasJob k sij i)"
  unfolding indexHasJob_def [abs_def] by (intro yields_intro yields_op)

lemma returns_indexHasJob [returns_intro]: "returns (indexHasJob k sij i)"
  unfolding indexHasJob_def [abs_def] by (intro returns_intro)

section \<open>One attempt\<close>

text \<open>
  What lets a job of an index start: its instances could not be listed, or the first one
  that is not preempted has joined the cluster.
\<close>

definition mayStart :: "'w kube \<Rightarrow> spot_job \<Rightarrow> int \<Rightarrow> bool" where
  "mayStart k sij i \<longleftrightarrow> (\<exists>w r w'.
     kListPI k (mNamespace (sjMeta sij)) (replicaSelector sij i) w = (r, w')
     \<and> (case r of Inl _ \<Rightarrow> True
        | Inr pis \<Rightarrow> (\<exists>p. selectActivePI pis = Some p \<and> piJoinedCluster (piStatus p)
             \<and> piNodeName (piStatus p) \<noteq> [])))"

lemma mayStart_same: "sameJob a b \<Longrightarrow> mayStart k b i \<longleftrightarrow> mayStart k a i"
  by (simp add: mayStart_def replicaSelector_same sameJob_fields)

lemma yields_machineReady:
  "yields (machineReady k sij i) (\<lambda>r es. es = [] \<and> (r \<longrightarrow> mayStart k sij i))"
proof -
  have 1: "mayStart k sij i" if "kListPI k (mNamespace (sjMeta sij)) (replicaSelector sij i) w = (Inl e, w')"
    for w e w'
    using that unfolding mayStart_def by (intro exI [of _ w] exI [of _ "Inl e"] exI [of _ w']) simp
  have 2: "mayStart k sij i" if "kListPI k (mNamespace (sjMeta sij)) (replicaSelector sij i) w = (Inr pis, w')"
    "selectActivePI pis = Some p" "piJoinedCluster (piStatus p)" "piNodeName (piStatus p) \<noteq> []"
    for w pis w' p
    using that unfolding mayStart_def by (intro exI [of _ w] exI [of _ "Inr pis"] exI [of _ w']) simp
  show ?thesis
    unfolding machineReady_def [abs_def]
    by (intro yields_bind [OF yields_kread_val] yields_sum yields_option yields_ret)
      (auto intro: 1 2)
qed

lemma returns_machineReady [returns_intro]: "returns (machineReady k sij i)"
  unfolding machineReady_def [abs_def] by (intro returns_intro)

text \<open>The create call for the replica of index i.\<close>

definition startsReplica :: "'w kube \<Rightarrow> spot_job \<Rightarrow> int \<Rightarrow> action \<Rightarrow> bool" where
  "startsReplica k sij i a \<longleftrightarrow> mayStart k sij i
     \<and> (\<exists>now j e. a = ACreateJob j e \<and> replicaOf k sij (replicaJobName sij i now) i j)"

lemma startsReplica_same: "sameJob a b \<Longrightarrow> startsReplica k b i x \<longleftrightarrow> startsReplica k a i x"
  by (simp add: startsReplica_def mayStart_same replicaOf_same replicaJobName_def sameJob_fields)

definition attempts :: "'w kube \<Rightarrow> spot_job \<Rightarrow> int \<Rightarrow> attempt \<times> spot_job \<Rightarrow> action list \<Rightarrow> bool" where
  "attempts k sij i r es \<longleftrightarrow> sameJob sij (snd r) \<and>
     (case fst r of
        Created \<Rightarrow> (\<exists>j. es = [ACreateJob j None] \<and> startsReplica k sij i (ACreateJob j None))
      | CreateFailed \<Rightarrow> es = [] \<or>
          (\<exists>j x. es = [ACreateJob j (Some x)] \<and> startsReplica k sij i (ACreateJob j (Some x)))
      | _ \<Rightarrow> es = [])"

lemma attempts_same: "attempts k sij i (a, sij') es \<Longrightarrow> sameJob sij sij'"
  by (simp add: attempts_def)

lemma attempts_waits: "attempts k sij i (NotReady, sij') es \<Longrightarrow> es = []"
  by (simp add: attempts_def)

lemma attempts_replica:
  "mayStart k sij i \<Longrightarrow>
   createsReplica k sij (replicaJobName sij i now) i (e, sij') es
   \<Longrightarrow> attempts k sij i (if e = None then Created else CreateFailed, sij') es"
  by (cases e) (auto simp: attempts_def createsReplica_def startsReplica_def)

lemma yields_tryReplica: "yields (tryReplica k sij i) (attempts k sij i)"
  unfolding tryReplica_def [abs_def]
  by (intro yields_bind [OF yields_silent [OF emits_indexHasJob]] yields_if yields_ret
      yields_bind [OF yields_machineReady] yields_bind [OF yields_kread]
      yields_bind [OF yields_createJobReplica] yields_pair)
    (auto dest: attempts_replica simp: attempts_def [of _ _ _ _ "[]"])

lemma returns_tryReplica [returns_intro]: "returns (tryReplica k sij i)"
  unfolding tryReplica_def [abs_def] by (intro returns_intro)

section \<open>The loop\<close>

text \<open>The indices of the jobs created with success.\<close>

fun createdJobIndices :: "action list \<Rightarrow> int list" where
  "createdJobIndices [] = []"
| "createdJobIndices (ACreateJob j None # es) =
     replicaIndexOf (- 1) (mLabels (jMeta j)) # createdJobIndices es"
| "createdJobIndices (_ # es) = createdJobIndices es"

lemma createdJobIndices_append [simp]:
  "createdJobIndices (xs @ ys) = createdJobIndices xs @ createdJobIndices ys"
  by (induction xs rule: createdJobIndices.induct) simp_all

lemma replicaOf_index:
  assumes "owners_only k" "in32 i" "replicaOf k sij nm i j"
  shows "replicaIndexOf (- 1) (mLabels (jMeta j)) = i"
proof -
  from assms(3) have "mLabels (jMeta j) = withReplicaLabels sij i Map.empty"
    using owners_onlyD(3) [OF assms(1)] unfolding replicaOf_def by fastforce
  with assms(2) show ?thesis by (simp add: withReplicaLabels_def)
qed

text \<open>
  What a run of the loop from index i may do: create calls for indices from i up to the
  limit that are free, the successes in increasing order and no more than are missing.
\<close>

definition startsReplicas ::
    "'w kube \<Rightarrow> int \<Rightarrow> int \<Rightarrow> spot_job \<Rightarrow> int list \<Rightarrow> int \<Rightarrow> int \<Rightarrow> action list \<Rightarrow> bool" where
  "startsReplicas k limit needed sij used i created es \<longleftrightarrow>
     list_all (\<lambda>a. \<exists>i'. i \<le> i' \<and> i' < limit \<and> startsReplica k sij i' a) es
     \<and> sorted_wrt (<) (createdJobIndices es)
     \<and> (\<forall>x \<in> set (createdJobIndices es). i \<le> x \<and> x < limit \<and> x \<notin> set used)
     \<and> int (length (createdJobIndices es)) \<le> max 0 (needed - created)"

lemma startsReplicas_Nil [simp]: "startsReplicas k limit needed sij used i created []"
  by (simp add: startsReplicas_def)

lemma startsReplicas_later:
  assumes "startsReplicas k limit needed sij used' i' created es" "i \<le> i'" "set used \<subseteq> set used'"
  shows "startsReplicas k limit needed sij used i created es"
  using assms unfolding startsReplicas_def
  by (auto simp: list_all_iff) (metis order_trans)+

lemma startsReplicas_failed:
  assumes "startsReplica k sij i' (ACreateJob j (Some x))" "i \<le> i'" "i' < limit"
    "startsReplicas k limit needed sij used i created es"
  shows "startsReplicas k limit needed sij used i created (ACreateJob j (Some x) # es)"
  using assms by (auto simp: startsReplicas_def)

lemma startsReplicas_created:
  assumes law: "owners_only k" and i': "startsReplica k sij i' (ACreateJob j None)" "i \<le> i'" "i' < limit"
      "in32 i'" "i' \<notin> set used" "created < needed"
    and es: "startsReplicas k limit needed sij (i' # used) (i' + 1) (created + 1) es"
  shows "startsReplicas k limit needed sij used i created (ACreateJob j None # es)"
proof -
  from i'(1) replicaOf_index [OF law i'(4)] have "replicaIndexOf (- 1) (mLabels (jMeta j)) = i'"
    by (auto simp: startsReplica_def)
  moreover from es have "list_all (\<lambda>a. \<exists>i'. i \<le> i' \<and> i' < limit \<and> startsReplica k sij i' a) es"
    using i'(2) unfolding startsReplicas_def by (auto elim!: list.pred_mono_strong) (metis add_increasing2 less_imp_le order_trans zero_le_one zle_add1_eq_le)
  ultimately show ?thesis using es i' by (fastforce simp: startsReplicas_def)
qed

lemma startsReplicas_same:
  "sameJob a b \<Longrightarrow> startsReplicas k limit needed b used i created es
     \<longleftrightarrow> startsReplicas k limit needed a used i created es"
  by (simp add: startsReplicas_def startsReplica_same)

text \<open>One step of the loop, at the index the scan ends on.\<close>

lemma jobLoop_at:
  assumes "created < needed" "i < limit" "nextFree used limit i = Some j"
  shows "jobLoop k limit needed sij used i created skipped =
    (\<lambda>s. if limit \<le> j then Some (sij, s)
      else Option.bind (tryReplica k sij j s) (\<lambda>((a, sij), s).
          case a of
            HasJob \<Rightarrow> jobLoop k limit needed sij (j # used) (wrap32 (j + 1)) created skipped s
          | NotReady \<Rightarrow>
              (if limit \<le> wrap32 (skipped + 1) then Some (sij, s)
               else jobLoop k limit needed sij used (wrap32 (j + 1)) created
                      (wrap32 (skipped + 1)) s)
          | CreateFailed \<Rightarrow> jobLoop k limit needed sij used (wrap32 (j + 1)) created skipped s
          | Created \<Rightarrow>
              jobLoop k limit needed sij (j # used) (wrap32 (j + 1)) (wrap32 (created + 1)) 0 s))"
  by (rule ext, subst jobLoop.simps) (use assms in simp)

lemma jobLoop_end:
  "needed \<le> created \<or> limit \<le> i \<Longrightarrow> jobLoop k limit needed sij used i created skipped = (\<lambda>s. Some (sij, s))"
  by (rule ext, subst jobLoop.simps) simp

lemma yields_attempt:
  "(a = HasJob \<Longrightarrow> yields f1 Q) \<Longrightarrow> (a = NotReady \<Longrightarrow> yields f2 Q) \<Longrightarrow> (a = CreateFailed \<Longrightarrow> yields f3 Q) \<Longrightarrow>
   (a = Created \<Longrightarrow> yields f4 Q) \<Longrightarrow>
   yields (\<lambda>s. case a of HasJob \<Rightarrow> f1 s | NotReady \<Rightarrow> f2 s | CreateFailed \<Rightarrow> f3 s | Created \<Rightarrow> f4 s) Q"
  by (cases a) simp_all

lemma returns_attempt:
  "returns f1 \<Longrightarrow> returns f2 \<Longrightarrow> returns f3 \<Longrightarrow> returns f4 \<Longrightarrow>
   returns (\<lambda>s. case a of HasJob \<Rightarrow> f1 s | NotReady \<Rightarrow> f2 s | CreateFailed \<Rightarrow> f3 s | Created \<Rightarrow> f4 s)"
  by (cases a) simp_all

lemma returns_jobLoop:
  assumes "in32 limit" "in32 i"
  shows "returns (jobLoop k limit needed sij used i created skipped)"
  using assms
proof (induction "nat (limit - i)" arbitrary: sij used i created skipped rule: less_induct)
  case less
  show ?case
  proof (cases "needed \<le> created \<or> limit \<le> i")
    case True
    then show ?thesis by (simp add: jobLoop_end returns_ret)
  next
    case False
    with nextFree_below [OF less.prems(2,1), of used] obtain j
      where j: "nextFree used limit i = Some j" "i \<le> j" "j \<le> limit" by auto
    from nextFree_result [OF j(1)] less.prems have j32: "in32 j" by simp
    have rec: "returns (jobLoop k limit needed sij used' (wrap32 (j + 1)) created' skipped')"
      if "\<not> limit \<le> j" for sij used' created' skipped'
    proof -
      from that less.prems j32 have w: "wrap32 (j + 1) = j + 1" "in32 (j + 1)"
        by (auto simp: in32_def intro: wrap32_id)
      with that j(2) show ?thesis by (simp add: less.hyps less.prems(1))
    qed
    from False show ?thesis
      by (subst jobLoop_at [OF _ _ j(1)])
        (auto intro!: returns_if returns_ret returns_bind returns_tryReplica returns_pair returns_attempt rec)
  qed
qed

lemma yields_jobLoop:
  assumes law: "owners_only k" and n: "in32 limit" "in32 needed"
  shows "in32 i \<Longrightarrow> 0 \<le> created \<Longrightarrow> yields (jobLoop k limit needed sij used i created skipped)
     (\<lambda>r es. sameJob sij r \<and> startsReplicas k limit needed sij used i created es)"
proof (induction "nat (limit - i)" arbitrary: sij used i created skipped rule: less_induct)
  case less
  show ?case
  proof (cases "needed \<le> created \<or> limit \<le> i")
    case True
    then show ?thesis by (simp add: jobLoop_end yields_ret)
  next
    case False
    with nextFree_below [OF less.prems(1) n(1), of used] obtain j
      where j: "nextFree used limit i = Some j" "i \<le> j" "j \<le> limit" by auto
    from nextFree_result [OF j(1)] less.prems have j32: "in32 j" and free: "j \<notin> set used \<or> limit \<le> j" by auto
    have c: "wrap32 (created + 1) = created + 1"
      using False n(2) less.prems(2) by (intro wrap32_id) (auto simp: in32_def)
    have rec: "yields (jobLoop k limit needed sij' used' (wrap32 (j + 1)) created' skipped')
        (\<lambda>r es. sameJob sij r \<and> startsReplicas k limit needed sij used' (j + 1) created' es)"
      if "\<not> limit \<le> j" "sameJob sij sij'" "0 \<le> created'" for sij' used' created' skipped'
    proof -
      from that(1) n(1) j32 have w: "wrap32 (j + 1) = j + 1" "in32 (j + 1)"
        by (auto simp: in32_def intro: wrap32_id)
      with that(1) j(2) have "yields (jobLoop k limit needed sij' used' (j + 1) created' skipped')
        (\<lambda>r es. sameJob sij' r \<and> startsReplicas k limit needed sij' used' (j + 1) created' es)"
        by (intro less.hyps) (simp_all add: that(3))
      then show ?thesis unfolding w(1)
        by (rule yields_mono) (use that(2) in \<open>auto intro: sameJob_trans simp: startsReplicas_same\<close>)
    qed
    let ?Q = "\<lambda>r es. sameJob sij r \<and> startsReplicas k limit needed sij used i created es"
    from False have lt: "created < needed" "i < limit" by auto
    have after: "startsReplicas k limit needed sij used i created (es1 @ es2)"
      if "attempts k sij j (a, sij') es1" "j < limit"
        "startsReplicas k limit needed sij (if a \<in> {HasJob, Created} then j # used else used) (j + 1)
           (if a = Created then created + 1 else created) es2" for a sij' es1 es2
      using that j(2) j32 free lt
        startsReplicas_later [OF that(3), of i used]
      by (cases a) (auto simp: attempts_def intro: startsReplicas_failed startsReplicas_created [OF law])
    note cases = after [of HasJob, simplified] after [of NotReady, simplified]
      after [of CreateFailed, simplified] after [of Created, simplified]
    show ?thesis
      by (subst jobLoop_at [OF lt j(1)],
        intro yields_if yields_ret yields_bind [OF yields_tryReplica] yields_pair yields_attempt
          yields_mono [OF rec])
        (use less.prems(2) in \<open>auto simp: c not_le dest: attempts_same attempts_waits intro: cases\<close>)
  qed
qed

section \<open>The reconciliation\<close>

lemma returns_reconcileJobReplicas [returns_intro]:
  "returns (reconcileJobReplicas k sij)"
  unfolding reconcileJobReplicas_def [abs_def] Let_def
  by (intro returns_intro returns_jobLoop) (simp_all add: in32_def [of 0])

lemma yields_reconcileJobReplicas:
  assumes "owners_only k"
  shows "yields (reconcileJobReplicas k sij) (\<lambda>r es. sameJob sij (snd r)
    \<and> list_all (\<lambda>a. \<exists>i. 0 \<le> i \<and> i < wrap32 (desiredReplicas sij * 2) \<and> startsReplica k sij i a) es)"
  unfolding reconcileJobReplicas_def [abs_def] Let_def
  by (intro yields_bind [OF yields_kread] yields_sum yields_ret yields_if yields_pair
      yields_bind [OF yields_silent [OF emits_hasPendingCheckpoints]]
      yields_bind [OF yields_scanJobs] yields_bind [OF yields_jobLoop [OF assms]])
    (auto simp: startsReplicas_def in32_def [of 0])

text \<open>From the jobs listed on: the loop, with the number of indices that have a job.\<close>

lemma reconcileJobs_run:
  assumes law: "owners_only k"
    and jobs: "kListJob k (mNamespace (sjMeta sij)) [(spotInstanceJobLabel, mName (sjMeta sij))] (world s)
      = (Inr jobs, w)" "length jobs \<le> 2147483647"
    and run: "reconcileJobReplicas k sij s = Some (r, s')"
  shows "\<exists>es used. trace s' = trace s @ es \<and> fst r = None \<and> sameJob sij (snd r)
    \<and> startsReplicas k (wrap32 (desiredReplicas sij * 2)) (desiredReplicas sij) sij used 0 0 es
    \<and> (\<forall>j. j \<in> set jobs \<and> mDeletionTimestamp (jMeta j) = None \<and> liveJob j
          \<and> 0 \<le> replicaIndexOf (- 1) (mLabels (jMeta j))
          \<longrightarrow> replicaIndexOf (- 1) (mLabels (jMeta j)) \<in> set used)"
proof -
  let ?Q = "\<lambda>r es. \<exists>used. fst r = None \<and> sameJob sij (snd r)
    \<and> startsReplicas k (wrap32 (desiredReplicas sij * 2)) (desiredReplicas sij) sij used 0 0 es
    \<and> (\<forall>j. j \<in> set jobs \<and> mDeletionTimestamp (jMeta j) = None \<and> liveJob j
          \<and> 0 \<le> replicaIndexOf (- 1) (mLabels (jMeta j))
          \<longrightarrow> replicaIndexOf (- 1) (mLabels (jMeta j)) \<in> set used)"
  let ?rest = "\<lambda>s. Option.bind (hasPendingCheckpoints k sij s) (\<lambda>(r, s).
         if r = Inr True then Some ((None, sij), s)
         else Option.bind (scanJobs k jobs [] s) (\<lambda>(used, s).
           let count = wrap32 (int (length used)) in
           if count < desiredReplicas sij
           then Option.bind (jobLoop k (wrap32 (desiredReplicas sij * 2))
                          (wrap32 (desiredReplicas sij - count)) sij used 0 0 0 s)
                  (\<lambda>(sij, s). Some ((None, sij), s))
           else Some ((None, sij), s)))"
  from run jobs(1) have "?rest (s\<lparr>world := w\<rparr>) = Some (r, s')"
    by (simp add: reconcileJobReplicas_def kread_def)
  moreover have count: "wrap32 (int (length used)) = int (length used)" if "length used \<le> length jobs" for used :: "int list"
    using that jobs(2) by (intro wrap32_id) (simp add: in32_def)
  have needed: "wrap32 (desiredReplicas sij - int n) = desiredReplicas sij - int n"
    if "int n < desiredReplicas sij" for n
    using that in32_desiredReplicas [of sij] by (intro wrap32_id) (simp add: in32_def)
  have needed32: "in32 (desiredReplicas sij - int n)" if "int n < desiredReplicas sij" for n
    using that in32_desiredReplicas [of sij] by (simp add: in32_def)
  have fewer: "startsReplicas k l n sij used i 0 es" if "startsReplicas k l (n - int m) sij used i 0 es" for l n used i es m
    using that by (auto simp: startsReplicas_def)
  have all: "\<exists>used. \<forall>j. j \<in> set jobs \<and> mDeletionTimestamp (jMeta j) = None \<and> liveJob j
          \<and> 0 \<le> replicaIndexOf (- 1) (mLabels (jMeta j))
          \<longrightarrow> replicaIndexOf (- 1) (mLabels (jMeta j)) \<in> set used"
    by (rule exI [of _ "map (\<lambda>j. replicaIndexOf (- 1) (mLabels (jMeta j))) jobs"]) auto
  have "yields ?rest ?Q"
    unfolding Let_def
    by (intro yields_ret yields_if yields_pair
      yields_bind [OF yields_silent [OF emits_hasPendingCheckpoints]]
      yields_bind [OF yields_scanJobs] yields_bind [OF yields_jobLoop [OF law]])
      (use all in \<open>auto simp: in32_def [of 0] count needed needed32 dest: fewer\<close>)
  ultimately show ?thesis by (auto elim!: yieldsE)
qed

section \<open>Properties\<close>

text \<open>
  C7. The reconciliation of the job replicas always comes back, whatever
  the clients answer, and only makes create calls for jobs of this SpotInstanceJob; each is
  for a replica index below twice the desired number whose machine has joined (or whose
  machines could not be listed). No more than the desired number of jobs are created, no two
  with the same index, and none with the index of a live job that was listed.
\<close>

theorem jobs_created_safely:
  assumes law: "owners_only k"
    and jobs: "kListJob k (mNamespace (sjMeta sij)) [(spotInstanceJobLabel, mName (sjMeta sij))] (world s)
      = (Inr jobs, w)" "length jobs \<le> 2147483647"
  shows "\<exists>sij' s' es. reconcileJobReplicas k sij s = Some ((None, sij'), s') \<and> sameJob sij sij'
    \<and> trace s' = trace s @ es
    \<and> list_all (\<lambda>a. \<exists>i. 0 \<le> i \<and> i < wrap32 (desiredReplicas sij * 2) \<and> startsReplica k sij i a) es
    \<and> int (length (createdJobIndices es)) \<le> max 0 (desiredReplicas sij)
    \<and> distinct (createdJobIndices es)
    \<and> (\<forall>j. j \<in> set jobs \<and> mDeletionTimestamp (jMeta j) = None \<and> liveJob j
         \<longrightarrow> replicaIndexOf (- 1) (mLabels (jMeta j)) \<notin> set (createdJobIndices es))"
proof -
  obtain r s' where run: "reconcileJobReplicas k sij s = Some (r, s')"
    using returns_reconcileJobReplicas unfolding returns_def by fastforce
  from reconcileJobs_run [OF law jobs run] obtain es used where
    es: "trace s' = trace s @ es" "fst r = None" "sameJob sij (snd r)"
    and st: "startsReplicas k (wrap32 (desiredReplicas sij * 2)) (desiredReplicas sij) sij used 0 0 es"
    and used: "\<forall>j. j \<in> set jobs \<and> mDeletionTimestamp (jMeta j) = None \<and> liveJob j
          \<and> 0 \<le> replicaIndexOf (- 1) (mLabels (jMeta j))
          \<longrightarrow> replicaIndexOf (- 1) (mLabels (jMeta j)) \<in> set used" by blast
  from st have "distinct (createdJobIndices es)"
    unfolding startsReplicas_def by (simp add: strict_sorted_iff)
  moreover from st used have "\<forall>j. j \<in> set jobs \<and> mDeletionTimestamp (jMeta j) = None \<and> liveJob j
         \<longrightarrow> replicaIndexOf (- 1) (mLabels (jMeta j)) \<notin> set (createdJobIndices es)"
    unfolding startsReplicas_def by blast
  moreover obtain sij' where "r = (None, sij')" using es(2) by (cases r) auto
  ultimately show ?thesis using run es st unfolding startsReplicas_def by auto
qed

theorem jobs_created_safely_witness:
  "\<exists>sij' s'. reconcileJobReplicas refKube exSIJ \<lparr>world = restoreCluster, trace = []\<rparr> = Some ((None, sij'), s')
     \<and> 0 \<notin> set (createdJobIndices (trace s'))"
proof -
  have list: "kListJob refKube (mNamespace (sjMeta exSIJ)) [(spotInstanceJobLabel, mName (sjMeta exSIJ))]
      (world \<lparr>world = restoreCluster, trace = []\<rparr>) = (Inr [exJob], restoreCluster)"
    by (simp add: restoreCluster_def exJob_def checkpoint_examples cluster_eval example_defs)
  have live: "mDeletionTimestamp (jMeta exJob) = None" "liveJob exJob"
    "replicaIndexOf (- 1) (mLabels (jMeta exJob)) = 0"
    by (simp_all add: exJob_def liveJob_def cluster_eval example_defs replicaIndexOf_def parseInt32_def
        parseUint_def digitVal_def)
  from jobs_created_safely [OF owners_only_refKube list] live show ?thesis by fastforce
qed

text \<open>The example SpotInstanceJob with one replica.\<close>

definition oneReplica :: spot_job where
  "oneReplica = exSIJ\<lparr>sjSpec := exSpec\<lparr>sjReplicas := Some 1\<rparr>\<rparr>"

end
