(* ===== verification/Preemption.thy ===== *)
theory Preemption
  imports JobReplicas
begin

text \<open>
  Handling preempted machines (\<^verbatim>\<open>internal/controller/spotinstancejob_preemption.go\<close>):
  for each preempted instance, the jobs to restore are collected, and either a replica that
  is still alive is checkpointed, or, with no other replica running, the jobs of the lost
  node are restored from the latest checkpoint in goroutines of their own.
\<close>

section \<open>The jobs of a preempted instance\<close>

text \<open>The jobs of an index that are neither being deleted nor already restored.\<close>

fun jobsToRestore :: "job list \<Rightarrow> string list \<Rightarrow> string list" where
  "jobsToRestore [] acc = acc"
| "jobsToRestore (j # js) acc =
     (if beingDeleted (jMeta j) then jobsToRestore js acc
      else if hasCheckpointUpdated (jMeta j) then jobsToRestore js acc
      else jobsToRestore js (List.insert (mName (jMeta j)) acc))"

text \<open>
  By replica index when the instance has one, by node name otherwise; a failed listing adds
  nothing.
\<close>

definition collectJobs ::
    "'w kube \<Rightarrow> spot_job \<Rightarrow> prov_instance \<Rightarrow> string list \<Rightarrow> 'w sys \<Rightarrow> (string list \<times> 'w sys) option" where
  "collectJobs k sij p acc s =
     (let i = replicaIndexOf (- 1) (mLabels (piMeta p)) in
      if 0 \<le> i then do {
        (r, s) \<leftarrow> listJob k (mNamespace (sjMeta sij)) (replicaSelector sij i) s;
        case r of
          Inl _ \<Rightarrow> Some (acc, s)
        | Inr jobs \<Rightarrow> Some (jobsToRestore jobs acc, s)
      }
      else if piNodeName (piStatus p) \<noteq> [] then do {
        (r, s) \<leftarrow> findJobsOnNode k sij (piNodeName (piStatus p)) s;
        case r of
          Inl _ \<Rightarrow> Some (acc, s)
        | Inr names \<Rightarrow> Some (fold List.insert names acc, s)
      }
      else Some (acc, s))"

definition otherActive :: "prov_instance \<Rightarrow> prov_instance list \<Rightarrow> nat" where
  "otherActive p pis = length (filter (\<lambda>q. mName (piMeta q) \<noteq> mName (piMeta p)
     \<and> piState (piStatus q) = ''RUNNING'' \<and> \<not> piPreemptionNotice (piStatus q)) pis)"

section \<open>Other replicas alive\<close>

text \<open>
  Whether this preemption is settled: a checkpoint completed and jobs carry its images, or
  it completed recently. A failed check settles nothing.
\<close>

definition alreadyHandled :: "'w kube \<Rightarrow> spot_job \<Rightarrow> 'w sys \<Rightarrow> (bool \<times> 'w sys) option" where
  "alreadyHandled k sij s = do {
     (r, s) \<leftarrow> hasCompletedCheckpoint k sij s;
     case r of
       Inl _ \<Rightarrow> Some (False, s)
     | Inr x \<Rightarrow> (case x of (has, recently) \<Rightarrow>
         if has then do {
           (r, s) \<leftarrow> hasRestoredJobs k sij s;
           case r of
             Inl _ \<Rightarrow> Some (False, s)
           | Inr restored \<Rightarrow> Some (restored \<or> recently, s)
         }
         else Some (False, s))
   }"

definition onNode :: "prov_instance \<Rightarrow> pod \<Rightarrow> bool" where
  "onNode p pod \<longleftrightarrow> piNodeName (piStatus p) \<noteq> [] \<and> psNodeName (pSpec pod) = piNodeName (piStatus p)"

text \<open>Checkpointing the job of the first pod that is alive off the preempted node.\<close>

definition checkpointAlive ::
    "'w kube \<Rightarrow> spot_job \<Rightarrow> prov_instance \<Rightarrow> 'w sys \<Rightarrow> (unit \<times> 'w sys) option" where
  "checkpointAlive k sij p s = do {
     (r, s) \<leftarrow> listPod k (mNamespace (sjMeta sij)) [(spotInstanceJobLabel, mName (sjMeta sij))] s;
     case r of
       Inl _ \<Rightarrow> Some ((), s)
     | Inr pods \<Rightarrow> do {
         (x, s) \<leftarrow> firstAlivePod k (onNode p) pods s;
         case x of
           None \<Rightarrow> Some ((), s)
         | Some pod \<Rightarrow>
             (if jobNameOf (mLabels (pMeta pod)) \<noteq> []
              then do {
                (e, s) \<leftarrow> createCheckpointForJob k sij (jobNameOf (mLabels (pMeta pod))) s;
                Some ((), s)
              }
              else Some ((), s))
       }
   }"

definition handleWithOthers ::
    "'w kube \<Rightarrow> spot_job \<Rightarrow> prov_instance \<Rightarrow> string list \<Rightarrow> 'w sys \<Rightarrow> (unit \<times> 'w sys) option" where
  "handleWithOthers k sij p jobs s = do {
     (e, s) \<leftarrow> processCompletedCheckpoints k sij jobs s;
     (handled, s) \<leftarrow> alreadyHandled k sij s;
     if handled then Some ((), s) else checkpointAlive k sij p s
   }"

section \<open>No other replica alive\<close>

text \<open>One goroutine per job of the lost node.\<close>

fun spawnAll :: "spot_job \<Rightarrow> string list \<Rightarrow> 'w sys \<Rightarrow> (unit \<times> 'w sys) option" where
  "spawnAll sij [] s = Some ((), s)"
| "spawnAll sij (j # js) s = Option.bind (spawn sij j s) (\<lambda>(u, s). spawnAll sij js s)"

definition restoreLast ::
    "'w kube \<Rightarrow> spot_job \<Rightarrow> prov_instance \<Rightarrow> 'w sys \<Rightarrow> (unit \<times> 'w sys) option" where
  "restoreLast k sij p s =
     (if piNodeName (piStatus p) \<noteq> []
      then do {
        (r, s) \<leftarrow> findJobsOnNode k sij (piNodeName (piStatus p)) s;
        case r of
          Inl _ \<Rightarrow> Some ((), s)
        | Inr jobs \<Rightarrow> spawnAll sij jobs s
      }
      else Some ((), s))"

section \<open>All instances\<close>

text \<open>The set of jobs to restore grows over the loop: later instances see the earlier jobs.\<close>

fun handleInstances ::
    "'w kube \<Rightarrow> spot_job \<Rightarrow> prov_instance list \<Rightarrow> prov_instance list \<Rightarrow> string list \<Rightarrow> 'w sys
       \<Rightarrow> (unit \<times> 'w sys) option" where
  "handleInstances k sij pis [] jobs s = Some ((), s)"
| "handleInstances k sij pis (p # ps) jobs s =
     (if preempted p
      then Option.bind (collectJobs k sij p jobs s) (\<lambda>(jobs, s).
        Option.bind (if 0 < otherActive p pis then handleWithOthers k sij p jobs s
                     else restoreLast k sij p s)
          (\<lambda>(u, s). handleInstances k sij pis ps jobs s))
      else handleInstances k sij pis ps jobs s)"

definition handlePreemption :: "'w kube \<Rightarrow> spot_job \<Rightarrow> 'w sys \<Rightarrow> (err \<times> 'w sys) option" where
  "handlePreemption k sij s = do {
     (r, s) \<leftarrow> listPI k (mNamespace (sjMeta sij)) [(spotInstanceJobLabel, mName (sjMeta sij))] s;
     case r of
       Inl e \<Rightarrow> Some (Some e, s)
     | Inr pis \<Rightarrow> do { (u, s) \<leftarrow> handleInstances k sij pis pis [] s; Some (None, s) }
   }"

section \<open>Effects\<close>

lemma jobsToRestore_set:
  "set (jobsToRestore js acc) = set acc \<union>
     {mName (jMeta j) | j. j \<in> set js \<and> \<not> beingDeleted (jMeta j) \<and> \<not> hasCheckpointUpdated (jMeta j)}"
  by (induction js acc rule: jobsToRestore.induct) auto

text \<open>The jobs found on a node: those of its pods that belong to the SpotInstanceJob, as listed.\<close>

definition jobsOnNode :: "'w kube \<Rightarrow> spot_job \<Rightarrow> string \<Rightarrow> string list \<Rightarrow> bool" where
  "jobsOnNode k sij node names \<longleftrightarrow> distinct names
     \<and> (\<exists>w pods w'. kListPod k (mNamespace (sjMeta sij)) [] w = (Inr pods, w')
        \<and> set names = {nm. nm \<noteq> [] \<and> (\<exists>p \<in> set pods. psNodeName (pSpec p) = node
             \<and> labelAt (mLabels (pMeta p)) spotInstanceJobLabel = mName (sjMeta sij)
             \<and> jobNameOf (mLabels (pMeta p)) = nm)})"

lemma yields_findJobsOnNode:
  "yields (findJobsOnNode k sij node) (\<lambda>r es. es = [] \<and>
     (case r of Inl e \<Rightarrow> \<exists>w w'. kListPod k (mNamespace (sjMeta sij)) [] w = (Inl e, w')
      | Inr names \<Rightarrow> jobsOnNode k sij node names))"
proof -
  have "jobsOnNode k sij node (sort_key rank (jobsOfPods sij node pods []))"
    if "kListPod k (mNamespace (sjMeta sij)) [] w = (Inr pods, w')" for rank :: "string \<Rightarrow> nat" and pods w w'
    using that jobsOfPods_set [of sij node pods "[]"] jobsOfPods_distinct [of "[]" sij node pods]
    unfolding jobsOnNode_def by (intro conjI exI [of _ w] exI [of _ pods] exI [of _ w']) auto
  then show ?thesis unfolding findJobsOnNode_def [abs_def]
    by (intro yields_bind [OF yields_kread_val] yields_sum yields_ret yields_bind [OF yields_kread]) auto
qed

text \<open>
  A job of a preempted instance: one listed under its replica index that is neither being
  deleted nor restored already, or, for an instance without an index, one found on its node.
\<close>

definition lostJob :: "'w kube \<Rightarrow> spot_job \<Rightarrow> prov_instance \<Rightarrow> string \<Rightarrow> bool" where
  "lostJob k sij p nm \<longleftrightarrow>
     (let i = replicaIndexOf (- 1) (mLabels (piMeta p)) in
      if 0 \<le> i then \<exists>w jobs w' j. kListJob k (mNamespace (sjMeta sij)) (replicaSelector sij i) w = (Inr jobs, w')
        \<and> j \<in> set jobs \<and> mName (jMeta j) = nm \<and> \<not> beingDeleted (jMeta j) \<and> \<not> hasCheckpointUpdated (jMeta j)
      else piNodeName (piStatus p) \<noteq> []
        \<and> (\<exists>names. jobsOnNode k sij (piNodeName (piStatus p)) names \<and> nm \<in> set names))"

lemma set_fold_insert: "set (fold List.insert xs acc) = set acc \<union> set xs"
  by (induction xs arbitrary: acc) auto

lemma yields_collectJobs:
  "yields (collectJobs k sij p acc) (\<lambda>r es. es = [] \<and> set r \<subseteq> set acc \<union> {nm. lostJob k sij p nm})"
proof -
  have 1: "set (jobsToRestore jobs acc) \<subseteq> set acc \<union> {nm. lostJob k sij p nm}"
    if "0 \<le> replicaIndexOf (- 1) (mLabels (piMeta p))"
      "kListJob k (mNamespace (sjMeta sij)) (replicaSelector sij (replicaIndexOf (- 1) (mLabels (piMeta p)))) w
        = (Inr jobs, w')" for w jobs w'
    using that by (auto simp: jobsToRestore_set lostJob_def Let_def)
  have 2: "set (fold List.insert names acc) \<subseteq> set acc \<union> {nm. lostJob k sij p nm}"
    if "\<not> 0 \<le> replicaIndexOf (- 1) (mLabels (piMeta p))" "piNodeName (piStatus p) \<noteq> []"
      "jobsOnNode k sij (piNodeName (piStatus p)) names" for names
    using that by (auto simp: set_fold_insert lostJob_def Let_def)
  show ?thesis unfolding collectJobs_def [abs_def] Let_def
    by (intro yields_if yields_ret yields_bind [OF yields_kread_val] yields_bind [OF yields_findJobsOnNode]
        yields_sum) (use 1 2 in auto)
qed

lemma returns_collectJobs [returns_intro]: "returns (collectJobs k sij p acc)"
  unfolding collectJobs_def [abs_def] Let_def by (intro returns_intro)

lemma emits_alreadyHandled [yields_op]: "emits A (alreadyHandled k sij)"
  unfolding alreadyHandled_def [abs_def] by (intro yields_intro yields_op)

lemma returns_alreadyHandled [returns_intro]: "returns (alreadyHandled k sij)"
  unfolding alreadyHandled_def [abs_def] by (intro returns_intro)

text \<open>
  The checkpoint made because of a preempted instance: of the job of the first pod listed for
  the SpotInstanceJob that is alive and not on the instance's node.
\<close>

definition checkpointFor :: "'w kube \<Rightarrow> spot_job \<Rightarrow> prov_instance \<Rightarrow> action \<Rightarrow> bool" where
  "checkpointFor k sij q a \<longleftrightarrow> (\<exists>w pods w' survivor nm p ts e.
     kListPod k (mNamespace (sjMeta sij)) [(spotInstanceJobLabel, mName (sjMeta sij))] w = (Inr pods, w')
     \<and> firstAlive k (onNode q) pods survivor \<and> nm = jobNameOf (mLabels (pMeta survivor)) \<and> nm \<noteq> []
     \<and> chosenPod k sij nm p \<and> a = ACreateCheckpoint (newCheckpoint sij nm p ts) e)"

lemma checkpointForI:
  "kListPod k (mNamespace (sjMeta sij)) [(spotInstanceJobLabel, mName (sjMeta sij))] w = (Inr pods, w') \<Longrightarrow>
   firstAlive k (onNode q) pods x \<Longrightarrow> jobNameOf (mLabels (pMeta x)) \<noteq> [] \<Longrightarrow>
   chosenPod k sij (jobNameOf (mLabels (pMeta x))) p \<Longrightarrow>
   checkpointFor k sij q (ACreateCheckpoint (newCheckpoint sij (jobNameOf (mLabels (pMeta x))) p ts) e)"
  unfolding checkpointFor_def by blast

definition checkpointAction :: "'w kube \<Rightarrow> spot_job \<Rightarrow> action \<Rightarrow> bool" where
  "checkpointAction k sij a \<longleftrightarrow> (\<exists>q. checkpointFor k sij q a)"

lemma checkpointAction_chosen:
  "checkpointAction k sij a \<Longrightarrow>
   \<exists>nm p ts e. nm \<noteq> [] \<and> chosenPod k sij nm p \<and> a = ACreateCheckpoint (newCheckpoint sij nm p ts) e"
  unfolding checkpointAction_def checkpointFor_def by blast

lemma yields_checkpointAlive:
  "yields (checkpointAlive k sij p) (\<lambda>_ es. es = [] \<or> (\<exists>a. es = [a] \<and> checkpointFor k sij p a))"
  unfolding checkpointAlive_def [abs_def]
  by (intro yields_bind [OF yields_kread_val] yields_sum yields_ret yields_bind [OF yields_firstAlivePod]
      yields_option yields_if yields_bind [OF yields_createCheckpointForJob])
    (auto simp: checkpoints_def intro: checkpointForI)

lemma returns_checkpointAlive [returns_intro]: "returns (checkpointAlive k sij p)"
  unfolding checkpointAlive_def [abs_def] by (intro returns_intro)

text \<open>
  With other replicas alive: jobs of the given names are restored, then at most one
  checkpoint is made.
\<close>

definition withOthers :: "'w kube \<Rightarrow> spot_job \<Rightarrow> (string \<Rightarrow> bool) \<Rightarrow> prov_instance \<Rightarrow> action list \<Rightarrow> bool" where
  "withOthers k sij ok p es \<longleftrightarrow> (\<exists>rs cs. es = rs @ cs \<and> list_all (restoreAction k sij ok) rs
     \<and> (cs = [] \<or> (\<exists>a. cs = [a] \<and> checkpointFor k sij p a)))"

lemma yields_handleWithOthers:
  assumes "\<And>nm. nm \<in> set jobs \<Longrightarrow> ok nm"
  shows "yields (handleWithOthers k sij p jobs) (\<lambda>_. withOthers k sij ok p)"
proof -
  have 1: "yields (processCompletedCheckpoints k sij jobs) (\<lambda>_ es. list_all (restoreAction k sij ok) es)"
    unfolding emits_def [symmetric]
    by (rule emits_mono [OF emits_processCompletedCheckpoints]) (erule restoreAction_mono, rule assms)
  show ?thesis
    unfolding handleWithOthers_def [abs_def]
    by (intro yields_bind [OF 1] yields_bind [OF yields_silent [OF emits_alreadyHandled]]
        yields_if yields_ret yields_mono [OF yields_checkpointAlive])
      (auto simp: withOthers_def)
qed

lemma returns_handleWithOthers [returns_intro]: "returns (handleWithOthers k sij p jobs)"
  unfolding handleWithOthers_def [abs_def] by (intro returns_intro)

lemma yields_spawnAll: "yields (spawnAll sij js) (\<lambda>_ es. es = map (ASpawn sij) js)"
proof (induction js)
  case Nil
  show ?case unfolding spawnAll.simps(1) [abs_def] by (rule yields_ret) simp
next
  case (Cons j js)
  show ?case unfolding spawnAll.simps(2) [abs_def]
    by (intro yields_bind [OF yields_spawn] yields_mono [OF Cons]) simp
qed

lemma returns_spawnAll [returns_intro]: "returns (spawnAll sij js)"
proof (induction js)
  case Nil
  show ?case unfolding spawnAll.simps(1) [abs_def] by (intro returns_intro)
next
  case (Cons j js)
  show ?case unfolding spawnAll.simps(2) [abs_def] by (intro returns_intro Cons)
qed

text \<open>
  With no other replica alive: one goroutine for each job found on the recorded node; none
  only when no node is recorded or the pods cannot be listed.
\<close>

definition loneRestore :: "'w kube \<Rightarrow> spot_job \<Rightarrow> prov_instance \<Rightarrow> action list \<Rightarrow> bool" where
  "loneRestore k sij p es \<longleftrightarrow>
     (if piNodeName (piStatus p) = [] then es = []
      else (\<exists>w e w'. kListPod k (mNamespace (sjMeta sij)) [] w = (Inl e, w')) \<and> es = []
        \<or> (\<exists>names. jobsOnNode k sij (piNodeName (piStatus p)) names \<and> es = map (ASpawn sij) names))"

lemma yields_restoreLast: "yields (restoreLast k sij p) (\<lambda>_. loneRestore k sij p)"
  unfolding restoreLast_def [abs_def]
  by (intro yields_if yields_ret yields_bind [OF yields_findJobsOnNode] yields_sum
      yields_mono [OF yields_spawnAll]) (auto simp: loneRestore_def)

lemma loneRestore_spawns: "loneRestore k sij p es \<Longrightarrow> \<exists>names. es = map (ASpawn sij) names"
  by (auto simp: loneRestore_def split: if_splits)

lemma returns_restoreLast [returns_intro]: "returns (restoreLast k sij p)"
  unfolding restoreLast_def [abs_def] by (intro returns_intro)

section \<open>All instances\<close>

text \<open>
  What is done for a preempted instance: what is done with other replicas alive, restoring
  jobs of preempted instances only, or the goroutines of a lone replica. The instances are
  handled one after the other.
\<close>

definition handlesOne :: "'w kube \<Rightarrow> spot_job \<Rightarrow> prov_instance list \<Rightarrow> prov_instance \<Rightarrow> action list \<Rightarrow> bool" where
  "handlesOne k sij pis p es \<longleftrightarrow>
     (if 0 < otherActive p pis
      then withOthers k sij (\<lambda>nm. \<exists>q \<in> set pis. preempted q \<and> lostJob k sij q nm) p es
      else loneRestore k sij p es)"

definition handlesAll ::
    "'w kube \<Rightarrow> spot_job \<Rightarrow> prov_instance list \<Rightarrow> prov_instance list \<Rightarrow> action list \<Rightarrow> bool" where
  "handlesAll k sij pis ps es \<longleftrightarrow>
     (\<exists>ess. es = concat ess \<and> list_all2 (handlesOne k sij pis) (filter preempted ps) ess)"

lemma handlesAll_Nil: "handlesAll k sij pis [] []"
  by (simp add: handlesAll_def)

lemma handlesAll_Cons:
  "preempted p \<Longrightarrow> handlesOne k sij pis p xs \<Longrightarrow> handlesAll k sij pis ps ys \<Longrightarrow> handlesAll k sij pis (p # ps) (xs @ ys)"
  unfolding handlesAll_def by (elim exE conjE) (rule exI [of _ "xs # ess" for ess], simp)

lemma handlesAll_skip: "\<not> preempted p \<Longrightarrow> handlesAll k sij pis ps es \<Longrightarrow> handlesAll k sij pis (p # ps) es"
  by (simp add: handlesAll_def)

lemma yields_handleInstances:
  "set ps \<subseteq> set pis \<Longrightarrow> \<forall>nm \<in> set jobs. \<exists>q \<in> set pis. preempted q \<and> lostJob k sij q nm \<Longrightarrow>
   yields (handleInstances k sij pis ps jobs) (\<lambda>_. handlesAll k sij pis ps)"
proof (induction ps arbitrary: jobs)
  case Nil
  show ?case unfolding handleInstances.simps(1) [abs_def] by (rule yields_ret) (rule handlesAll_Nil)
next
  case (Cons p ps)
  let ?ok = "\<lambda>nm. \<exists>q \<in> set pis. preempted q \<and> lostJob k sij q nm"
  have one: "yields (\<lambda>s. if 0 < otherActive p pis then handleWithOthers k sij p jobs s
                     else restoreLast k sij p s) (\<lambda>_. handlesOne k sij pis p)"
    if "\<forall>nm \<in> set jobs. ?ok nm" for jobs
    using that
    by (intro yields_if yields_mono [OF yields_handleWithOthers [where ok = ?ok]] yields_mono [OF yields_restoreLast])
      (simp_all add: handlesOne_def)
  have more: "\<forall>nm \<in> set jobs'. ?ok nm"
    if "set jobs' \<subseteq> set jobs \<union> {nm. lostJob k sij p nm}" "preempted p" for jobs'
    using that Cons.prems by auto
  show ?case
  proof (cases "preempted p")
    case True
    have "yields (\<lambda>s. Option.bind (collectJobs k sij p jobs s) (\<lambda>(jobs, s).
        Option.bind (if 0 < otherActive p pis then handleWithOthers k sij p jobs s
                     else restoreLast k sij p s)
          (\<lambda>(u, s). handleInstances k sij pis ps jobs s))) (\<lambda>_. handlesAll k sij pis (p # ps))"
      by (intro yields_bind [OF yields_collectJobs] yields_bind [OF one] yields_mono [OF Cons.IH])
        (use Cons.prems more True handlesAll_Cons in auto)
    with True show ?thesis unfolding handleInstances.simps(2) [abs_def] by simp
  next
    case False
    with Cons.IH [of jobs] Cons.prems show ?thesis unfolding handleInstances.simps(2) [abs_def]
      by (auto elim!: yields_mono intro: handlesAll_skip)
  qed
qed

lemma returns_handleInstances [returns_intro]: "returns (handleInstances k sij pis ps jobs)"
proof (induction ps arbitrary: jobs)
  case Nil
  show ?case unfolding handleInstances.simps(1) [abs_def] by (intro returns_intro)
next
  case (Cons p ps)
  show ?case unfolding handleInstances.simps(2) [abs_def] by (intro returns_intro Cons)
qed

lemma returns_handlePreemption [returns_intro]: "returns (handlePreemption k sij)"
  unfolding handlePreemption_def [abs_def] by (intro returns_intro)

lemma handlesOne_checkpoints: "handlesOne k sij pis p es \<Longrightarrow> length (filter isCreateCheckpoint es) \<le> 1"
proof -
  have "filter isCreateCheckpoint rs = []" if "list_all (restoreAction k sij ok) rs" for rs ok
    using that by (rule list_all_imp_filter_Nil) (auto simp: restoreAction_def split: action.splits)
  moreover have "filter isCreateCheckpoint (map (ASpawn sij) names) = []" for names
    by (simp add: filter_empty_conv)
  ultimately show "handlesOne k sij pis p es \<Longrightarrow> length (filter isCreateCheckpoint es) \<le> 1"
    by (fastforce simp: handlesOne_def withOthers_def dest: loneRestore_spawns split: if_splits)
qed

lemma handlesAll_checkpoints:
  assumes "handlesAll k sij pis ps es"
  shows "length (filter isCreateCheckpoint es) \<le> length (filter preempted ps)"
proof -
  from assms obtain ess where es: "es = concat ess"
    "list_all2 (handlesOne k sij pis) (filter preempted ps) ess" unfolding handlesAll_def by blast
  from es(2) have "length (filter isCreateCheckpoint (concat ess)) \<le> length (filter preempted ps)"
  proof (induction rule: list_all2_induct)
    case (Cons p ps xs xss)
    from handlesOne_checkpoints [OF Cons.hyps(1)] Cons.IH show ?case by simp
  qed simp
  with es(1) show ?thesis by simp
qed

lemma restoreAction_any: "restoreAction k sij ok a \<Longrightarrow> restoreAction k sij (\<lambda>_. True) a"
  by (erule restoreAction_mono) simp

lemma handlesOne_actions:
  assumes "handlesOne k sij pis p es" "a \<in> set es"
  shows "restoreAction k sij (\<lambda>_. True) a \<or> checkpointAction k sij a \<or> (\<exists>nm. a = ASpawn sij nm)"
proof (cases "0 < otherActive p pis")
  case True
  with assms have "(\<exists>ok. restoreAction k sij ok a) \<or> checkpointFor k sij p a"
    by (auto simp: handlesOne_def withOthers_def list_all_iff)
  then show ?thesis using restoreAction_any unfolding checkpointAction_def by blast
next
  case False
  with assms show ?thesis by (auto simp: handlesOne_def dest!: loneRestore_spawns)
qed

lemma handlesAll_actions:
  assumes "handlesAll k sij pis ps es" "a \<in> set es"
  shows "restoreAction k sij (\<lambda>_. True) a \<or> checkpointAction k sij a \<or> (\<exists>nm. a = ASpawn sij nm)"
proof -
  from assms obtain ess xs where ess: "list_all2 (handlesOne k sij pis) (filter preempted ps) ess"
    and xs: "xs \<in> set ess" "a \<in> set xs" unfolding handlesAll_def by auto
  from ess xs(1) obtain p where "handlesOne k sij pis p xs"
    by (induction rule: list_all2_induct) auto
  then show ?thesis using xs(2) by (rule handlesOne_actions)
qed

lemma emits_handlePreemption [yields_op]:
  "emits (\<lambda>a. restoreAction k sij (\<lambda>_. True) a \<or> checkpointAction k sij a \<or> (\<exists>nm. a = ASpawn sij nm))
     (handlePreemption k sij)"
  unfolding handlePreemption_def [abs_def] emits_def
  by (intro yields_bind [OF yields_kread] yields_sum yields_ret yields_bind [OF yields_handleInstances])
    (auto simp: list_all_iff dest!: handlesAll_actions)

interpretation preemption: total_contract "handlePreemption k sij"
    "\<lambda>a. restoreAction k sij (\<lambda>_. True) a \<or> checkpointAction k sij a \<or> (\<exists>nm. a = ASpawn sij nm)"
  for k sij
  by unfold_locales (rule emits_handlePreemption, rule returns_handlePreemption)

section \<open>Properties\<close>

text \<open>
  C1. Handling preemption always comes back and fails only when the
  instances cannot be listed. Otherwise the preempted instances among those listed are handled
  one after the other, and nothing else happens. When another replica runs, the only jobs that
  are replaced are jobs of preempted instances, and then at most one checkpoint is made: for
  the job of the first pod of the SpotInstanceJob that is alive away from the lost node. When
  none runs, exactly one goroutine starts for each job that has a pod of the SpotInstanceJob on
  the lost node, and nothing else: none when the instance names no node or the pods cannot be
  listed.
\<close>

theorem preemption_handled:
  "\<exists>r s' es. handlePreemption k sij s = Some (r, s') \<and> trace s' = trace s @ es \<and>
     (case fst (kListPI k (mNamespace (sjMeta sij)) [(spotInstanceJobLabel, mName (sjMeta sij))] (world s)) of
        Inl e \<Rightarrow> r = Some e \<and> es = []
      | Inr pis \<Rightarrow> r = None
          \<and> length (filter isCreateCheckpoint es) \<le> length (filter preempted pis)
          \<and> (\<exists>ess. es = concat ess \<and> list_all2 (\<lambda>p xs.
               if 0 < otherActive p pis
               then withOthers k sij (\<lambda>nm. \<exists>q \<in> set pis. preempted q \<and> lostJob k sij q nm) p xs
               else loneRestore k sij p xs) (filter preempted pis) ess))"
proof -
  obtain x w where list: "kListPI k (mNamespace (sjMeta sij))
      [(spotInstanceJobLabel, mName (sjMeta sij))] (world s) = (x, w)" by fastforce
  show ?thesis
  proof (cases x)
    case (Inl e)
    with list show ?thesis by (simp add: handlePreemption_def kread_def)
  next
    case (Inr pis)
    obtain u s' where run: "handleInstances k sij pis pis [] (s\<lparr>world := w\<rparr>) = Some (u, s')"
      using returns_handleInstances unfolding returns_def by fastforce
    have "yields (handleInstances k sij pis pis []) (\<lambda>_. handlesAll k sij pis pis)"
      by (rule yields_handleInstances) simp_all
    from yieldsE [OF this run] obtain es
      where es: "trace s' = trace s @ es" "handlesAll k sij pis pis es" by auto
    from run list Inr have "handlePreemption k sij s = Some (None, s')"
      by (simp add: handlePreemption_def kread_def)
    with es(1) handlesAll_checkpoints [OF es(2)] es(2) [unfolded handlesAll_def handlesOne_def] list Inr
    show ?thesis by (intro exI [of _ None] exI [of _ s'] exI [of _ es]) simp
  qed
qed

definition preemptedPI :: prov_instance where
  "preemptedPI = (exPI ''vm0'' (noPIStatus\<lparr>piState := ''TERMINATED'', piPreemptionNotice := True,
       piNodeName := ''n0''\<rparr>))
     \<lparr>piMeta := (exMeta ''vm0'')\<lparr>mLabels := [spotInstanceJobLabel \<mapsto> ''train'', jobReplicaLabel \<mapsto> ''1'']\<rparr>\<rparr>"

text \<open>The only machine is preempted, with a pod of the job j on its node: one goroutine, for j.\<close>

theorem preemption_handled_witness:
  "\<exists>r s'. handlePreemption refKube exSIJ
       \<lparr>world = exCluster\<lparr>clPIs := [preemptedPI], clPods := [exPod ''p'' ''j'' ''n0'']\<rparr>, trace = []\<rparr> = Some (r, s')
     \<and> trace s' = [ASpawn exSIJ ''j''] \<and> loneRestore refKube exSIJ preemptedPI (trace s')"
proof -
  let ?c = "exCluster\<lparr>clPIs := [preemptedPI], clPods := [exPod ''p'' ''j'' ''n0'']\<rparr>"
  have list: "kListPI refKube (mNamespace (sjMeta exSIJ)) [(spotInstanceJobLabel, mName (sjMeta exSIJ))] ?c
      = (Inr [preemptedPI], ?c)"
    by (simp add: preemptedPI_def checkpoint_examples cluster_eval example_defs)
  have lost: "otherActive preemptedPI [preemptedPI] = 0" "preempted preemptedPI"
    by (simp_all add: otherActive_def preempted_def preemptedPI_def exPI_def)
  have "\<exists>r s'. handlePreemption refKube exSIJ \<lparr>world = ?c, trace = []\<rparr> = Some (r, s')
      \<and> trace s' = [ASpawn exSIJ ''j'']"
    by (simp add: handlePreemption_def collectJobs_def otherActive_def restoreLast_def findJobsOnNode_def
        spawn_def jobNameOf_def labelAt_def replicaIndexOf_def parseInt32_def parseUint_def digitVal_def
        replicaSelector_def preempted_def preemptedPI_def spotInstanceJobLabel_def jobReplicaLabel_def
        checkpoint_examples cluster_eval example_defs)
  then obtain r s' where run: "handlePreemption refKube exSIJ \<lparr>world = ?c, trace = []\<rparr> = Some (r, s')"
    and tr: "trace s' = [ASpawn exSIJ ''j'']" by blast
  from preemption_handled [of refKube exSIJ "\<lparr>world = ?c, trace = []\<rparr>"] list lost run
  have "loneRestore refKube exSIJ preemptedPI (trace s')" by (auto simp: list_all2_Cons1)
  with run tr show ?thesis by auto
qed

end
