(* ===== verification/Frames.thy ===== *)
theory Frames
  imports Effects
begin

text \<open>
  What a program does to the state, world included: a reflexive and transitive relation on
  states that every client call of a program respects is respected by the program. The rules
  follow the shape of the programs, as those of \<^verbatim>\<open>yields\<close> do for the trace.
\<close>

definition relates :: "('w sys \<Rightarrow> 'w sys \<Rightarrow> bool) \<Rightarrow> ('w sys \<Rightarrow> ('a \<times> 'w sys) option) \<Rightarrow> bool" where
  "relates R f \<longleftrightarrow> (\<forall>s r s'. f s = Some (r, s') \<longrightarrow> R s s')"

lemma relatesD: "relates R f \<Longrightarrow> f s = Some (r, s') \<Longrightarrow> R s s'"
  unfolding relates_def by blast

lemma relates_if:
  "(b \<Longrightarrow> relates R f) \<Longrightarrow> (\<not> b \<Longrightarrow> relates R g) \<Longrightarrow> relates R (\<lambda>s. if b then f s else g s)"
  by (cases b) simp_all

lemma relates_sum:
  "(\<And>e. r = Inl e \<Longrightarrow> relates R (f e)) \<Longrightarrow> (\<And>x. r = Inr x \<Longrightarrow> relates R (g x)) \<Longrightarrow>
     relates R (\<lambda>s. case r of Inl e \<Rightarrow> f e s | Inr x \<Rightarrow> g x s)"
  by (cases r) simp_all

lemma relates_option:
  "(r = None \<Longrightarrow> relates R f) \<Longrightarrow> (\<And>x. r = Some x \<Longrightarrow> relates R (g x)) \<Longrightarrow>
     relates R (\<lambda>s. case r of None \<Rightarrow> f s | Some x \<Rightarrow> g x s)"
  by (cases r) simp_all

lemma relates_list:
  "(r = [] \<Longrightarrow> relates R f) \<Longrightarrow> (\<And>x xs. r = x # xs \<Longrightarrow> relates R (g x xs)) \<Longrightarrow>
     relates R (\<lambda>s. case r of [] \<Rightarrow> f s | x # xs \<Rightarrow> g x xs s)"
  by (cases r) simp_all

lemma relates_let: "(\<And>x. x = e \<Longrightarrow> relates R (f x)) \<Longrightarrow> relates R (\<lambda>s. let x = e in f x s)"
  by simp

lemma relates_kread: "(\<And>s r w. f (world s) = (r, w) \<Longrightarrow> R s (s\<lparr>world := w\<rparr>)) \<Longrightarrow> relates R (kread f)"
  by (auto simp: relates_def kread_def split: prod.splits)

lemma relates_kcall:
  "(\<And>s r w. f (world s) = (r, w) \<Longrightarrow> R s (s\<lparr>world := w, trace := trace s @ [act r]\<rparr>)) \<Longrightarrow>
   relates R (kcall f act)"
  by (auto simp: relates_def kcall_def split: prod.splits)

locale state_relation =
  fixes R :: "'w sys \<Rightarrow> 'w sys \<Rightarrow> bool"
  assumes refl: "R s s"
    and trans: "R s s' \<Longrightarrow> R s' s'' \<Longrightarrow> R s s''"
begin

lemma ret: "relates R (\<lambda>s. Some (x, s))"
  by (simp add: relates_def refl)

lemma bind:
  "relates R f \<Longrightarrow> (\<And>r. relates R (g r)) \<Longrightarrow> relates R (\<lambda>s. Option.bind (f s) (\<lambda>(r, s). g r s))"
  unfolding relates_def by (auto simp: Option.bind_eq_Some_conv) (blast intro: trans)

lemma pure: "(\<And>x. m = Some x \<Longrightarrow> relates R (g x)) \<Longrightarrow> relates R (\<lambda>s. Option.bind m (\<lambda>x. g x s))"
  by (cases m) (simp_all add: relates_def)

lemmas rules = ret bind relates_if relates_sum relates_option relates_list relates_let

end

section \<open>Programs in worlds that stay good\<close>

text \<open>
  \<^term>\<open>during P f Q\<close>: started in a world that satisfies P, f comes back, in such a world
  again, and Q holds of its result and of what it appended. These are total correctness rules
  for the facts that hold while something outside holds.
\<close>

definition during ::
    "('w \<Rightarrow> bool) \<Rightarrow> ('w sys \<Rightarrow> ('a \<times> 'w sys) option) \<Rightarrow> ('a \<Rightarrow> action list \<Rightarrow> bool) \<Rightarrow> bool" where
  "during P f Q \<longleftrightarrow> (\<forall>s. P (world s) \<longrightarrow>
     (\<exists>r s' es. f s = Some (r, s') \<and> P (world s') \<and> trace s' = trace s @ es \<and> Q r es))"

lemma duringE:
  assumes "during P f Q" "P (world s)"
  obtains r s' es where "f s = Some (r, s')" "P (world s')" "trace s' = trace s @ es" "Q r es"
  using assms unfolding during_def by blast

lemma during_mono: "during P f Q \<Longrightarrow> (\<And>r es. Q r es \<Longrightarrow> Q' r es) \<Longrightarrow> during P f Q'"
  unfolding during_def by blast

lemma during_ret: "Q x [] \<Longrightarrow> during P (\<lambda>s. Some (x, s)) Q"
  by (simp add: during_def)

lemma during_bind:
  assumes f: "during P f R" and g: "\<And>r es. R r es \<Longrightarrow> during P (g r) (\<lambda>r' es'. Q r' (es @ es'))"
  shows "during P (\<lambda>s. Option.bind (f s) (\<lambda>(r, s). g r s)) Q"
  unfolding during_def
proof (intro allI impI)
  fix s :: "'a sys" assume "P (world s)"
  with f obtain r1 s1 es1 where 1: "f s = Some (r1, s1)" "P (world s1)" "trace s1 = trace s @ es1" "R r1 es1"
    by (rule duringE)
  from g [OF 1(4)] 1(2) obtain r2 s2 es2 where "g r1 s1 = Some (r2, s2)" "P (world s2)" "trace s2 = trace s1 @ es2"
    "Q r2 (es1 @ es2)" by (rule duringE)
  with 1 show "\<exists>r s' es. Option.bind (f s) (\<lambda>(r, s). g r s) = Some (r, s') \<and> P (world s')
      \<and> trace s' = trace s @ es \<and> Q r es" by auto
qed

lemma during_if:
  "(b \<Longrightarrow> during P f Q) \<Longrightarrow> (\<not> b \<Longrightarrow> during P g Q) \<Longrightarrow> during P (\<lambda>s. if b then f s else g s) Q"
  by (cases b) simp_all

lemma during_sum:
  "(\<And>e. r = Inl e \<Longrightarrow> during P (f e) Q) \<Longrightarrow> (\<And>x. r = Inr x \<Longrightarrow> during P (g x) Q) \<Longrightarrow>
     during P (\<lambda>s. case r of Inl e \<Rightarrow> f e s | Inr x \<Rightarrow> g x s) Q"
  by (cases r) simp_all

lemma during_option:
  "(r = None \<Longrightarrow> during P f Q) \<Longrightarrow> (\<And>x. r = Some x \<Longrightarrow> during P (g x) Q) \<Longrightarrow>
     during P (\<lambda>s. case r of None \<Rightarrow> f s | Some x \<Rightarrow> g x s) Q"
  by (cases r) simp_all

lemma during_pair:
  "(\<And>a b. r = (a, b) \<Longrightarrow> during P (f a b) Q) \<Longrightarrow> during P (case r of (a, b) \<Rightarrow> f a b) Q"
  by (cases r) simp_all

lemma during_kread:
  "(\<And>w r w'. P w \<Longrightarrow> f w = (r, w') \<Longrightarrow> P w' \<and> Q r []) \<Longrightarrow> during P (kread f) Q"
  by (auto simp: during_def kread_def split: prod.splits)

lemma during_kcall:
  "(\<And>w r w'. P w \<Longrightarrow> f w = (r, w') \<Longrightarrow> P w' \<and> Q r [act r]) \<Longrightarrow> during P (kcall f act) Q"
  by (auto simp: during_def kcall_def split: prod.splits)

end
