(* ===== verification/SIJController.thy ===== *)
theory SIJController
  imports Preemption Frames
begin

text \<open>
  The reconciler of SpotInstanceJob (\<^verbatim>\<open>internal/controller/spotinstancejob_controller.go\<close>
  and \<^verbatim>\<open>spotinstancejob_status.go\<close>): finalizer and status, preemption before instances
  before jobs, and the deletion of everything the job owns.
\<close>

section \<open>Status\<close>

definition updateStatus :: "'w kube \<Rightarrow> spot_job \<Rightarrow> 'w sys \<Rightarrow> (err \<times> 'w sys) option" where
  "updateStatus k sij s = do {
     (r, s) \<leftarrow> listJob k (mNamespace (sjMeta sij)) [(spotInstanceJobLabel, mName (sjMeta sij))] s;
     case r of
       Inl e \<Rightarrow> Some (Some e, s)
     | Inr jobs \<Rightarrow> do {
         let active = wrap32 (int (length (filter (\<lambda>j. 0 < jActive j) jobs)));
         (r, s) \<leftarrow> updateSIJStatus k
           (sij\<lparr>sjStatus := (sjStatus sij)\<lparr>ssActiveReplicas := active\<rparr>\<rparr>) s;
         Some (errOf r, s)
       }
   }"

section \<open>Deletion\<close>

text \<open>Failed deletions are logged and the loops go on.\<close>

fun deleteCheckpoints :: "'w kube \<Rightarrow> checkpoint_backup list \<Rightarrow> 'w sys \<Rightarrow> (unit \<times> 'w sys) option" where
  "deleteCheckpoints k [] s = Some ((), s)"
| "deleteCheckpoints k (cp # cps) s =
     Option.bind (deleteCheckpoint k cp s) (\<lambda>(e, s). deleteCheckpoints k cps s)"

fun deletePIs :: "'w kube \<Rightarrow> prov_instance list \<Rightarrow> 'w sys \<Rightarrow> (unit \<times> 'w sys) option" where
  "deletePIs k [] s = Some ((), s)"
| "deletePIs k (p # ps) s = Option.bind (deletePI k p s) (\<lambda>(e, s). deletePIs k ps s)"

definition deleteAllCheckpoints :: "'w kube \<Rightarrow> spot_job \<Rightarrow> 'w sys \<Rightarrow> (unit \<times> 'w sys) option" where
  "deleteAllCheckpoints k sij s = do {
     (r, s) \<leftarrow> listCheckpoint k (mNamespace (sjMeta sij)) [(spotInstanceJobLabel, mName (sjMeta sij))] s;
     case r of
       Inl _ \<Rightarrow> Some ((), s)
     | Inr cps \<Rightarrow> deleteCheckpoints k cps s
   }"

definition removeFinalizerSIJ :: "'w kube \<Rightarrow> spot_job \<Rightarrow> 'w sys \<Rightarrow> (outcome \<times> 'w sys) option" where
  "removeFinalizerSIJ k sij s = do {
     (r, s) \<leftarrow> updateSIJ k
       (sij\<lparr>sjMeta := kRemoveFinalizer k (sjMeta sij) spotInstanceJobFinalizer\<rparr>) s;
     case r of Inl e \<Rightarrow> Some (failWith e, s) | Inr _ \<Rightarrow> Some (finished, s)
   }"

definition handleDeletionSIJ :: "'w kube \<Rightarrow> spot_job \<Rightarrow> 'w sys \<Rightarrow> (outcome \<times> 'w sys) option" where
  "handleDeletionSIJ k sij s =
     (if kHasFinalizer k (sjMeta sij) spotInstanceJobFinalizer
      then do {
        (u, s) \<leftarrow> deleteAllCheckpoints k sij s;
        (r, s) \<leftarrow> listPI k (mNamespace (sjMeta sij)) [(spotInstanceJobLabel, mName (sjMeta sij))] s;
        case r of
          Inl e \<Rightarrow> Some (failWith e, s)
        | Inr pis \<Rightarrow> do {
            (u, s) \<leftarrow> deletePIs k pis s;
            removeFinalizerSIJ k sij s
          }
      }
      else Some (finished, s))"

section \<open>Reconcile\<close>

definition ensureFinalizerSIJ ::
    "'w kube \<Rightarrow> spot_job \<Rightarrow> 'w sys \<Rightarrow> ((go_error + spot_job) \<times> 'w sys) option" where
  "ensureFinalizerSIJ k sij s =
     (if kHasFinalizer k (sjMeta sij) spotInstanceJobFinalizer then Some (Inr sij, s)
      else updateSIJ k
        (sij\<lparr>sjMeta := kAddFinalizer k (sjMeta sij) spotInstanceJobFinalizer\<rparr>) s)"

definition initStatusSIJ ::
    "'w kube \<Rightarrow> spot_job \<Rightarrow> 'w sys \<Rightarrow> ((go_error + spot_job) \<times> 'w sys) option" where
  "initStatusSIJ k sij s =
     (if ssActiveReplicas (sjStatus sij) = 0 \<and> ssJobStatuses (sjStatus sij) = []
      then updateSIJStatus k (sij\<lparr>sjStatus := (sjStatus sij)\<lparr>ssActiveReplicas := 0\<rparr>\<rparr>) s
      else Some (Inr sij, s))"

text \<open>
  Preemption first: it is handled only when no checkpoint is in progress, and a failed check
  skips it.
\<close>

definition preemptionPhase :: "'w kube \<Rightarrow> spot_job \<Rightarrow> 'w sys \<Rightarrow> (err \<times> 'w sys) option" where
  "preemptionPhase k sij s = do {
     (r, s) \<leftarrow> hasPendingCheckpoints k sij s;
     case r of
       Inl _ \<Rightarrow> Some (None, s)
     | Inr pending \<Rightarrow> if pending then Some (None, s) else handlePreemption k sij s
   }"

text \<open>
  Instances next, unless a checkpoint is in progress now; the result tells whether one is,
  which a failed check does not.
\<close>

definition instancePhase ::
    "'w kube \<Rightarrow> spot_job \<Rightarrow> instance_template \<Rightarrow> 'w sys \<Rightarrow> ((go_error + bool) \<times> 'w sys) option" where
  "instancePhase k sij tmpl s = do {
     (r, s) \<leftarrow> hasPendingCheckpoints k sij s;
     case r of
       Inl _ \<Rightarrow> Some (Inr False, s)
     | Inr pending \<Rightarrow>
         (if pending then Some (Inr True, s)
          else do {
            (e, s) \<leftarrow> reconcileProvisionedInstances k sij tmpl s;
            Some (case e of None \<Rightarrow> Inr False | Some x \<Rightarrow> Inl x, s)
          })
   }"

text \<open>Jobs last, then the status, and the time of the next pass.\<close>

definition jobPhase ::
    "'w kube \<Rightarrow> spot_job \<Rightarrow> bool \<Rightarrow> 'w sys \<Rightarrow> (outcome \<times> 'w sys) option" where
  "jobPhase k sij pending s = do {
     ((e, sij), s) \<leftarrow> reconcileJobReplicas k sij s;
     case e of
       Some x \<Rightarrow> Some (failWith x, s)
     | None \<Rightarrow> do {
         (e, s) \<leftarrow> updateStatus k sij s;
         case e of
           Some x \<Rightarrow> Some (failWith x, s)
         | None \<Rightarrow> Some (requeue (if pending then seconds 30 else minutes 1) None, s)
       }
   }"

definition reconcileFrom ::
    "'w kube \<Rightarrow> spot_job \<Rightarrow> 'w sys \<Rightarrow> (outcome \<times> 'w sys) option" where
  "reconcileFrom k sij s = do {
     (r, s) \<leftarrow> fetchTemplateFor k sij s;
     case r of
       Inl e \<Rightarrow> Some (requeue (seconds 30) (Some e), s)
     | Inr tmpl \<Rightarrow> do {
         (e, s) \<leftarrow> preemptionPhase k sij s;
         case e of
           Some x \<Rightarrow> Some (failWith x, s)
         | None \<Rightarrow> do {
             (r, s) \<leftarrow> instancePhase k sij tmpl s;
             case r of
               Inl x \<Rightarrow> Some (failWith x, s)
             | Inr pending \<Rightarrow> jobPhase k sij pending s
           }
       }
   }"

definition reconcileLiveSIJ :: "'w kube \<Rightarrow> spot_job \<Rightarrow> 'w sys \<Rightarrow> (outcome \<times> 'w sys) option" where
  "reconcileLiveSIJ k sij s = do {
     (r, s) \<leftarrow> ensureFinalizerSIJ k sij s;
     case r of
       Inl e \<Rightarrow> Some (failWith e, s)
     | Inr sij \<Rightarrow> do {
         (r, s) \<leftarrow> initStatusSIJ k sij s;
         case r of
           Inl e \<Rightarrow> Some (failWith e, s)
         | Inr sij \<Rightarrow> reconcileFrom k sij s
       }
   }"

definition Reconcile :: "'w kube \<Rightarrow> string \<Rightarrow> string \<Rightarrow> 'w sys \<Rightarrow> (outcome \<times> 'w sys) option" where
  "Reconcile k ns nm s = do {
     (r, s) \<leftarrow> getSIJ k ns nm s;
     case r of
       Inl e \<Rightarrow> Some (if isNotFound e then finished else failWith e, s)
     | Inr sij \<Rightarrow>
         (if beingDeleted (sjMeta sij) then handleDeletionSIJ k sij s
          else reconcileLiveSIJ k sij s)
   }"

text \<open>The name by which controller-runtime asks for a SpotInstanceJob.\<close>

definition sijKey :: "spot_job \<Rightarrow> string \<times> string" where
  "sijKey sij = (mNamespace (sjMeta sij), mName (sjMeta sij))"

section \<open>Effects\<close>

lemma yields_updateStatus:
  "yields (updateStatus k sij) (\<lambda>r es. (es = [] \<and> r \<noteq> None) \<or>
     (\<exists>n e. es = [AUpdateSIJStatus (sij\<lparr>sjStatus := (sjStatus sij)\<lparr>ssActiveReplicas := n\<rparr>\<rparr>) e] \<and> r = e))"
  unfolding updateStatus_def [abs_def] Let_def
  by (intro yields_bind [OF yields_kread] yields_sum yields_ret yields_bind [OF yields_kcall]) auto

lemma returns_updateStatus [returns_intro]: "returns (updateStatus k sij)"
  unfolding updateStatus_def [abs_def] Let_def by (intro returns_intro)

lemma yields_deleteCheckpoints:
  "yields (deleteCheckpoints k cps)
     (\<lambda>_ es. \<exists>errs. length errs = length cps \<and> es = map2 ADeleteCheckpoint cps errs)"
proof (induction cps)
  case Nil
  show ?case unfolding deleteCheckpoints.simps(1) [abs_def] by (rule yields_ret) simp
next
  case (Cons cp cps)
  have 1: "\<exists>errs'. length errs' = Suc (length cps)
      \<and> ADeleteCheckpoint cp e # map2 ADeleteCheckpoint cps errs = map2 ADeleteCheckpoint (cp # cps) errs'"
    if "length errs = length cps" for e errs
    using that by (intro exI [of _ "e # errs"]) simp
  show ?case unfolding deleteCheckpoints.simps(2) [abs_def]
    by (intro yields_bind [OF yields_kcall] yields_mono [OF Cons]) (auto intro: 1)
qed

lemma yields_deletePIs:
  "yields (deletePIs k ps) (\<lambda>_ es. \<exists>errs. length errs = length ps \<and> es = map2 ADeletePI ps errs)"
proof (induction ps)
  case Nil
  show ?case unfolding deletePIs.simps(1) [abs_def] by (rule yields_ret) simp
next
  case (Cons p ps)
  have 1: "\<exists>errs'. length errs' = Suc (length ps)
      \<and> ADeletePI p e # map2 ADeletePI ps errs = map2 ADeletePI (p # ps) errs'"
    if "length errs = length ps" for e errs
    using that by (intro exI [of _ "e # errs"]) simp
  show ?case unfolding deletePIs.simps(2) [abs_def]
    by (intro yields_bind [OF yields_kcall] yields_mono [OF Cons]) (auto intro: 1)
qed

lemma returns_deleteCheckpoints [returns_intro]: "returns (deleteCheckpoints k cps)"
proof (induction cps)
  case Nil
  show ?case unfolding deleteCheckpoints.simps(1) [abs_def] by (intro returns_intro)
next
  case (Cons cp cps)
  show ?case unfolding deleteCheckpoints.simps(2) [abs_def] by (intro returns_intro Cons)
qed

lemma returns_deletePIs [returns_intro]: "returns (deletePIs k ps)"
proof (induction ps)
  case Nil
  show ?case unfolding deletePIs.simps(1) [abs_def] by (intro returns_intro)
next
  case (Cons p ps)
  show ?case unfolding deletePIs.simps(2) [abs_def] by (intro returns_intro Cons)
qed

lemma returns_handleDeletionSIJ [returns_intro]: "returns (handleDeletionSIJ k sij)"
  unfolding handleDeletionSIJ_def [abs_def] deleteAllCheckpoints_def [abs_def]
    removeFinalizerSIJ_def [abs_def]
  by (intro returns_intro)

text \<open>
  The cleanup of a SpotInstanceJob: the listed checkpoints are deleted, then the listed
  instances, each tried once, and only then the finalizer goes.
\<close>

definition cleansUpSIJ :: "'w kube \<Rightarrow> spot_job \<Rightarrow> prov_instance list \<Rightarrow> action list \<Rightarrow> bool" where
  "cleansUpSIJ k sij pis es \<longleftrightarrow> (\<exists>cps cerrs perrs e.
     length cerrs = length cps \<and> length perrs = length pis
     \<and> es = map2 ADeleteCheckpoint cps cerrs @ map2 ADeletePI pis perrs
          @ [AUpdateSIJ (sij\<lparr>sjMeta := kRemoveFinalizer k (sjMeta sij) spotInstanceJobFinalizer\<rparr>) e])"

definition listedPIs :: "'w kube \<Rightarrow> spot_job \<Rightarrow> prov_instance list \<Rightarrow> bool" where
  "listedPIs k sij pis \<longleftrightarrow> (\<exists>w w'. kListPI k (mNamespace (sjMeta sij))
     [(spotInstanceJobLabel, mName (sjMeta sij))] w = (Inr pis, w'))"

fun isDeleteCheckpoint :: "action \<Rightarrow> bool" where
  "isDeleteCheckpoint (ADeleteCheckpoint _ _) = True" | "isDeleteCheckpoint _ = False"

lemma deleteCheckpoints_only: "list_all isDeleteCheckpoint (map2 ADeleteCheckpoint cps errs)"
  by (auto simp: list_all_iff dest: set_zip_leftD)

lemma yields_deleteAllCheckpoints:
  "yields (deleteAllCheckpoints k sij)
     (\<lambda>_ es. \<exists>cps errs. length errs = length cps \<and> es = map2 ADeleteCheckpoint cps errs)"
proof -
  have "\<exists>cps errs. length errs = length cps \<and> [] = map2 ADeleteCheckpoint cps errs"
    by (rule exI [of _ "[]"], rule exI [of _ "[]"]) simp
  then show ?thesis
    unfolding deleteAllCheckpoints_def [abs_def]
    by (intro yields_bind [OF yields_kread] yields_sum yields_ret yields_mono [OF yields_deleteCheckpoints])
      auto
qed

lemma yields_removeFinalizerSIJ:
  "yields (removeFinalizerSIJ k sij) (\<lambda>r es. \<exists>e. es =
     [AUpdateSIJ (sij\<lparr>sjMeta := kRemoveFinalizer k (sjMeta sij) spotInstanceJobFinalizer\<rparr>) e]
     \<and> (snd r = None \<longleftrightarrow> e = None))"
  unfolding removeFinalizerSIJ_def [abs_def]
  by (intro yields_bind [OF yields_kcall] yields_sum yields_ret) auto

lemma cleansUpSIJI:
  "length cerrs = length cps \<Longrightarrow> length perrs = length pis \<Longrightarrow>
   cleansUpSIJ k sij pis (map2 ADeleteCheckpoint cps cerrs @ map2 ADeletePI pis perrs
     @ [AUpdateSIJ (sij\<lparr>sjMeta := kRemoveFinalizer k (sjMeta sij) spotInstanceJobFinalizer\<rparr>) e])"
  unfolding cleansUpSIJ_def by blast

lemma yields_handleDeletionSIJ:
  "yields (handleDeletionSIJ k sij) (\<lambda>r es.
     (\<exists>pis. listedPIs k sij pis \<and> cleansUpSIJ k sij pis es)
     \<or> (list_all isDeleteCheckpoint es
        \<and> (snd r \<noteq> None \<or> \<not> kHasFinalizer k (sjMeta sij) spotInstanceJobFinalizer \<and> es = [])))"
  unfolding handleDeletionSIJ_def [abs_def]
  by (intro yields_if yields_ret yields_bind [OF yields_deleteAllCheckpoints]
      yields_bind [OF yields_kread_val] yields_sum yields_bind [OF yields_deletePIs]
      yields_mono [OF yields_removeFinalizerSIJ])
    (auto simp: listedPIs_def deleteCheckpoints_only intro!: cleansUpSIJI)

section \<open>The phases of a pass\<close>

text \<open>Writes of the SpotInstanceJob itself.\<close>

fun isUpdateSIJ :: "action \<Rightarrow> bool" where
  "isUpdateSIJ (AUpdateSIJ _ _) = True"
| "isUpdateSIJ (AUpdateSIJStatus _ _) = True"
| "isUpdateSIJ _ = False"

lemma emits_ensureFinalizerSIJ [yields_op]: "emits isUpdateSIJ (ensureFinalizerSIJ k sij)"
  unfolding ensureFinalizerSIJ_def [abs_def] by (intro yields_intro yields_op emits_kcall) simp

lemma emits_initStatusSIJ [yields_op]: "emits isUpdateSIJ (initStatusSIJ k sij)"
  unfolding initStatusSIJ_def [abs_def] by (intro yields_intro yields_op emits_kcall) simp

lemma emits_updateStatus [yields_op]: "emits isUpdateSIJ (updateStatus k sij)"
  unfolding updateStatus_def [abs_def] Let_def by (intro yields_intro yields_op emits_kcall) simp

text \<open>What handling preemption may do to jobs and checkpoints.\<close>

definition preemptionAction :: "'w kube \<Rightarrow> spot_job \<Rightarrow> action \<Rightarrow> bool" where
  "preemptionAction k sij a \<longleftrightarrow>
     restoreAction k sij (\<lambda>_. True) a \<or> checkpointAction k sij a \<or> (\<exists>nm. a = ASpawn sij nm)"

lemma emits_preemptionPhase [yields_op]: "emits (preemptionAction k sij) (preemptionPhase k sij)"
  unfolding preemptionPhase_def [abs_def] preemptionAction_def [abs_def]
  by (intro yields_intro yields_op)

lemma returns_preemptionPhase [returns_intro]: "returns (preemptionPhase k sij)"
  unfolding preemptionPhase_def [abs_def] by (intro returns_intro)

text \<open>A create call for an instance of the SpotInstanceJob.\<close>

definition instanceAction :: "'w kube \<Rightarrow> spot_job \<Rightarrow> instance_template \<Rightarrow> action \<Rightarrow> bool" where
  "instanceAction k sij tmpl a \<longleftrightarrow> (\<exists>i. createsInstance k sij tmpl i a)"

lemma emits_createInstances:
  assumes "owners_only k" "in32 needed"
  shows "emits (instanceAction k sij tmpl) (createInstances k sij tmpl limit needed used 0 0)"
  unfolding emits_def
  using yields_createInstances [OF assms, of 0 0]
  by (rule yields_mono) (simp_all add: in32_def [of 0] allocates_def instanceAction_def [abs_def])

lemma emits_reconcileInstances:
  assumes "owners_only k"
  shows "emits (instanceAction k sij tmpl) (reconcileProvisionedInstances k sij tmpl)"
  unfolding reconcileProvisionedInstances_def [abs_def]
  by (intro yields_intro yields_op emits_createInstances [OF assms]) simp

lemma emits_instancePhase:
  assumes "owners_only k"
  shows "emits (instanceAction k sij tmpl) (instancePhase k sij tmpl)"
  unfolding instancePhase_def [abs_def]
  by (intro yields_intro yields_op emits_reconcileInstances [OF assms])

text \<open>Create calls that end: every scan for a free index does, and the successes are counted.\<close>

lemma nextFree_total:
  assumes "in32 i" "in32 limit"
  shows "\<exists>j. nextFree used limit i = Some j"
proof (cases "i < limit")
  case True
  with nextFree_below [OF assms] show ?thesis by blast
next
  case False
  show ?thesis
  proof (cases "i \<in> set used \<and> wrap32 (i + 1) < limit")
    case True
    then obtain j where "nextFree used limit (wrap32 (i + 1)) = Some j"
      using nextFree_below [OF in32_wrap32 assms(2)] by blast
    then show ?thesis using True by (subst nextFree.simps) (simp add: Let_def)
  next
    case False
    then show ?thesis by (subst nextFree.simps) (auto simp: Let_def)
  qed
qed

lemma returns_createInstances:
  assumes k: "creates_succeed k" and n: "in32 needed" "in32 limit"
  shows "in32 i \<Longrightarrow> 0 \<le> created \<Longrightarrow> returns (createInstances k sij tmpl limit needed used i created)"
proof (induction "nat (needed - created)" arbitrary: used i created)
  case 0
  have "createInstances k sij tmpl limit needed used i created = (\<lambda>s. Some (None, s))"
    by (rule ext, subst createInstances.simps) (use 0 in simp)
  then show ?case by (simp add: returns_ret)
next
  case (Suc n)
  from nextFree_total [OF Suc.prems(1) assms(3)] obtain j where j: "nextFree used limit i = Some j" by blast
  show ?case unfolding returns_def
  proof
    fix s :: "'a sys"
    obtain now w1 where now: "kNow k (world s) = (now, w1)" by fastforce
    obtain m where m: "kSetCtrlRef k (sjMeta sij) (piMeta (newInstance sij tmpl j now)) = Inr m"
      using k unfolding creates_succeed_def by blast
    obtain w2 where cr: "kCreatePI k ((newInstance sij tmpl j now)\<lparr>piMeta := m\<rparr>) w1 = (None, w2)"
      using k unfolding creates_succeed_def by (metis prod.collapse)
    from Suc(2) n(1) Suc.prems(2) have c: "wrap32 (created + 1) = created + 1"
      by (intro wrap32_id) (auto simp: in32_def)
    have "returns (createInstances k sij tmpl limit needed (j # used) (wrap32 (j + 1)) (created + 1))"
      using Suc(2) Suc.prems(2) by (intro Suc(1)) auto
    with Suc(2) j now m cr c show "createInstances k sij tmpl limit needed used i created s \<noteq> None"
      by (subst createInstances.simps) (simp add: kread_def kcall_def Let_def returns_def)
  qed
qed

lemma returns_instancePhase:
  assumes "creates_succeed k"
  shows "returns (instancePhase k sij tmpl)"
  unfolding instancePhase_def [abs_def] reconcileProvisionedInstances_def [abs_def]
    waitsForCheckpoint_def [abs_def]
  by (intro returns_intro returns_createInstances [OF assms]) (simp_all add: in32_def [of 0])

text \<open>A create call for a replica of the SpotInstanceJob.\<close>

definition jobAction :: "'w kube \<Rightarrow> spot_job \<Rightarrow> action \<Rightarrow> bool" where
  "jobAction k sij a \<longleftrightarrow> (\<exists>i. 0 \<le> i \<and> i < wrap32 (desiredReplicas sij * 2) \<and> startsReplica k sij i a)"

text \<open>Jobs first, then at most one write of the status.\<close>

definition jobsThenStatus :: "'w kube \<Rightarrow> spot_job \<Rightarrow> action list \<Rightarrow> bool" where
  "jobsThenStatus k sij es \<longleftrightarrow> (\<exists>js us. es = js @ us \<and> list_all (jobAction k sij) js
     \<and> list_all isUpdateSIJ us \<and> length us \<le> 1)"

lemma jobsThenStatus_jobs: "list_all (jobAction k sij) js \<Longrightarrow> jobsThenStatus k sij js"
  unfolding jobsThenStatus_def by (intro exI [of _ js] exI [of _ "[]"]) simp

lemma jobsThenStatus_status:
  "list_all (jobAction k sij) js \<Longrightarrow> isUpdateSIJ u \<Longrightarrow> jobsThenStatus k sij (js @ [u])"
  unfolding jobsThenStatus_def by (intro exI [of _ js] exI [of _ "[u]"]) simp

lemma yields_jobPhase:
  assumes "owners_only k"
  shows "yields (jobPhase k sij pending) (\<lambda>r es. jobsThenStatus k sij es
    \<and> (snd r = None \<longrightarrow> requeueAfter (fst r) = (if pending then seconds 30 else minutes 1)))"
proof -
  have 1: "yields (reconcileJobReplicas k sij) (\<lambda>_ es. list_all (jobAction k sij) es)"
    by (rule yields_mono [OF yields_reconcileJobReplicas [OF assms]]) (simp add: jobAction_def [abs_def])
  show ?thesis unfolding jobPhase_def [abs_def]
    by (intro yields_bind [OF 1] yields_pair yields_option yields_ret yields_bind [OF yields_updateStatus])
      (auto intro: jobsThenStatus_jobs jobsThenStatus_status)
qed

lemma returns_jobPhase:
  "returns (jobPhase k sij pending)"
  unfolding jobPhase_def [abs_def]
  by (intro returns_intro)

text \<open>
  The whole pass from the template on: first what preemption asks for, then instances, then
  jobs, then the status.
\<close>

definition inPhases :: "'w kube \<Rightarrow> spot_job \<Rightarrow> action list \<Rightarrow> bool" where
  "inPhases k sij es \<longleftrightarrow> (\<exists>ps is js us tmpl. es = ps @ is @ js @ us
     \<and> list_all (preemptionAction k sij) ps \<and> list_all (instanceAction k sij tmpl) is
     \<and> list_all (jobAction k sij) js \<and> list_all isUpdateSIJ us \<and> length us \<le> 1)"

lemma inPhasesI:
  "list_all (preemptionAction k sij) ps \<Longrightarrow> list_all (instanceAction k sij tmpl) is \<Longrightarrow>
   list_all (jobAction k sij) js \<Longrightarrow> list_all isUpdateSIJ us \<Longrightarrow> length us \<le> 1 \<Longrightarrow>
   inPhases k sij (ps @ is @ js @ us)"
  unfolding inPhases_def by blast

lemma inPhases_Nil [simp]: "inPhases k sij []"
  using inPhasesI [of k sij "[]" undefined "[]" "[]" "[]"] by simp

lemma inPhases_preemption: "list_all (preemptionAction k sij) ps \<Longrightarrow> inPhases k sij ps"
  using inPhasesI [of k sij ps undefined "[]" "[]" "[]"] by simp

lemma inPhases_instances:
  "list_all (preemptionAction k sij) ps \<Longrightarrow> list_all (instanceAction k sij tmpl) is \<Longrightarrow> inPhases k sij (ps @ is)"
  using inPhasesI [of k sij ps tmpl "is" "[]" "[]"] by simp

lemma yields_reconcileFrom:
  assumes "owners_only k"
  shows "yields (reconcileFrom k sij) (\<lambda>r es. inPhases k sij es)"
proof -
  have tmpl: "yields (fetchTemplateFor k sij) (\<lambda>r es. es = [])"
    unfolding fetchTemplateFor_def [abs_def] by (rule yields_kread)
  show ?thesis
    unfolding reconcileFrom_def [abs_def]
    by (intro yields_bind [OF tmpl] yields_sum yields_ret yields_option
        yields_bind [OF emits_preemptionPhase [unfolded emits_def]]
        yields_bind [OF emits_instancePhase [OF assms, unfolded emits_def]]
        yields_mono [OF yields_jobPhase [OF assms]])
      (auto simp: jobsThenStatus_def intro: inPhases_preemption inPhases_instances inPhasesI)
qed

lemma returns_reconcileFrom:
  assumes "creates_succeed k"
  shows "returns (reconcileFrom k sij)"
  unfolding reconcileFrom_def [abs_def] fetchTemplateFor_def [abs_def]
  by (intro returns_intro returns_instancePhase [OF assms] returns_jobPhase)

section \<open>The live pass\<close>

abbreviation addedFinalizerSIJ :: "'w kube \<Rightarrow> spot_job \<Rightarrow> spot_job" where
  "addedFinalizerSIJ k sij \<equiv> sij\<lparr>sjMeta := kAddFinalizer k (sjMeta sij) spotInstanceJobFinalizer\<rparr>"

lemma yields_ensureFinalizerSIJ:
  "yields (ensureFinalizerSIJ k sij) (\<lambda>r es.
     (es = [] \<and> kHasFinalizer k (sjMeta sij) spotInstanceJobFinalizer)
     \<or> (\<exists>e. es = [AUpdateSIJ (addedFinalizerSIJ k sij) e] \<and> (e \<noteq> None \<longrightarrow> (\<exists>x. r = Inl x))))"
  unfolding ensureFinalizerSIJ_def [abs_def]
  by (intro yields_if yields_ret yields_mono [OF yields_kcall]) (auto simp: errOf_def split: sum.splits)

lemma yields_initStatusSIJ:
  "yields (initStatusSIJ k sij) (\<lambda>r es. list_all isUpdateSIJ es \<and> length es \<le> 1)"
  unfolding initStatusSIJ_def [abs_def]
  by (intro yields_if yields_ret yields_mono [OF yields_kcall]) auto

text \<open>
  The finalizer is in place before anything else happens; then come the status and the
  phases of the pass.
\<close>

definition livePass :: "'w kube \<Rightarrow> spot_job \<Rightarrow> action list \<Rightarrow> bool" where
  "livePass k sij es \<longleftrightarrow> (\<exists>us sij' rest. es = us @ rest \<and> list_all isUpdateSIJ us \<and> length us \<le> 2
     \<and> inPhases k sij' rest
     \<and> (rest = [] \<or> kHasFinalizer k (sjMeta sij) spotInstanceJobFinalizer
        \<or> hd us = AUpdateSIJ (addedFinalizerSIJ k sij) None \<and> us \<noteq> []))"

lemma livePassI:
  "list_all isUpdateSIJ us \<Longrightarrow> length us \<le> Suc 0 \<Longrightarrow> inPhases k sij' rest \<Longrightarrow>
   kHasFinalizer k (sjMeta sij) spotInstanceJobFinalizer \<Longrightarrow> livePass k sij (us @ rest)"
  "list_all isUpdateSIJ us \<Longrightarrow> length us \<le> Suc 0 \<Longrightarrow> inPhases k sij' rest \<Longrightarrow>
   livePass k sij (AUpdateSIJ (addedFinalizerSIJ k sij) None # us @ rest)"
  unfolding livePass_def
  by (rule exI [of _ us], auto) (rule exI [of _ "AUpdateSIJ (addedFinalizerSIJ k sij) None # us"], auto)

lemma livePass_updates: "list_all isUpdateSIJ us \<Longrightarrow> length us \<le> 2 \<Longrightarrow> livePass k sij us"
  unfolding livePass_def by (rule exI [of _ us]) (auto intro: exI [of _ sij])

lemma yields_reconcileLiveSIJ:
  assumes "owners_only k"
  shows "yields (reconcileLiveSIJ k sij) (\<lambda>_ es. livePass k sij es)"
  unfolding reconcileLiveSIJ_def [abs_def]
  by (intro yields_bind [OF yields_ensureFinalizerSIJ] yields_bind [OF yields_initStatusSIJ]
      yields_sum yields_ret yields_mono [OF yields_reconcileFrom [OF assms]])
    (auto intro: livePassI livePass_updates)

lemma returns_reconcileLiveSIJ:
  assumes "creates_succeed k"
  shows "returns (reconcileLiveSIJ k sij)"
  unfolding reconcileLiveSIJ_def [abs_def] ensureFinalizerSIJ_def [abs_def] initStatusSIJ_def [abs_def]
  by (intro returns_intro returns_reconcileFrom [OF assms])

lemma returns_Reconcile:
  assumes "creates_succeed k"
  shows "returns (Reconcile k ns nm)"
  unfolding Reconcile_def [abs_def]
  by (intro returns_intro returns_reconcileLiveSIJ [OF assms])

section \<open>Properties\<close>

text \<open>
  C5. A pass over a SpotInstanceJob that is not being deleted comes back
  when create calls for instances go through, and acts in a fixed order: at most two writes of
  the SpotInstanceJob itself, the first of which puts the finalizer in place unless it was
  there; then what preemption asks for (jobs restored, checkpoints, goroutines); then new
  instances; then new jobs; then at most one status write. It never deletes an instance or a
  checkpoint, and deletes a job only to restore it.
\<close>

theorem reconcile_in_order:
  assumes k: "owners_only k" "creates_succeed k"
    and get: "kGetSIJ k ns nm (world s) = (Inr sij, w)" "\<not> beingDeleted (sjMeta sij)"
  shows "\<exists>r s' us sij' ps is js ts tmpl. Reconcile k ns nm s = Some (r, s')
    \<and> trace s' = trace s @ us @ ps @ is @ js @ ts
    \<and> list_all isUpdateSIJ us \<and> length us \<le> 2
    \<and> list_all (preemptionAction k sij') ps \<and> list_all (instanceAction k sij' tmpl) is
    \<and> list_all (jobAction k sij') js \<and> list_all isUpdateSIJ ts \<and> length ts \<le> 1
    \<and> (ps @ is @ js @ ts = [] \<or> kHasFinalizer k (sjMeta sij) spotInstanceJobFinalizer
       \<or> hd us = AUpdateSIJ (addedFinalizerSIJ k sij) None)"
proof -
  obtain r s' where run: "Reconcile k ns nm s = Some (r, s')"
    using returns_Reconcile [OF k(2)] unfolding returns_def by fastforce
  with get have "reconcileLiveSIJ k sij (s\<lparr>world := w\<rparr>) = Some (r, s')"
    by (simp add: Reconcile_def kread_def)
  from yieldsE [OF yields_reconcileLiveSIJ [OF k(1)] this] obtain es
    where es: "trace s' = trace s @ es" "livePass k sij es" by auto
  from es(2) obtain us sij' rest where us: "es = us @ rest" "list_all isUpdateSIJ us" "length us \<le> 2"
    and rest: "inPhases k sij' rest"
    and fin: "rest = [] \<or> kHasFinalizer k (sjMeta sij) spotInstanceJobFinalizer
       \<or> hd us = AUpdateSIJ (addedFinalizerSIJ k sij) None"
    unfolding livePass_def by blast
  from rest obtain ps "is" js ts tmpl where 1: "rest = ps @ is @ js @ ts"
    and 2: "list_all (preemptionAction k sij') ps" "list_all (instanceAction k sij' tmpl) is"
      "list_all (jobAction k sij') js" "list_all isUpdateSIJ ts" "length ts \<le> 1"
    unfolding inPhases_def by blast
  have "trace s' = trace s @ us @ ps @ is @ js @ ts" using es(1) us(1) 1 by simp
  with run us(2,3) 2 fin [unfolded 1] show ?thesis by blast
qed

theorem reconcile_in_order_witness:
  "\<exists>r s'. Reconcile openKube ''ns'' ''train'' \<lparr>world = exCluster\<lparr>clSIJs := [exSIJ]\<rparr>, trace = []\<rparr> = Some (r, s')
     \<and> filter isDeleteNode (trace s') = []"
proof -
  have get: "kGetSIJ openKube ''ns'' ''train'' (world \<lparr>world = exCluster\<lparr>clSIJs := [exSIJ]\<rparr>, trace = []\<rparr>)
      = (Inr exSIJ, exCluster\<lparr>clSIJs := [exSIJ]\<rparr>)"
    by (simp add: openKube_def checkpoint_examples cluster_eval example_defs)
  have live: "\<not> beingDeleted (sjMeta exSIJ)"
    by (simp add: checkpoint_examples cluster_eval example_defs)
  have none: "filter isDeleteNode (us @ ps @ is @ js @ ts) = []"
    if "list_all isUpdateSIJ us" "list_all (preemptionAction openKube sij') ps"
      "list_all (instanceAction openKube sij' tmpl) is" "list_all (jobAction openKube sij') js"
      "list_all isUpdateSIJ ts" for us ps "is" js ts sij' tmpl
  proof -
    have "filter isDeleteNode us = []" "filter isDeleteNode ts = []"
      using that(1,5) by (auto simp: list_all_iff filter_empty_conv elim!: isDeleteNode.elims)
    moreover have "filter isDeleteNode ps = []" using that(2)
      by (auto simp: list_all_iff filter_empty_conv preemptionAction_def restoreAction_def
          dest!: checkpointAction_chosen elim!: isDeleteNode.elims)
    moreover have "filter isDeleteNode is = []" using that(3)
      by (auto simp: list_all_iff filter_empty_conv instanceAction_def createsInstance_def
          elim!: isDeleteNode.elims)
    moreover have "filter isDeleteNode js = []" using that(4)
      by (auto simp: list_all_iff filter_empty_conv jobAction_def startsReplica_def
          elim!: isDeleteNode.elims)
    ultimately show ?thesis by simp
  qed
  from reconcile_in_order [OF openKube_laws get live] none show ?thesis by (metis append_Nil sys.select_convs(2))
qed

section \<open>While a checkpoint is in progress\<close>

text \<open>
  A world in which the API server lists a checkpoint of the SpotInstanceJob nm in ns that is
  in progress. What a pass reads, and its writes of the SpotInstanceJob, leave it so; a read or
  a write of the SpotInstanceJob that goes through answers with the object of that name.
\<close>

locale busy_server =
  fixes k :: "'w kube" and ns nm :: string and busy :: "'w \<Rightarrow> bool"
  assumes checkpoints: "busy w \<Longrightarrow> \<exists>cps w'. kListCheckpoint k ns [(spotInstanceJobLabel, nm)] w = (Inr cps, w')
      \<and> list_ex inProgress cps \<and> busy w'"
    and get_job: "busy w \<Longrightarrow> kGetSIJ k ns nm w = (r, w') \<Longrightarrow> busy w' \<and> (\<forall>x. r = Inr x \<longrightarrow> sijKey x = (ns, nm))"
    and get_template: "busy w \<Longrightarrow> kGetTemplate k ns tmpl w = (t, w') \<Longrightarrow> busy w'"
    and list_jobs: "busy w \<Longrightarrow> kListJob k ns sel w = (js, w') \<Longrightarrow> busy w'"
    and update: "busy w \<Longrightarrow> sijKey x = (ns, nm) \<Longrightarrow> kUpdateSIJ k x w = (r, w') \<Longrightarrow>
      busy w' \<and> (\<forall>y. r = Inr y \<longrightarrow> sijKey y = (ns, nm))"
    and write_status: "busy w \<Longrightarrow> sijKey x = (ns, nm) \<Longrightarrow> kUpdateSIJStatus k x w = (r, w') \<Longrightarrow>
      busy w' \<and> (\<forall>y. r = Inr y \<longrightarrow> sijKey y = (ns, nm))"
    and finalizer: "mName (kAddFinalizer k m f) = mName m" "mNamespace (kAddFinalizer k m f) = mNamespace m"
begin

lemma pending: "sijKey sij = (ns, nm) \<Longrightarrow> during busy (hasPendingCheckpoints k sij) (\<lambda>r es. r = Inr True \<and> es = [])"
  using checkpoints by (fastforce simp: during_def hasPendingCheckpoints_def kread_def sijKey_def)

lemma template: "sijKey sij = (ns, nm) \<Longrightarrow> during busy (fetchTemplateFor k sij) (\<lambda>r es. es = [])"
  unfolding fetchTemplateFor_def [abs_def]
  by (rule during_kread) (auto simp: sijKey_def dest: get_template)

lemma jobs_listed: "sijKey sij = (ns, nm) \<Longrightarrow> during busy (listJob k (mNamespace (sjMeta sij)) sel) (\<lambda>r es. es = [])"
  by (rule during_kread) (auto simp: sijKey_def dest: list_jobs)

lemma status_updated:
  assumes "sijKey sij = (ns, nm)"
  shows "during busy (updateStatus k sij) (\<lambda>r es. list_all isUpdateSIJ es)"
proof -
  have 1: "during busy (updateSIJStatus k (sij\<lparr>sjStatus := st\<rparr>)) (\<lambda>r es. list_all isUpdateSIJ es)" for st
    using assms by (intro during_kcall) (auto simp: sijKey_def dest!: write_status [rotated 2])
  show ?thesis unfolding updateStatus_def [abs_def] Let_def
    by (intro during_bind [OF jobs_listed [OF assms]] during_bind [OF 1] during_sum during_ret) simp_all
qed

lemma jobs_phase:
  assumes "sijKey sij = (ns, nm)"
  shows "during busy (jobPhase k sij True) (\<lambda>r es. list_all isUpdateSIJ es
    \<and> (snd r = None \<longrightarrow> requeueAfter (fst r) = seconds 30))"
proof -
  have 1: "during busy (reconcileJobReplicas k sij) (\<lambda>r es. es = [] \<and> snd r = sij)"
    unfolding reconcileJobReplicas_def [abs_def]
    by (intro during_bind [OF jobs_listed [OF assms]] during_bind [OF pending [OF assms]] during_sum
        during_if during_ret) auto
  have 2: "during busy (updateStatus k sij') (\<lambda>r es. list_all isUpdateSIJ es)" if "sij' = sij" for sij'
    using that assms by (simp add: status_updated)
  show ?thesis unfolding jobPhase_def [abs_def]
    by (intro during_bind [OF 1] during_pair during_option during_ret during_bind [OF 2]) auto
qed

lemma phases:
  assumes "sijKey sij = (ns, nm)"
  shows "during busy (reconcileFrom k sij) (\<lambda>r es. list_all isUpdateSIJ es
    \<and> (snd r = None \<longrightarrow> requeueAfter (fst r) = seconds 30))"
proof -
  have 1: "during busy (preemptionPhase k sij) (\<lambda>r es. es = [] \<and> r = None)"
    unfolding preemptionPhase_def [abs_def]
    by (intro during_bind [OF pending [OF assms]] during_sum during_if during_ret) auto
  have 2: "during busy (instancePhase k sij tmpl) (\<lambda>r es. es = [] \<and> r = Inr True)" for tmpl
    unfolding instancePhase_def [abs_def]
    by (intro during_bind [OF pending [OF assms]] during_sum during_if during_ret) auto
  show ?thesis unfolding reconcileFrom_def [abs_def]
    by (intro during_bind [OF template [OF assms]] during_bind [OF 1] during_bind [OF 2] during_sum
        during_option during_ret) (auto intro: jobs_phase [OF assms])
qed

lemma live_pass:
  assumes "sijKey sij = (ns, nm)"
  shows "during busy (reconcileLiveSIJ k sij) (\<lambda>r es. list_all isUpdateSIJ es
    \<and> (snd r = None \<longrightarrow> requeueAfter (fst r) = seconds 30))"
proof -
  let ?Q = "\<lambda>r es. list_all isUpdateSIJ es \<and> (\<forall>y. r = Inr y \<longrightarrow> sijKey y = (ns, nm))"
  have 1: "during busy (ensureFinalizerSIJ k sij) ?Q"
    unfolding ensureFinalizerSIJ_def [abs_def] using assms
    by (intro during_if during_ret during_kcall) (auto simp: sijKey_def finalizer dest!: update [rotated 2])
  have 2: "during busy (initStatusSIJ k sij) ?Q" if "sijKey sij = (ns, nm)" for sij
    unfolding initStatusSIJ_def [abs_def] using that
    by (intro during_if during_ret during_kcall) (auto simp: sijKey_def dest!: write_status [rotated 2])
  show ?thesis unfolding reconcileLiveSIJ_def [abs_def]
    by (intro during_bind [OF 1] during_bind [OF 2] during_sum during_ret during_mono [OF phases]) auto
qed

lemma gated:
  assumes "busy (world s)" "kGetSIJ k ns nm (world s) = (Inr sij, w)" "\<not> beingDeleted (sjMeta sij)"
  shows "\<exists>r s' es. Reconcile k ns nm s = Some (r, s') \<and> trace s' = trace s @ es \<and> busy (world s')
    \<and> list_all isUpdateSIJ es \<and> (snd r = None \<longrightarrow> requeueAfter (fst r) = seconds 30)"
proof -
  from get_job [OF assms(1,2)] have w: "busy (world (s\<lparr>world := w\<rparr>))" "sijKey sij = (ns, nm)" by simp_all
  from live_pass [OF w(2)] w(1) obtain r s' es where "reconcileLiveSIJ k sij (s\<lparr>world := w\<rparr>) = Some (r, s')"
    "busy (world s')" "trace s' = trace (s\<lparr>world := w\<rparr>) @ es"
    "list_all isUpdateSIJ es \<and> (snd r = None \<longrightarrow> requeueAfter (fst r) = seconds 30)" by (rule duringE)
  with assms(2,3) show ?thesis by (simp add: Reconcile_def kread_def)
qed

end

text \<open>The reference server with a checkpoint of the SpotInstanceJob train that is in progress.\<close>

definition checkpointing :: "cluster \<Rightarrow> bool" where
  "checkpointing c \<longleftrightarrow> fault ''list checkpoint'' c = None
     \<and> list_ex (\<lambda>cp. selected ''ns'' [(spotInstanceJobLabel, ''train'')] (cpMeta cp) \<and> inProgress cp) (clCheckpoints c)"

lemma refUpdate_checkpointing:
  assumes "refUpdate op sjMeta merge (clSIJs c) setSIJs x c = (r, c')" "checkpointing c"
    and merge: "\<And>y. sjMeta (merge x y) = sjMeta x \<or> sjMeta (merge x y) = sjMeta y"
  shows "checkpointing c' \<and> (\<forall>y. r = Inr y \<longrightarrow> sijKey y = sijKey x)"
proof -
  have "checkpointing (setSIJs xs c) \<longleftrightarrow> checkpointing c" for xs
    by (simp add: checkpointing_def fault_def setSIJs_def)
  moreover have "sijKey (merge x y) = sijKey x"
    if "find (\<lambda>y. named (mNamespace (sjMeta x)) (mName (sjMeta x)) (sjMeta y)) (clSIJs c) = Some y" for y
    using that merge [of y] by (auto simp: find_Some_iff named_def sijKey_def)
  ultimately show ?thesis using assms(1,2)
    by (auto simp: refUpdate_def Let_def split: option.splits)
qed

interpretation checkpointing: busy_server refKube "''ns''" "''train''" checkpointing
proof unfold_locales
  fix w assume "checkpointing w"
  then show "\<exists>cps w'. kListCheckpoint refKube ''ns'' [(spotInstanceJobLabel, ''train'')] w = (Inr cps, w')
      \<and> list_ex inProgress cps \<and> checkpointing w'"
    by (auto simp: checkpointing_def refList_def list_ex_iff)
next
  fix w r w' assume "checkpointing w" "kGetSIJ refKube ''ns'' ''train'' w = (r, w')"
  then show "checkpointing w' \<and> (\<forall>x. r = Inr x \<longrightarrow> sijKey x = (''ns'', ''train''))"
    by (auto simp: refGet_def find_Some_iff named_def sijKey_def split: option.splits)
next
  fix w x r w' assume "checkpointing w" "sijKey x = (''ns'', ''train'')" "kUpdateSIJ refKube x w = (r, w')"
  then show "checkpointing w' \<and> (\<forall>y. r = Inr y \<longrightarrow> sijKey y = (''ns'', ''train''))"
    using refUpdate_checkpointing [of "''update sij''" "\<lambda>x y. x\<lparr>sjStatus := sjStatus y\<rparr>" w x r w'] by simp
next
  fix w x r w' assume "checkpointing w" "sijKey x = (''ns'', ''train'')" "kUpdateSIJStatus refKube x w = (r, w')"
  then show "checkpointing w' \<and> (\<forall>y. r = Inr y \<longrightarrow> sijKey y = (''ns'', ''train''))"
    using refUpdate_checkpointing [of "''update sij status''" "\<lambda>x y. y\<lparr>sjStatus := sjStatus x\<rparr>" w x r w'] by simp
qed (auto simp: refGet_def refList_def split: option.splits)

text \<open>
  C19. While the API server lists, for the namespace and the label of
  the SpotInstanceJob, a checkpoint that is in progress, a pass over it comes back and creates
  no instance and no job, handles no preemption and starts no goroutine, whichever of its calls
  fail: it writes the SpotInstanceJob and nothing else, and if it succeeds it asks to be called
  again in 30 seconds.
\<close>

theorem pending_checkpoint_gate:
  assumes server: "busy_server k ns nm busy" "busy (world s)"
    and get: "kGetSIJ k ns nm (world s) = (Inr sij, w)" "\<not> beingDeleted (sjMeta sij)"
  shows "\<exists>r s' es. Reconcile k ns nm s = Some (r, s') \<and> trace s' = trace s @ es \<and> busy (world s')
    \<and> list_all isUpdateSIJ es \<and> (snd r = None \<longrightarrow> requeueAfter (fst r) = seconds 30)"
  by (rule busy_server.gated [OF server get])

text \<open>The checkpoint of another SpotInstanceJob is finished, that of train is running.\<close>

definition gatedCluster :: cluster where
  "gatedCluster = exCluster\<lparr>clSIJs := [exSIJ], clPIs := [preemptedPI],
     clCheckpoints := [(exCheckpoint ''i'' ''Completed'')\<lparr>cpMeta := exMeta ''other''\<rparr>, exCheckpoint ''j'' ''Running'']\<rparr>"

theorem pending_checkpoint_gate_witness:
  "\<exists>r s'. Reconcile refKube ''ns'' ''train'' \<lparr>world = gatedCluster, trace = []\<rparr> = Some (r, s')
     \<and> list_all isUpdateSIJ (trace s') \<and> checkpointing (world s')"
proof -
  let ?s = "\<lparr>world = gatedCluster, trace = []\<rparr>"
  have 1: "checkpointing (world ?s)"
    by (simp add: checkpointing_def gatedCluster_def inProgress_def terminalPhase_def newCheckpoint_def
        checkpoint_examples cluster_eval example_defs split: prod.splits)
  have 2: "kGetSIJ refKube ''ns'' ''train'' (world ?s) = (Inr exSIJ, gatedCluster)"
    by (simp add: gatedCluster_def checkpoint_examples cluster_eval example_defs)
  have 3: "\<not> beingDeleted (sjMeta exSIJ)"
    by (simp add: checkpoint_examples cluster_eval example_defs)
  from pending_checkpoint_gate [OF checkpointing.busy_server_axioms 1 2 3] show ?thesis by auto
qed

section \<open>What is left behind a deletion\<close>

text \<open>What follows the checkpoints: the listed instances, each tried once, then the finalizer.\<close>

definition afterCheckpoints :: "'w kube \<Rightarrow> spot_job \<Rightarrow> outcome \<Rightarrow> action list \<Rightarrow> bool" where
  "afterCheckpoints k sij r es \<longleftrightarrow>
     (\<exists>pis perrs e. listedPIs k sij pis \<and> length perrs = length pis
        \<and> es = map2 ADeletePI pis perrs
             @ [AUpdateSIJ (sij\<lparr>sjMeta := kRemoveFinalizer k (sjMeta sij) spotInstanceJobFinalizer\<rparr>) e]
        \<and> (snd r = None \<longleftrightarrow> e = None))
     \<or> es = [] \<and> (\<exists>w x w'. kListPI k (mNamespace (sjMeta sij)) [(spotInstanceJobLabel, mName (sjMeta sij))] w
          = (Inl x, w') \<and> snd r = Some x)"

lemma afterCheckpointsI:
  "listedPIs k sij pis \<Longrightarrow> length perrs = length pis \<Longrightarrow> (snd r = None \<longleftrightarrow> e = None) \<Longrightarrow>
   afterCheckpoints k sij r (map2 ADeletePI pis perrs
     @ [AUpdateSIJ (sij\<lparr>sjMeta := kRemoveFinalizer k (sjMeta sij) spotInstanceJobFinalizer\<rparr>) e])"
  unfolding afterCheckpoints_def by (intro disjI1 exI [of _ pis] exI [of _ perrs] exI [of _ e]) simp

lemma yields_afterCheckpoints:
  "yields (\<lambda>s. Option.bind (listPI k (mNamespace (sjMeta sij)) [(spotInstanceJobLabel, mName (sjMeta sij))] s)
      (\<lambda>(r, s). case r of Inl e \<Rightarrow> Some (failWith e, s)
        | Inr pis \<Rightarrow> Option.bind (deletePIs k pis s) (\<lambda>(u, s). removeFinalizerSIJ k sij s)))
     (afterCheckpoints k sij)"
  by (intro yields_bind [OF yields_kread_val] yields_sum yields_ret yields_bind [OF yields_deletePIs]
      yields_mono [OF yields_removeFinalizerSIJ])
    (auto simp: listedPIs_def intro!: afterCheckpointsI, auto simp: afterCheckpoints_def)

text \<open>
  C20. A SpotInstanceJob that is being deleted is updated at most
  once, to take its own finalizer away, and last: before that every checkpoint that was listed
  for it, and then every instance that was listed for it, has been asked to be deleted, in the
  order of the lists, each exactly once, whether or not the calls went through. When the
  checkpoints cannot be listed the instances are deleted all the same; when the instances
  cannot be listed the finalizer stays and the pass fails. Without the finalizer nothing is
  done.
\<close>

theorem owned_objects_deleted_first:
  assumes get: "kGetSIJ k ns nm (world s) = (Inr sij, w)" "beingDeleted (sjMeta sij)"
  shows "\<exists>r s' es. Reconcile k ns nm s = Some (r, s') \<and> trace s' = trace s @ es \<and>
    (if kHasFinalizer k (sjMeta sij) spotInstanceJobFinalizer
     then \<exists>cps cerrs rest. es = map2 ADeleteCheckpoint cps cerrs @ rest \<and> length cerrs = length cps
        \<and> cps = (case fst (kListCheckpoint k (mNamespace (sjMeta sij))
                   [(spotInstanceJobLabel, mName (sjMeta sij))] w) of Inl _ \<Rightarrow> [] | Inr cps \<Rightarrow> cps)
        \<and> ((\<exists>pis perrs e. listedPIs k sij pis \<and> length perrs = length pis
              \<and> rest = map2 ADeletePI pis perrs
                  @ [AUpdateSIJ (sij\<lparr>sjMeta := kRemoveFinalizer k (sjMeta sij) spotInstanceJobFinalizer\<rparr>) e]
              \<and> (snd r = None \<longleftrightarrow> e = None))
           \<or> rest = [] \<and> snd r \<noteq> None
              \<and> (\<exists>w x w'. kListPI k (mNamespace (sjMeta sij)) [(spotInstanceJobLabel, mName (sjMeta sij))] w
                   = (Inl x, w')))
     else es = [] \<and> r = finished)"
proof (cases "kHasFinalizer k (sjMeta sij) spotInstanceJobFinalizer")
  case False
  with get show ?thesis
    by (intro exI [of _ finished] exI [of _ "s\<lparr>world := w\<rparr>"] exI [of _ "[]"])
      (simp add: Reconcile_def handleDeletionSIJ_def kread_def)
next
  case True
  let ?rest = "\<lambda>s. Option.bind (listPI k (mNamespace (sjMeta sij)) [(spotInstanceJobLabel, mName (sjMeta sij))] s)
      (\<lambda>(r, s). case r of Inl e \<Rightarrow> Some (failWith e, s)
        | Inr pis \<Rightarrow> Option.bind (deletePIs k pis s) (\<lambda>(u, s). removeFinalizerSIJ k sij s))"
  obtain x w1 where list: "kListCheckpoint k (mNamespace (sjMeta sij))
      [(spotInstanceJobLabel, mName (sjMeta sij))] w = (x, w1)" by fastforce
  let ?cps = "case x of Inl _ \<Rightarrow> [] | Inr cps \<Rightarrow> cps"
  obtain u s1 where del: "deleteCheckpoints k ?cps (s\<lparr>world := w1\<rparr>) = Some (u, s1)"
    using returns_deleteCheckpoints unfolding returns_def by fastforce
  from yieldsE [OF yields_deleteCheckpoints del] obtain cerrs where
    1: "trace s1 = trace s @ map2 ADeleteCheckpoint ?cps cerrs" "length cerrs = length ?cps" by auto
  have all: "deleteAllCheckpoints k sij (s\<lparr>world := w\<rparr>) = Some (u, s1)"
    using list del by (cases x) (simp_all add: deleteAllCheckpoints_def kread_def)
  obtain r s' where run: "?rest s1 = Some (r, s')"
  proof -
    have "returns ?rest" unfolding removeFinalizerSIJ_def [abs_def] by (intro returns_intro)
    then show ?thesis using that unfolding returns_def by fastforce
  qed
  from yieldsE [OF yields_afterCheckpoints run] obtain rest where
    2: "trace s' = trace s1 @ rest" "afterCheckpoints k sij r rest" .
  have R: "Reconcile k ns nm s = Some (r, s')"
    using get True all run by (simp add: Reconcile_def handleDeletionSIJ_def kread_def)
  have 3: "(\<exists>pis perrs e. listedPIs k sij pis \<and> length perrs = length pis
        \<and> rest = map2 ADeletePI pis perrs
            @ [AUpdateSIJ (sij\<lparr>sjMeta := kRemoveFinalizer k (sjMeta sij) spotInstanceJobFinalizer\<rparr>) e]
        \<and> (snd r = None \<longleftrightarrow> e = None))
     \<or> rest = [] \<and> snd r \<noteq> None
        \<and> (\<exists>w x w'. kListPI k (mNamespace (sjMeta sij)) [(spotInstanceJobLabel, mName (sjMeta sij))] w = (Inl x, w'))"
    using 2(2) unfolding afterCheckpoints_def by blast
  show ?thesis unfolding if_P [OF True]
    by (rule exI [of _ r], rule exI [of _ s'], rule exI [of _ "map2 ADeleteCheckpoint ?cps cerrs @ rest"],
        intro conjI R exI [of _ ?cps] exI [of _ cerrs] exI [of _ rest] refl 1(2) 3)
      (simp_all add: 1(1) 2(1) list)
qed

definition leavingSIJ :: spot_job where
  "leavingSIJ = exSIJ\<lparr>sjMeta := (exMeta ''train'')\<lparr>mFinalizers := [spotInstanceJobFinalizer],
     mDeletionTimestamp := Some 7\<rparr>\<rparr>"

definition leavingCluster :: cluster where
  "leavingCluster = exCluster\<lparr>clSIJs := [leavingSIJ], clCheckpoints := [exCheckpoint ''j'' ''Running'']\<rparr>"

theorem owned_objects_deleted_first_witness:
  "\<exists>r s' e es. Reconcile refKube ''ns'' ''train'' \<lparr>world = leavingCluster, trace = []\<rparr> = Some (r, s')
     \<and> trace s' = ADeleteCheckpoint (exCheckpoint ''j'' ''Running'') e # es"
proof -
  let ?s = "\<lparr>world = leavingCluster, trace = []\<rparr>"
  have 1: "kGetSIJ refKube ''ns'' ''train'' (world ?s) = (Inr leavingSIJ, leavingCluster)"
    by (simp add: leavingCluster_def leavingSIJ_def checkpoint_examples cluster_eval example_defs)
  have 2: "beingDeleted (sjMeta leavingSIJ)"
    by (simp add: leavingSIJ_def beingDeleted_def)
  have 3: "kHasFinalizer refKube (sjMeta leavingSIJ) spotInstanceJobFinalizer"
    by (simp add: leavingSIJ_def)
  have 4: "fst (kListCheckpoint refKube (mNamespace (sjMeta leavingSIJ))
      [(spotInstanceJobLabel, mName (sjMeta leavingSIJ))] leavingCluster) = Inr [exCheckpoint ''j'' ''Running'']"
    by (simp add: leavingCluster_def leavingSIJ_def newCheckpoint_def checkpoint_examples cluster_eval example_defs
        split: prod.splits)
  from owned_objects_deleted_first [OF 1 2, unfolded if_P [OF 3] 4] show ?thesis
    by (auto simp: length_Suc_conv)
qed

text \<open>
  The status update lists the jobs of the SpotInstanceJob and writes
  the number of those with an active pod (as an int32) and nothing else of the status; a failed
  listing or a failed write is the result.
\<close>

lemma status_counts_active:
  assumes "kListJob k (mNamespace (sjMeta sij)) [(spotInstanceJobLabel, mName (sjMeta sij))] (world s)
      = (Inr jobs, w)"
  shows "\<exists>e s'. updateStatus k sij s = Some (e, s')
    \<and> trace s' = trace s @ [AUpdateSIJStatus (sij\<lparr>sjStatus := (sjStatus sij)\<lparr>ssActiveReplicas :=
        wrap32 (int (length (filter (\<lambda>j. 0 < jActive j) jobs)))\<rparr>\<rparr>) e]"
  using assms by (auto simp: updateStatus_def kread_def kcall_def Let_def split: prod.splits)

lemma status_of_restoreCluster:
  "\<exists>e s' x. updateStatus refKube exSIJ \<lparr>world = restoreCluster, trace = []\<rparr> = Some (e, s')
     \<and> trace s' = [AUpdateSIJStatus x e] \<and> ssActiveReplicas (sjStatus x) = 1"
proof -
  have list: "kListJob refKube (mNamespace (sjMeta exSIJ)) [(spotInstanceJobLabel, mName (sjMeta exSIJ))]
      (world \<lparr>world = restoreCluster, trace = []\<rparr>) = (Inr [exJob], restoreCluster)"
    by (simp add: restoreCluster_def exJob_def checkpoint_examples cluster_eval example_defs)
  have "wrap32 (int (length (filter (\<lambda>j. 0 < jActive j) [exJob]))) = 1"
    by (simp add: exJob_def in32_def)
  with status_counts_active [OF list] show ?thesis by auto
qed

end
