(* ===== verification/History.thy ===== *)
theory History
  imports PIController SIJController
begin

text \<open>
  Properties of whole histories. A property of action lists that holds of the empty list and
  is kept by concatenation holds of a program as soon as it holds of its calls; the rules are
  proved once for all such properties. Two of them are carried through both reconcilers and
  the goroutine: every single action is lawful, and every restored job is created after the
  deletion of the job it replaces.
\<close>

section \<open>Properties kept by concatenation\<close>

locale trace_property =
  fixes holds :: "action list \<Rightarrow> bool"
  assumes nil: "holds []"
    and append: "holds xs \<Longrightarrow> holds ys \<Longrightarrow> holds (xs @ ys)"
begin

lemma ret: "yields (\<lambda>s. Some (x, s)) (\<lambda>_. holds)"
  by (rule yields_ret) (rule nil)

lemma bind:
  "yields f (\<lambda>_. holds) \<Longrightarrow> (\<And>r. yields (g r) (\<lambda>_. holds)) \<Longrightarrow>
   yields (\<lambda>s. Option.bind (f s) (\<lambda>(r, s). g r s)) (\<lambda>_. holds)"
  by (rule yields_bind) (auto intro: yields_mono append)

lemma reads: "yields (kread f) (\<lambda>_. holds)"
  by (rule yields_mono [OF yields_kread]) (simp add: nil)

lemma calls: "(\<And>r. holds [act r]) \<Longrightarrow> yields (kcall f act) (\<lambda>_. holds)"
  by (rule yields_mono [OF yields_kcall]) simp

lemma all_actions: "list_all A es \<Longrightarrow> (\<And>a. A a \<Longrightarrow> holds [a]) \<Longrightarrow> holds es"
proof (induction es)
  case (Cons a es)
  with append [of "[a]" es] show ?case by simp
qed (rule nil)

lemma of_emits: "emits A f \<Longrightarrow> (\<And>a. A a \<Longrightarrow> holds [a]) \<Longrightarrow> yields f (\<lambda>_. holds)"
  unfolding emits_def by (erule yields_mono) (rule all_actions)

lemma silent: "yields f (\<lambda>r es. es = []) \<Longrightarrow> yields f (\<lambda>_. holds)"
  by (erule yields_mono) (simp add: nil)

lemmas rules = ret yields_None bind reads yields_if yields_sum yields_option yields_list yields_prod
  yields_pair yields_let

end

interpretation each: trace_property "list_all A" for A
  by unfold_locales simp_all

section \<open>Restored jobs follow a deletion\<close>

definition jobKey :: "job \<Rightarrow> string \<times> string" where
  "jobKey j = (mNamespace (jMeta j), mName (jMeta j))"

text \<open>
  The jobs deleted with their pods and not restored yet are carried along; creating a job
  with the annotation of a restored one takes its name out again.
\<close>

fun restoredAfter :: "(string \<times> string) set \<Rightarrow> action list \<Rightarrow> bool" where
  "restoredAfter D [] \<longleftrightarrow> True"
| "restoredAfter D (a # es) \<longleftrightarrow>
     (case a of
        ADeleteJob j bg e \<Rightarrow> restoredAfter (if bg \<and> e = None then insert (jobKey j) D else D) es
      | ACreateJob j e \<Rightarrow>
          (if hasCheckpointUpdated (jMeta j) then jobKey j \<in> D \<and> restoredAfter (D - {jobKey j}) es
           else restoredAfter D es)
      | _ \<Rightarrow> restoredAfter D es)"

lemma restoredAfter_mono: "restoredAfter D es \<Longrightarrow> D \<subseteq> D' \<Longrightarrow> restoredAfter D' es"
proof (induction es arbitrary: D D')
  case (Cons a es)
  show ?case
  proof (cases a)
    case (ACreateJob j e)
    with Cons.prems Cons.IH [of "D - {jobKey j}" "D' - {jobKey j}"] Cons.IH [of D D'] show ?thesis
      by (auto split: if_splits)
  next
    case (ADeleteJob j bg e)
    with Cons.prems Cons.IH [of "insert (jobKey j) D" "insert (jobKey j) D'"] Cons.IH [of D D']
    show ?thesis by (auto split: if_splits)
  qed (use Cons.prems Cons.IH [of D D'] in simp_all)
qed simp

lemma restoredAfter_append: "restoredAfter D xs \<Longrightarrow> restoredAfter {} ys \<Longrightarrow> restoredAfter D (xs @ ys)"
  by (induction xs arbitrary: D) (auto split: action.splits if_splits intro: restoredAfter_mono)

interpretation deletedFirst: trace_property "restoredAfter {}"
  by unfold_locales (simp_all add: restoredAfter_append)

text \<open>An action that creates no restored job.\<close>

fun restoredCreate :: "action \<Rightarrow> bool" where
  "restoredCreate (ACreateJob j _) \<longleftrightarrow> hasCheckpointUpdated (jMeta j)"
| "restoredCreate _ \<longleftrightarrow> False"

lemma restoredAfter_single: "\<not> restoredCreate a \<Longrightarrow> restoredAfter D [a]"
  by (cases a) simp_all

text \<open>A lookup by name answers with an object of that name.\<close>

definition named_answers :: "'w kube \<Rightarrow> bool" where
  "named_answers k \<longleftrightarrow> (\<forall>ns nm w j w'. kGetJob k ns nm w = (Inr j, w') \<longrightarrow> jobKey j = (ns, nm))"

lemma fetched_key: "named_answers k \<Longrightarrow> fetched k sij nm j \<Longrightarrow> jobKey j = (mNamespace (sjMeta sij), nm)"
  unfolding named_answers_def fetched_def by blast

lemma restores_deletedFirst:
  assumes k: "owners_only k" "named_answers k" and es: "restores k sij nm cs r es"
  shows "restoredAfter {} es"
proof -
  have key: "jobKey j' = jobKey j" if "fetched k sij nm j" "replacementOf k sij nm cs j j'" for j j'
    using fetched_key [OF k(2) that(1)] replacementOf_meta(1,2) [OF k(1) that(2)] by (simp add: jobKey_def)
  from es show ?thesis unfolding restores_def replaces_def
    by (elim disjE exE conjE) (auto dest: key)
qed

lemma deletedFirst_updateJob:
  assumes "owners_only k" "named_answers k"
  shows "yields (updateJobWithCheckpoint k sij nm cs) (\<lambda>_. restoredAfter {})"
  using yields_updateJobWithCheckpoint by (rule yields_mono) (rule restores_deletedFirst [OF assms])

lemma deletedFirst_processJobs:
  assumes "owners_only k" "named_answers k"
  shows "yields (processJobs k sij source cs js processed) (\<lambda>_. restoredAfter {})"
proof (induction js arbitrary: processed)
  case Nil
  show ?case unfolding processJobs.simps(1) [abs_def] by (rule deletedFirst.ret)
next
  case (Cons j js)
  have "yields (processJob k sij source cs j processed) (\<lambda>_. restoredAfter {})"
    unfolding processJob_def [abs_def]
    by (intro deletedFirst.rules deletedFirst_updateJob [OF assms])
  then show ?case unfolding processJobs.simps(2) [abs_def] by (intro deletedFirst.bind Cons)
qed

lemma deletedFirst_processCheckpoints:
  assumes "owners_only k" "named_answers k"
  shows "yields (processCheckpoints k sij jobs cps processed) (\<lambda>_. restoredAfter {})"
proof (induction cps arbitrary: processed)
  case Nil
  show ?case unfolding processCheckpoints.simps(1) [abs_def] by (rule deletedFirst.ret)
next
  case (Cons cp cps)
  show ?case unfolding processCheckpoints.simps(2) [abs_def]
    by (intro deletedFirst.rules deletedFirst_processJobs [OF assms] Cons)
qed

lemma deletedFirst_goroutine:
  assumes "owners_only k" "named_answers k"
  shows "yields (recreateJobFromLatestCheckpoint k sij nm) (\<lambda>_. restoredAfter {})"
  unfolding recreateJobFromLatestCheckpoint_def [abs_def]
  by (intro deletedFirst.rules deletedFirst_updateJob [OF assms])

lemma deletedFirst_handleInstances:
  assumes "owners_only k" "named_answers k"
  shows "yields (handleInstances k sij pis ps jobs) (\<lambda>_. restoredAfter {})"
proof (induction ps arbitrary: jobs)
  case Nil
  show ?case unfolding handleInstances.simps(1) [abs_def] by (rule deletedFirst.ret)
next
  case (Cons p ps)
  have ckpt: "yields (checkpointAlive k sij p) (\<lambda>_. restoredAfter {})"
    by (rule yields_mono [OF yields_checkpointAlive]) (auto simp: checkpointFor_def)
  have others: "yields (handleWithOthers k sij p jobs) (\<lambda>_. restoredAfter {})" for jobs
    unfolding handleWithOthers_def [abs_def] processCompletedCheckpoints_def [abs_def]
    by (intro deletedFirst.rules deletedFirst_processCheckpoints [OF assms] ckpt
        deletedFirst.silent [OF yields_silent [OF emits_alreadyHandled]])
  have lone: "yields (restoreLast k sij p) (\<lambda>_. restoredAfter {})"
  proof -
    have "restoredAfter {} (map (ASpawn sij) names)" for names by (induction names) simp_all
    then show ?thesis by (intro yields_mono [OF yields_restoreLast]) (auto dest!: loneRestore_spawns)
  qed
  show ?case unfolding handleInstances.simps(2) [abs_def]
    by (intro deletedFirst.rules others lone Cons
        deletedFirst.silent [OF yields_mono [OF yields_collectJobs]]) simp
qed

lemma jobAction_fresh: "owners_only k \<Longrightarrow> jobAction k sij a \<Longrightarrow> \<not> restoredCreate a"
proof -
  assume k: "owners_only k" and "jobAction k sij a"
  then obtain i now j e where a: "a = ACreateJob j e" and "replicaOf k sij (replicaJobName sij i now) i j"
    unfolding jobAction_def startsReplica_def by blast
  then have "kSetCtrlRef k (sjMeta sij) (noMeta\<lparr>mName := replicaJobName sij i now,
      mNamespace := mNamespace (sjMeta sij), mLabels := withReplicaLabels sij i Map.empty\<rparr>) = Inr (jMeta j)"
    unfolding replicaOf_def by blast
  with a owners_onlyD(4) [OF k] show ?thesis by (fastforce simp: hasCheckpointUpdated_def noMeta_def)
qed

lemma deletedFirst_reconcileFrom:
  assumes "owners_only k" "named_answers k"
  shows "yields (reconcileFrom k sij) (\<lambda>_. restoredAfter {})"
proof -
  have upd: "restoredAfter {} [a]" if "isUpdateSIJ a" for a
    using that by (cases a) simp_all
  have pre: "yields (preemptionPhase k sij) (\<lambda>_. restoredAfter {})"
    unfolding preemptionPhase_def [abs_def] handlePreemption_def [abs_def]
    by (intro deletedFirst.rules deletedFirst_handleInstances [OF assms]
        deletedFirst.silent [OF yields_silent [OF emits_hasPendingCheckpoints]])
  have inst: "yields (instancePhase k sij tmpl) (\<lambda>_. restoredAfter {})" for tmpl
    by (rule deletedFirst.of_emits [OF emits_instancePhase [OF assms(1)]])
      (auto simp: instanceAction_def createsInstance_def)
  have jobs: "yields (jobPhase k sij b) (\<lambda>_. restoredAfter {})" for b
    by (rule yields_mono [OF yields_jobPhase [OF assms(1)]])
      (auto simp: jobsThenStatus_def intro!: restoredAfter_append
        elim!: deletedFirst.all_actions intro: upd restoredAfter_single [OF jobAction_fresh [OF assms(1)]])
  show ?thesis unfolding reconcileFrom_def [abs_def] fetchTemplateFor_def [abs_def]
    by (intro deletedFirst.rules pre inst jobs)
qed

lemma deletedFirst_Reconcile:
  assumes "owners_only k" "named_answers k"
  shows "yields (Reconcile k ns nm) (\<lambda>_. restoredAfter {})"
proof -
  have upd: "restoredAfter {} [a]" if "isUpdateSIJ a \<or> isDeleteCheckpoint a \<or> (\<exists>p e. a = ADeletePI p e)" for a
    using that by (cases a) simp_all
  have pis: "list_all (\<lambda>a. \<exists>p e. a = ADeletePI p e) (map2 ADeletePI ps errs)" for ps errs
    by (auto simp: list_all_iff)
  have del: "yields (handleDeletionSIJ k sij) (\<lambda>_. restoredAfter {})" for sij
    by (rule yields_mono [OF yields_handleDeletionSIJ])
      (auto simp: cleansUpSIJ_def intro!: restoredAfter_append
        deletedFirst.all_actions [OF deleteCheckpoints_only] deletedFirst.all_actions [OF pis]
        elim!: deletedFirst.all_actions intro: upd)
  have live: "yields (reconcileLiveSIJ k sij) (\<lambda>_. restoredAfter {})" for sij
    unfolding reconcileLiveSIJ_def [abs_def]
    by (intro deletedFirst.rules deletedFirst_reconcileFrom [OF assms]
        deletedFirst.of_emits [OF emits_ensureFinalizerSIJ] deletedFirst.of_emits [OF emits_initStatusSIJ] upd)
      simp_all
  show ?thesis unfolding Reconcile_def [abs_def] by (intro deletedFirst.rules del live)
qed

section \<open>Lawful actions\<close>

text \<open>
  Metadata of an object made for a replica: in the namespace of its SpotInstanceJob, with the
  labels it is found by, and as the controller reference left it.
\<close>

definition replicaMeta :: "'w kube \<Rightarrow> spot_job \<Rightarrow> obj_meta \<Rightarrow> bool" where
  "replicaMeta k sij m \<longleftrightarrow> mNamespace m = mNamespace (sjMeta sij)
     \<and> (\<exists>i. mLabels m = withReplicaLabels sij i Map.empty)
     \<and> (\<exists>m0. kSetCtrlRef k (sjMeta sij) m0 = Inr m)"

text \<open>
  A machine name the operator may ask to delete: the one recorded in an object that the API
  server answered and that is being deleted.
\<close>

definition asksDeletion :: "'w kube \<Rightarrow> string \<Rightarrow> bool" where
  "asksDeletion k nm \<longleftrightarrow> nm \<noteq> [] \<and> (\<exists>ns pn w p w'. kGetPI k ns pn w = (Inr p, w') \<and> beingDeleted (piMeta p)
     \<and> piInstanceName (piStatus p) = nm)"

lemma asksDeletionI:
  "kGetPI k ns pn w = (Inr p, w') \<Longrightarrow> beingDeleted (piMeta p) \<Longrightarrow> piInstanceName (piStatus p) \<noteq> [] \<Longrightarrow>
   asksDeletion k (piInstanceName (piStatus p))"
  unfolding asksDeletion_def by blast

text \<open>
  What the operator may do at all: instances and jobs are made for a replica of a
  SpotInstanceJob, instances without a status; checkpoints are made for the job of an alive
  pod that was listed for that job; jobs are deleted only as they were read, together with
  their pods, and never once restored; machines are requested for the template of an object and
  deleted only under the name recorded in an object that is being deleted; the operator never
  dials a machine.
\<close>

definition lawful :: "'w kube \<Rightarrow> action \<Rightarrow> bool" where
  "lawful k a \<longleftrightarrow> (case a of
     ACreatePI p _ \<Rightarrow> piStatus p = noPIStatus \<and> (\<exists>sij. replicaMeta k sij (piMeta p))
   | ACreateJob j _ \<Rightarrow> \<exists>sij. replicaMeta k sij (jMeta j)
   | ACreateCheckpoint cp _ \<Rightarrow> \<exists>sij nm p ts. nm \<noteq> [] \<and> chosenPod k sij nm p \<and> cp = newCheckpoint sij nm p ts
   | ADeleteJob j bg _ \<Rightarrow> bg \<and> \<not> hasCheckpointUpdated (jMeta j) \<and> (\<exists>sij nm. fetched k sij nm j)
   | AInsertInstance project zone i e \<Rightarrow> \<exists>p tmpl pr. requestsMachine p tmpl pr (AInsertInstance project zone i e)
   | ADeleteInstance _ _ nm _ \<Rightarrow> asksDeletion k nm
   | ASleep d \<Rightarrow> d = seconds 2
   | ADial _ _ \<Rightarrow> False
   | ARunSSH _ _ _ \<Rightarrow> False
   | _ \<Rightarrow> True)"

lemma lawful_simps [simp]:
  "lawful k (AUpdateSIJ x e)" "lawful k (AUpdateSIJStatus x e)" "lawful k (AUpdatePI p e)"
  "lawful k (AUpdatePIStatus p e)" "lawful k (ADeletePI p e)" "lawful k (ADeleteCheckpoint cp e)"
  "lawful k (ADeleteNode n e)" "lawful k (ASpawn sij nm)"
  by (simp_all add: lawful_def)

lemma list_all_weaken: "list_all A es \<Longrightarrow> (\<And>a. A a \<Longrightarrow> B a) \<Longrightarrow> list_all B es"
  by (auto simp: list_all_iff)

lemma lawful_updateSIJ: "isUpdateSIJ a \<Longrightarrow> lawful k a"
  by (cases a) simp_all

lemma lawful_deleteCheckpoint: "isDeleteCheckpoint a \<Longrightarrow> lawful k a"
  by (cases a) simp_all

lemma lawful_deleteNode: "isDeleteNode a \<Longrightarrow> lawful k a"
  by (cases a) simp_all

text \<open>An object created for the SpotInstanceJob is a replica of it.\<close>

definition madeFor :: "'w kube \<Rightarrow> spot_job \<Rightarrow> action \<Rightarrow> bool" where
  "madeFor k sij a \<longleftrightarrow> (case a of
     ACreatePI p _ \<Rightarrow> replicaMeta k sij (piMeta p)
   | ACreateJob j _ \<Rightarrow> replicaMeta k sij (jMeta j)
   | _ \<Rightarrow> True)"

lemma madeFor_simps [simp]:
  "madeFor k sij (ACreatePI p e) \<longleftrightarrow> replicaMeta k sij (piMeta p)"
  "madeFor k sij (ACreateJob j e) \<longleftrightarrow> replicaMeta k sij (jMeta j)"
  by (simp_all add: madeFor_def)

lemma replica_instance:
  assumes "owners_only k" "instanceAction k sij tmpl a"
  shows "\<exists>p e. a = ACreatePI p e \<and> piStatus p = noPIStatus \<and> replicaMeta k sij (piMeta p)"
proof -
  from assms(2) obtain i now m e where a: "a = ACreatePI ((newInstance sij tmpl i now)\<lparr>piMeta := m\<rparr>) e"
    and m: "kSetCtrlRef k (sjMeta sij) (piMeta (newInstance sij tmpl i now)) = Inr m"
    unfolding instanceAction_def createsInstance_def by blast
  from owners_onlyD [OF assms(1) m] have "mNamespace m = mNamespace (sjMeta sij)"
    "mLabels m = withReplicaLabels sij i Map.empty"
    by (simp_all add: newInstance_def withReplicaLabels_def)
  with m have "replicaMeta k sij m" unfolding replicaMeta_def by blast
  then show ?thesis by (simp add: a newInstance_def)
qed

lemma replica_job:
  assumes "owners_only k" "jobAction k sij a"
  shows "\<exists>j e. a = ACreateJob j e \<and> replicaMeta k sij (jMeta j)"
proof -
  from assms(2) obtain i now j e where a: "a = ACreateJob j e"
    and "replicaOf k sij (replicaJobName sij i now) i j"
    unfolding jobAction_def startsReplica_def by blast
  then have m: "kSetCtrlRef k (sjMeta sij) (noMeta\<lparr>mName := replicaJobName sij i now,
      mNamespace := mNamespace (sjMeta sij), mLabels := withReplicaLabels sij i Map.empty\<rparr>) = Inr (jMeta j)"
    unfolding replicaOf_def by blast
  from owners_onlyD [OF assms(1) m] have "mNamespace (jMeta j) = mNamespace (sjMeta sij)"
    "mLabels (jMeta j) = withReplicaLabels sij i Map.empty" by simp_all
  with m have "replicaMeta k sij (jMeta j)" unfolding replicaMeta_def by blast
  with a show ?thesis by simp
qed

lemma replica_restore:
  assumes "owners_only k" "restoreAction k sij ok (ACreateJob j' e)"
  shows "replicaMeta k sij (jMeta j')"
proof -
  from assms(2) obtain nm cs j where j: "replacementOf k sij nm cs j j'"
    by (auto simp: restoreAction_def)
  then have "\<exists>m0. kSetCtrlRef k (sjMeta sij) m0 = Inr (jMeta j')"
    by (auto simp: replacementOf_def Let_def)
  with replacementOf_meta [OF assms(1) j] show ?thesis unfolding replicaMeta_def by blast
qed

lemma lawful_instance: "owners_only k \<Longrightarrow> instanceAction k sij tmpl a \<Longrightarrow> lawful k a"
  by (drule (1) replica_instance) (auto simp: lawful_def)

lemma lawful_job: "owners_only k \<Longrightarrow> jobAction k sij a \<Longrightarrow> lawful k a"
  by (drule (1) replica_job) (auto simp: lawful_def)

lemma lawful_restore:
  assumes "owners_only k" "restoreAction k sij ok a"
  shows "lawful k a"
proof (cases a)
  case (ACreateJob j' e)
  with replica_restore [OF assms(1)] assms(2) have "replicaMeta k sij (jMeta j')" by simp
  with ACreateJob show ?thesis by (auto simp: lawful_def)
qed (use assms(2) in \<open>auto simp: restoreAction_def lawful_def\<close>)

lemma lawful_preemption:
  assumes "owners_only k" "preemptionAction k sij a"
  shows "lawful k a"
proof -
  have "lawful k a" if "checkpointAction k sij a"
    using checkpointAction_chosen [OF that] unfolding lawful_def by (elim exE conjE) (simp, blast)
  with assms(2) lawful_restore [OF assms(1)] show ?thesis unfolding preemptionAction_def by auto
qed

lemma lawful_livePass:
  assumes k: "owners_only k" and es: "livePass k sij es"
  shows "list_all (lawful k) es"
proof -
  from es obtain us sij' rest where 1: "es = us @ rest" "list_all isUpdateSIJ us" "inPhases k sij' rest"
    unfolding livePass_def by blast
  then obtain ps "is" js ts tmpl where 2: "rest = ps @ is @ js @ ts"
    and 3: "list_all (preemptionAction k sij') ps" "list_all (instanceAction k sij' tmpl) is"
      "list_all (jobAction k sij') js" "list_all isUpdateSIJ ts"
    unfolding inPhases_def by blast
  from 1(2) 3 show ?thesis unfolding 1(1) 2 list_all_append
    by (intro conjI) (elim list_all_weaken lawful_updateSIJ lawful_preemption [OF k]
      lawful_instance [OF k] lawful_job [OF k])+
qed

lemma emits_Reconcile:
  assumes "owners_only k"
  shows "emits (lawful k) (Reconcile k ns nm)"
proof -
  have del: "emits (lawful k) (handleDeletionSIJ k sij)" for sij
    unfolding emits_def
    by (rule yields_mono [OF yields_handleDeletionSIJ])
      (auto simp: cleansUpSIJ_def list_all_iff dest!: set_zip_leftD intro: lawful_deleteCheckpoint)
  have live: "emits (lawful k) (reconcileLiveSIJ k sij)" for sij
    unfolding emits_def
    by (rule yields_mono [OF yields_reconcileLiveSIJ [OF assms]]) (rule lawful_livePass [OF assms])
  show ?thesis unfolding Reconcile_def [abs_def] by (intro yields_intro yields_op del live)
qed

text \<open>The actions of the other reconciler.\<close>

definition machineAction :: "'w kube \<Rightarrow> action \<Rightarrow> bool" where
  "machineAction k a \<longleftrightarrow> (case a of
     AUpdatePI _ _ \<Rightarrow> True
   | AUpdatePIStatus _ _ \<Rightarrow> True
   | ADeleteNode _ _ \<Rightarrow> True
   | AInsertInstance _ _ _ _ \<Rightarrow> \<exists>p tmpl pr. requestsMachine p tmpl pr a
   | ADeleteInstance _ _ nm _ \<Rightarrow> asksDeletion k nm
   | _ \<Rightarrow> False)"

lemma machineAction_simps [simp]:
  "machineAction k (AUpdatePI p e)" "machineAction k (AUpdatePIStatus p e)" "machineAction k (ADeleteNode n e)"
  by (simp_all add: machineAction_def)

lemma machineAction_follow: "stepsStatus p a \<or> isDeleteNode a \<Longrightarrow> machineAction k a"
  by (cases a) (auto simp: stepsStatus_def)

lemma machineAction_request: "requestsMachine p tmpl pr a \<Longrightarrow> machineAction k a"
  by (cases a) (auto simp: machineAction_def, auto simp: requestsMachine_def)

lemma machineAction_recorded:
  "deletesRecorded p ds \<Longrightarrow> kGetPI k ns nm w = (Inr p, w') \<Longrightarrow> beingDeleted (piMeta p) \<Longrightarrow> list_all (machineAction k) ds"
  by (auto simp: deletesRecorded_def machineAction_def intro: asksDeletionI split: if_splits)

lemma machineAction_lawful: "machineAction k a \<Longrightarrow> lawful k a"
  by (cases a) (simp_all add: machineAction_def lawful_def)

lemma machineAction_fresh: "machineAction k a \<Longrightarrow> \<not> restoredCreate a"
  by (cases a) (simp_all add: machineAction_def)

lemma emits_ReconcilePI: "emits (machineAction k) (ReconcilePI k g ns nm)"
proof -
  have nodes: "list_all (machineAction k) es" if "list_all isDeleteNode es" for es
    by (rule list_all_weaken [OF that]) (simp add: machineAction_follow)
  have del: "yields (handleDeletionPI k g p) (\<lambda>_ es. list_all (machineAction k) es)"
    if "kGetPI k ns nm w = (Inr p, w')" "beingDeleted (piMeta p)" for p w w'
    by (rule yields_mono [OF yields_handleDeletionPI])
      (auto simp: cleansUp_def nodes intro: machineAction_recorded [OF _ that])
  have prov: "list_all (machineAction k) es" if "provisions p tmpl pr r es" for p tmpl pr r es
    using that unfolding provisions_def
    by (elim disjE exE conjE) (auto elim: list_all_weaken intro: machineAction_follow machineAction_request)
  have drive: "emits (machineAction k) (driveInstance k g p)" for p
    unfolding emits_def
    by (rule yields_mono [OF yields_driveInstance]) (auto simp: drives_def intro: prov)
  have live: "emits (machineAction k) (reconcileLivePI k g p)" for p
    unfolding reconcileLivePI_def [abs_def] ensureFinalizerPI_def [abs_def] initStatusPI_def [abs_def]
    by (intro yields_intro emits_kcall drive) simp_all
  show ?thesis unfolding ReconcilePI_def [abs_def] emits_def
    by (intro yields_bind [OF yields_kread_val] yields_sum yields_if yields_ret
        yields_mono [OF live [unfolded emits_def]]) (auto intro: yields_mono [OF del])
qed

lemma emits_goroutine:
  "owners_only k \<Longrightarrow> emits (lawful k) (recreateJobFromLatestCheckpoint k sij nm)"
  by (rule emits_mono [OF emits_recreateJobFromLatestCheckpoint]) (rule lawful_restore)

lemma deletedFirst_ReconcilePI: "yields (ReconcilePI k g ns nm) (\<lambda>_. restoredAfter {})"
  by (rule deletedFirst.of_emits [OF emits_ReconcilePI]) (rule restoredAfter_single [OF machineAction_fresh])

interpretation machinePass: contract "ReconcilePI k g ns nm" "machineAction k" for k g ns nm
  by unfold_locales (rule emits_ReconcilePI)

end
