(* ===== verification/Operator.thy ===== *)
theory Operator
  imports History
begin

text \<open>
  The running operator: both reconcilers, the goroutines they start and everything else that
  acts on the cluster, as one step relation over the world and the history of the operator's
  calls. controller-runtime decides which object is reconciled next and when; the scheduler
  decides when a goroutine runs. A step is a pass that came back, a goroutine run to its end,
  or any change of the world by somebody else. Calls of passes that overlap are covered in
  that the answers of the clients are not constrained from one call to the next.
\<close>

section \<open>Steps\<close>

record 'w operator =
  opRun :: "'w sys"
  opPending :: "(spot_job \<times> string) list"

text \<open>The goroutines a history starts.\<close>

fun spawned :: "action list \<Rightarrow> (spot_job \<times> string) list" where
  "spawned [] = []"
| "spawned (ASpawn sij nm # es) = (sij, nm) # spawned es"
| "spawned (_ # es) = spawned es"

text \<open>The actions a pass added to the history.\<close>

definition added :: "'w sys \<Rightarrow> 'w sys \<Rightarrow> action list" where
  "added s s' = drop (length (trace s)) (trace s')"

inductive op_step :: "'w kube \<Rightarrow> 'w gce \<Rightarrow> 'w operator \<Rightarrow> 'w operator \<Rightarrow> bool"
  for k :: "'w kube" and g :: "'w gce" where
  environment: "op_step k g c (c\<lparr>opRun := (opRun c)\<lparr>world := w\<rparr>\<rparr>)"
| reconcile_job: "Reconcile k ns nm (opRun c) = Some (r, s') \<Longrightarrow>
     op_step k g c \<lparr>opRun = s', opPending = opPending c @ spawned (added (opRun c) s')\<rparr>"
| reconcile_machine: "ReconcilePI k g ns nm (opRun c) = Some (r, s') \<Longrightarrow>
     op_step k g c (c\<lparr>opRun := s'\<rparr>)"
| goroutine: "opPending c = xs @ (sij, nm) # ys \<Longrightarrow>
     recreateJobFromLatestCheckpoint k sij nm (opRun c) = Some (u, s') \<Longrightarrow>
     op_step k g c \<lparr>opRun = s', opPending = xs @ ys\<rparr>"

definition startedAt :: "'w \<Rightarrow> 'w operator" where
  "startedAt w = \<lparr>opRun = \<lparr>world = w, trace = []\<rparr>, opPending = []\<rparr>"

inductive op_reachable :: "'w kube \<Rightarrow> 'w gce \<Rightarrow> 'w operator \<Rightarrow> bool"
  for k :: "'w kube" and g :: "'w gce" where
  start: "op_reachable k g (startedAt w)"
| step: "op_reachable k g c \<Longrightarrow> op_step k g c c' \<Longrightarrow> op_reachable k g c'"

inductive_cases op_stepE: "op_step k g c c'"

lemma spawned_append [simp]: "spawned (xs @ ys) = spawned xs @ spawned ys"
  by (induction xs rule: spawned.induct) simp_all

lemma spawned_iff: "(sij, nm) \<in> set (spawned es) \<longleftrightarrow> ASpawn sij nm \<in> set es"
  by (induction es rule: spawned.induct) auto

section \<open>Histories\<close>

text \<open>
  Every step appends actions that satisfy P, when P is kept by concatenation and each program
  keeps it: so it holds of the whole history.
\<close>

locale history_property = trace_property +
  fixes k :: "'w kube" and g :: "'w gce"
  assumes pass_job: "yields (Reconcile k ns nm) (\<lambda>_. holds)"
    and pass_machine: "yields (ReconcilePI k g ns nm) (\<lambda>_. holds)"
    and pass_goroutine: "yields (recreateJobFromLatestCheckpoint k sij jn) (\<lambda>_. holds)"
begin

lemma step_appends:
  assumes "op_step k g c c'"
  shows "\<exists>es. trace (opRun c') = trace (opRun c) @ es \<and> holds es"
  using assms
proof cases
  case (environment w)
  with nil show ?thesis by auto
next
  case (reconcile_job ns nm r s')
  from yieldsE [OF pass_job reconcile_job(2)] reconcile_job(1) show ?thesis by auto
next
  case (reconcile_machine ns nm r s')
  from yieldsE [OF pass_machine reconcile_machine(2)] reconcile_machine(1) show ?thesis by auto
next
  case (goroutine xs sij nm ys u s')
  from yieldsE [OF pass_goroutine goroutine(3)] goroutine(1) show ?thesis by auto
qed

lemma always: "op_reachable k g c \<Longrightarrow> holds (trace (opRun c))"
proof (induction rule: op_reachable.induct)
  case (start w)
  show ?case by (simp add: startedAt_def nil)
next
  case (step c c')
  from step_appends [OF step.hyps(2)] step.IH show ?case by (auto intro: append)
qed

end

text \<open>
  The API client as the operator relies on it: an owner reference changes the owners only, and
  a lookup by name answers with an object of that name.
\<close>

locale owning_client =
  fixes k :: "'w kube"
  assumes owners: "owners_only k"

sublocale owning_client < lawful: history_property "list_all (lawful k)" k g for g
  by unfold_locales
    (simp_all add: emits_def [symmetric] emits_Reconcile [OF owners] emits_goroutine [OF owners]
      emits_mono [OF emits_ReconcilePI machineAction_lawful])

locale naming_client = owning_client +
  assumes answers: "named_answers k"

sublocale naming_client < ordered: history_property "restoredAfter {}" k g for g
  by unfold_locales
    (simp_all add: deletedFirst_Reconcile [OF owners answers] deletedFirst_ReconcilePI
      deletedFirst_goroutine [OF owners answers])

context owning_client
begin

lemma history: "op_reachable k g c \<Longrightarrow> list_all (lawful k) (trace (opRun c))"
  by (rule lawful.always)

end

context naming_client
begin

lemma in_order: "op_reachable k g c \<Longrightarrow> restoredAfter {} (trace (opRun c))"
  by (rule ordered.always)

end

lemma named_answers_refKube: "named_answers refKube"
  by (auto simp: named_answers_def refGet_def named_def jobKey_def find_Some_iff
      split: option.splits if_splits)

interpretation reference: naming_client refKube
  by unfold_locales (simp_all add: named_answers_refKube)

section \<open>Restored jobs and deletions, counted\<close>

definition restoresKey :: "string \<times> string \<Rightarrow> action \<Rightarrow> bool" where
  "restoresKey key a \<longleftrightarrow>
     (case a of ACreateJob j _ \<Rightarrow> hasCheckpointUpdated (jMeta j) \<and> jobKey j = key | _ \<Rightarrow> False)"

definition deletesKey :: "string \<times> string \<Rightarrow> action \<Rightarrow> bool" where
  "deletesKey key a \<longleftrightarrow> (case a of ADeleteJob j bg e \<Rightarrow> bg \<and> e = None \<and> jobKey j = key | _ \<Rightarrow> False)"

lemma restoredAfter_count:
  "restoredAfter D es \<Longrightarrow>
   length (filter (restoresKey key) es) \<le> length (filter (deletesKey key) es) + (if key \<in> D then 1 else 0)"
proof (induction es arbitrary: D)
  case (Cons a es)
  show ?case
  proof (cases a)
    case (ACreateJob j e)
    with Cons.prems Cons.IH [of "D - {jobKey j}"] Cons.IH [of D] show ?thesis
      by (auto simp: restoresKey_def deletesKey_def split: if_splits)
  next
    case (ADeleteJob j bg e)
    with Cons.prems Cons.IH [of "insert (jobKey j) D"] Cons.IH [of D] show ?thesis
      by (auto simp: restoresKey_def deletesKey_def split: if_splits)
  qed (use Cons.prems Cons.IH [of D] in \<open>simp_all add: restoresKey_def deletesKey_def\<close>)
qed simp

lemma restoredAfter_deleted:
  "restoredAfter D (xs @ ACreateJob j e # ys) \<Longrightarrow> hasCheckpointUpdated (jMeta j) \<Longrightarrow>
   jobKey j \<in> D \<or> (\<exists>j0. ADeleteJob j0 True None \<in> set xs \<and> jobKey j0 = jobKey j)"
proof (induction xs arbitrary: D)
  case (Cons a xs)
  show ?case
  proof (cases a)
    case (ACreateJob j' e')
    with Cons.prems Cons.IH [of "D - {jobKey j'}"] Cons.IH [of D] show ?thesis by (auto split: if_splits)
  next
    case (ADeleteJob j' bg e')
    with Cons.prems Cons.IH [of "insert (jobKey j') D"] Cons.IH [of D] show ?thesis
      by (fastforce split: if_splits)
  qed (use Cons.prems Cons.IH [of D] in auto)
qed simp

section \<open>An example run\<close>

text \<open>
  A SpotInstanceJob that wants no replicas any more; its only machine is preempted, with a pod
  of the job j on its node. The pass starts a goroutine. Later, with a completed checkpoint and
  a new machine, the goroutine restores the job.
\<close>

definition loneSIJ :: spot_job where
  "loneSIJ = exSIJ\<lparr>sjSpec := exSpec\<lparr>sjReplicas := Some 0\<rparr>,
     sjMeta := (exMeta ''train'')\<lparr>mFinalizers := [spotInstanceJobFinalizer]\<rparr>\<rparr>"

definition loneCluster :: cluster where
  "loneCluster = exCluster\<lparr>clSIJs := [loneSIJ], clPIs := [preemptedPI],
     clPods := [exPod ''p'' ''j'' ''n0'']\<rparr>"

definition healedCluster :: cluster where
  "healedCluster = restoreCluster\<lparr>clCheckpoints := [exCheckpoint ''i'' ''Completed'']\<rparr>"

lemma lone_spawns:
  "\<exists>r s' x. Reconcile refKube ''ns'' ''train'' \<lparr>world = loneCluster, trace = []\<rparr> = Some (r, s')
     \<and> spawned (trace s') = [(x, ''j'')] \<and> mName (sjMeta x) = ''train'' \<and> mNamespace (sjMeta x) = ''ns''"
  by (simp add: Reconcile_def reconcileLiveSIJ_def ensureFinalizerSIJ_def initStatusSIJ_def reconcileFrom_def
      fetchTemplateFor_def preemptionPhase_def hasPendingCheckpoints_def handlePreemption_def
      collectJobs_def otherActive_def restoreLast_def findJobsOnNode_def spawn_def jobNameOf_def labelAt_def
      instancePhase_def reconcileProvisionedInstances_def waitsForCheckpoint_def terminatedPI_def
      countActive_def activePI_def desiredReplicas_def jobPhase_def reconcileJobReplicas_def updateStatus_def
      replicaIndexOf_def parseInt32_def parseUint_def digitVal_def replicaSelector_def preempted_def
      loneCluster_def loneSIJ_def preemptedPI_def spotInstanceJobLabel_def jobReplicaLabel_def
      checkpoint_examples cluster_eval example_defs in32_def)

lemma goroutine_restores:
  assumes "mName (sjMeta x) = ''train''" "mNamespace (sjMeta x) = ''ns''"
  shows "\<exists>u s' j e. recreateJobFromLatestCheckpoint refKube x ''j'' \<lparr>world = healedCluster, trace = h\<rparr> = Some (u, s')
     \<and> trace s' = h @ [ADeleteJob exJob True None, ASleep (seconds 2), ACreateJob j e]
     \<and> hasCheckpointUpdated (jMeta j)"
  using assms
  by (auto simp: recreateJobFromLatestCheckpoint_def datedContainers_def completedStatus_def successPhase_def
      checkpointContainers_def newCheckpoint_def updateJobWithCheckpoint_def replaceJob_def placeRestored_def
      createRestored_def restoredJob_def hasCheckpointUpdated_def restoreCluster_def exReadyPI_def exJob_def
      replicaSelector_def preempted_def readyPI_def replicaIndexOf_def parseInt32_def parseUint_def
      digitVal_def healedCluster_def checkpoint_examples cluster_eval example_defs
      split: prod.splits)

text \<open>The state in which the goroutine waits, and the one after it has run.\<close>

lemma lone_waits:
  "\<exists>h x. op_reachable refKube refGce \<lparr>opRun = \<lparr>world = healedCluster, trace = h\<rparr>, opPending = [(x, ''j'')]\<rparr>
     \<and> mName (sjMeta x) = ''train'' \<and> mNamespace (sjMeta x) = ''ns''"
proof -
  obtain r s' x where run: "Reconcile refKube ''ns'' ''train'' \<lparr>world = loneCluster, trace = []\<rparr> = Some (r, s')"
    and x: "spawned (trace s') = [(x, ''j'')]" "mName (sjMeta x) = ''train''" "mNamespace (sjMeta x) = ''ns''"
    using lone_spawns by blast
  have "op_step refKube refGce (startedAt loneCluster) \<lparr>opRun = s', opPending = [(x, ''j'')]\<rparr>"
    using op_step.reconcile_job [of refKube "''ns''" "''train''" "startedAt loneCluster" r s' refGce] run x(1)
    by (simp add: startedAt_def added_def)
  from op_reachable.step [OF op_reachable.start this]
  have "op_reachable refKube refGce \<lparr>opRun = s', opPending = [(x, ''j'')]\<rparr>" .
  from op_reachable.step [OF this op_step.environment [of _ _ _ healedCluster]] x(2,3)
  show ?thesis by (intro exI [of _ "trace s'"] exI [of _ x]) (cases s', simp)
qed

lemma lone_restored:
  "\<exists>h j e. op_reachable refKube refGce \<lparr>opRun = h, opPending = []\<rparr>
     \<and> (\<exists>xs. trace h = xs @ [ADeleteJob exJob True None, ASleep (seconds 2), ACreateJob j e])
     \<and> hasCheckpointUpdated (jMeta j)"
proof -
  obtain h x where c: "op_reachable refKube refGce
      \<lparr>opRun = \<lparr>world = healedCluster, trace = h\<rparr>, opPending = [(x, ''j'')]\<rparr>"
    and x: "mName (sjMeta x) = ''train''" "mNamespace (sjMeta x) = ''ns''" using lone_waits by blast
  obtain u s' j e where run: "recreateJobFromLatestCheckpoint refKube x ''j''
      \<lparr>world = healedCluster, trace = h\<rparr> = Some (u, s')"
    and tr: "trace s' = h @ [ADeleteJob exJob True None, ASleep (seconds 2), ACreateJob j e]"
      "hasCheckpointUpdated (jMeta j)"
    using goroutine_restores [OF x] by blast
  have "op_step refKube refGce \<lparr>opRun = \<lparr>world = healedCluster, trace = h\<rparr>, opPending = [(x, ''j'')]\<rparr>
      \<lparr>opRun = s', opPending = [] @ []\<rparr>"
    by (rule op_step.goroutine [where xs = "[]" and sij = x and nm = "''j''" and u = u]) (simp_all add: run)
  from op_reachable.step [OF c this] tr show ?thesis by auto
qed

section \<open>Properties of the operator\<close>

text \<open>
  C3. Whatever the order of passes and goroutines and whatever else happens to
  the cluster, every action in the operator's history is lawful: instances and jobs are only
  made in the namespace and with the labels and controller reference of a SpotInstanceJob;
  a checkpoint of a job is only made for the first pod listed for that very job that is on a
  Ready node; jobs are only deleted as they were read, together with their pods, and never once
  restored; machines are only requested from a template with a complete join command, and only
  deleted under the instance name recorded in the status of an object that the API server
  answered and that is being deleted; and no machine is dialled.
\<close>

theorem history_lawful:
  assumes "op_reachable k g c" and k: "owners_only k" and "a \<in> set (trace (opRun c))"
  shows "lawful k a"
  using owning_client.history [OF owning_client.intro [OF k] assms(1)] assms(3)
  by (simp add: list_all_iff)

text \<open>The history of the example run, with the deletion and the restored job in it.\<close>

theorem history_lawful_witness:
  "\<exists>c j e. op_reachable refKube refGce c \<and> ADeleteJob exJob True None \<in> set (trace (opRun c))
     \<and> ACreateJob j e \<in> set (trace (opRun c))
     \<and> lawful refKube (ADeleteJob exJob True None) \<and> (\<exists>x. replicaMeta refKube x (jMeta j))"
proof -
  obtain h j e xs where c: "op_reachable refKube refGce \<lparr>opRun = h, opPending = []\<rparr>"
    and tr: "trace h = xs @ [ADeleteJob exJob True None, ASleep (seconds 2), ACreateJob j e]"
    using lone_restored by blast
  let ?c = "\<lparr>opRun = h, opPending = []\<rparr>"
  have in1: "ADeleteJob exJob True None \<in> set (trace (opRun ?c))"
    and in2: "ACreateJob j e \<in> set (trace (opRun ?c))" by (simp_all add: tr)
  from history_lawful [OF c owners_only_refKube in2] have "\<exists>x. replicaMeta refKube x (jMeta j)"
    by (simp add: lawful_def)
  with c in1 in2 history_lawful [OF c owners_only_refKube in1] show ?thesis
    by (intro exI [of _ ?c] exI [of _ j] exI [of _ e]) simp
qed

text \<open>
  C2. In every history of the operator a restored job is created after
  a job of the same namespace and name was deleted together with its pods, successfully and
  before it had been restored itself; and no job is restored more often than it was deleted.
\<close>

theorem restored_after_deletion:
  assumes c: "op_reachable k g c" and k: "owners_only k" "named_answers k"
    and h: "trace (opRun c) = xs @ ACreateJob j e # ys" "hasCheckpointUpdated (jMeta j)"
  shows "(\<exists>j0. ADeleteJob j0 True None \<in> set xs \<and> jobKey j0 = jobKey j \<and> \<not> hasCheckpointUpdated (jMeta j0))
    \<and> length (filter (restoresKey (jobKey j)) (trace (opRun c)))
        \<le> length (filter (deletesKey (jobKey j)) (trace (opRun c)))"
proof -
  have "naming_client k" using k by unfold_locales
  from naming_client.in_order [OF this c] have 1: "restoredAfter {} (trace (opRun c))" .
  with h restoredAfter_deleted [of "{}" xs j e ys] obtain j0
    where j0: "ADeleteJob j0 True None \<in> set xs" "jobKey j0 = jobKey j" by auto
  have "lawful k (ADeleteJob j0 True None)"
    using owning_client.history [OF owning_client.intro [OF k(1)] c] j0(1) h(1)
    by (auto simp: list_all_iff)
  then have "\<not> hasCheckpointUpdated (jMeta j0)" by (simp add: lawful_def)
  with j0 restoredAfter_count [OF 1, of "jobKey j"] show ?thesis by auto
qed

text \<open>The created job of the example run is a restored one.\<close>

theorem restored_after_deletion_witness:
  "\<exists>j0 j :: job. jobKey j0 = jobKey j \<and> hasCheckpointUpdated (jMeta j) \<and> \<not> hasCheckpointUpdated (jMeta j0)"
proof -
  obtain h j e xs where c: "op_reachable refKube refGce \<lparr>opRun = h, opPending = []\<rparr>"
    and tr: "trace h = (xs @ [ADeleteJob exJob True None, ASleep (seconds 2)]) @ ACreateJob j e # []"
    and j: "hasCheckpointUpdated (jMeta j)"
    using lone_restored by auto
  from restored_after_deletion [OF c owners_only_refKube named_answers_refKube, of _ j e "[]"] tr j
  show ?thesis by fastforce
qed



end
