(* ===== verification/InstanceStore.thy ===== *)
theory InstanceStore
  imports Instances Frames
begin

text \<open>
  The instances as the API server keeps them. The reconciliation only sees lists of instances
  and answers to create calls; with a server that stores what was created, it refines an
  allocation of replica indices, and it converges: the pass after a successful one has nothing
  left to do.
\<close>

section \<open>The store\<close>

text \<open>
  The contract of the API server for instances: listing selects by namespace and labels and
  changes nothing, a create call that succeeds adds the object, and the other calls of the
  reconciliation leave the instances alone.
\<close>

locale instance_store =
  fixes k :: "'w kube" and insts :: "'w \<Rightarrow> prov_instance list"
  assumes listing: "\<exists>w'. kListPI k ns sel w = (Inr (filter (\<lambda>p. selected ns sel (piMeta p)) (insts w)), w')
      \<and> insts w' = insts w"
    and clock: "insts (snd (kNow k w)) = insts w"
    and checkpoints: "insts (snd (kListCheckpoint k ns sel w)) = insts w"
    and creation: "kCreatePI k p w = (e, w') \<Longrightarrow> insts w' = (if e = None then insts w @ [p] else insts w)"

text \<open>The instances created with success.\<close>

fun createdPIs :: "action list \<Rightarrow> prov_instance list" where
  "createdPIs [] = []"
| "createdPIs (ACreatePI p None # es) = p # createdPIs es"
| "createdPIs (_ # es) = createdPIs es"

lemma createdPIs_append [simp]: "createdPIs (xs @ ys) = createdPIs xs @ createdPIs ys"
  by (induction xs rule: createdPIs.induct) simp_all

lemma createdIndices_PIs:
  "createdIndices es = map (\<lambda>p. replicaIndexOf (- 1) (mLabels (piMeta p))) (createdPIs es)"
  by (induction es rule: createdPIs.induct) simp_all

lemma createdPIs_in: "p \<in> set (createdPIs es) \<Longrightarrow> ACreatePI p None \<in> set es"
  by (induction es rule: createdPIs.induct) auto

text \<open>A relation that the clock and the create calls respect is respected by the loop.\<close>

context state_relation
begin

lemma createInstances:
  assumes now: "relates R (timeNow k)" and create: "\<And>p. relates R (createPI k p)"
  shows "relates R (createInstances k sij tmpl limit needed used i created)"
proof -
  have "k = k \<longrightarrow> R s (snd y)" if run: "createInstances k sij tmpl limit needed used i created s = Some y" for s y
  proof (rule createInstances.raw_induct [where P = "\<lambda>k' sij tmpl limit needed used i created s y.
      k' = k \<longrightarrow> R s (snd y)", OF _ run], intro impI)
    fix loop :: "'w kube \<Rightarrow> spot_job \<Rightarrow> instance_template \<Rightarrow> int \<Rightarrow> int \<Rightarrow> int list \<Rightarrow> int \<Rightarrow> int \<Rightarrow> 'w sys
       \<Rightarrow> (err \<times> 'w sys) option"
      and k' sij tmpl limit needed used i created s y
    assume IH: "\<And>k' sij tmpl limit needed used i created s y.
        loop k' sij tmpl limit needed used i created s = Some y \<Longrightarrow> k' = k \<longrightarrow> R s (snd y)"
      and eq: "(if needed \<le> created then Some (None, s)
      else Option.bind (nextFree used limit i) (\<lambda>i.
        Option.bind (timeNow k' s) (\<lambda>(now, s).
          let p = newInstance sij tmpl i now in
          case kSetCtrlRef k' (sjMeta sij) (piMeta p) of
            Inl e \<Rightarrow> Some (Some e, s)
          | Inr m \<Rightarrow> Option.bind (createPI k' (p\<lparr>piMeta := m\<rparr>) s) (\<lambda>(e, s).
              case e of
                Some x \<Rightarrow>
                  loop k' sij tmpl limit needed used (wrap32 (i + 1)) created s
              | None \<Rightarrow>
                  loop k' sij tmpl limit needed (i # used) (wrap32 (i + 1))
                    (wrap32 (created + 1)) s)))) = Some y"
      and k': "k' = k"
    have rec: "relates R (loop k sij tmpl limit needed used i created)" for used i created
      using IH unfolding relates_def by fastforce
    have "relates R (\<lambda>s. if needed \<le> created then Some (None, s)
      else Option.bind (nextFree used limit i) (\<lambda>i.
        Option.bind (timeNow k s) (\<lambda>(now, s).
          let p = newInstance sij tmpl i now in
          case kSetCtrlRef k (sjMeta sij) (piMeta p) of
            Inl e \<Rightarrow> Some (Some e, s)
          | Inr m \<Rightarrow> Option.bind (createPI k (p\<lparr>piMeta := m\<rparr>) s) (\<lambda>(e, s).
              case e of
                Some x \<Rightarrow> loop k sij tmpl limit needed used (wrap32 (i + 1)) created s
              | None \<Rightarrow> loop k sij tmpl limit needed (i # used) (wrap32 (i + 1)) (wrap32 (created + 1)) s))))"
      by (intro rules pure now create rec)
    with eq [unfolded k'] show "R s (snd y)" unfolding relates_def by (cases y) auto
  qed
  then show ?thesis unfolding relates_def by fastforce
qed

end

text \<open>The store grows by what the trace says was created.\<close>

definition grows :: "('w \<Rightarrow> prov_instance list) \<Rightarrow> 'w sys \<Rightarrow> 'w sys \<Rightarrow> bool" where
  "grows insts s s' \<longleftrightarrow>
     (\<exists>es. trace s' = trace s @ es \<and> insts (world s') = insts (world s) @ createdPIs es)"

lemma growsI:
  "trace s' = trace s @ es \<Longrightarrow> insts (world s') = insts (world s) @ createdPIs es \<Longrightarrow> grows insts s s'"
  unfolding grows_def by blast

interpretation grows: state_relation "grows insts" for insts
proof unfold_locales
  show "grows insts s s" for s by (rule growsI [of _ _ "[]"]) simp_all
  show "grows insts s s''" if "grows insts s s'" "grows insts s' s''" for s s' s''
    using that unfolding grows_def by (metis append.assoc createdPIs_append)
qed

context instance_store
begin

lemma createInstances_store: "relates (grows insts) (createInstances k sij tmpl limit needed used i created)"
proof (rule grows.createInstances)
  show "relates (grows insts) (timeNow k)"
    using clock by (intro relates_kread growsI [where es = "[]"]) (auto, metis snd_conv)
  show "relates (grows insts) (createPI k p)" for p
  proof (rule relates_kcall)
    fix s :: "'w sys" and r w
    assume "kCreatePI k p (world s) = (r, w)"
    with creation show "grows insts s (s\<lparr>world := w, trace := trace s @ [ACreatePI p r]\<rparr>)"
      by (intro growsI [where es = "[ACreatePI p r]"]) (cases r, auto)
  qed
qed

text \<open>The instances of a SpotInstanceJob in the store.\<close>

lemma reconcile_store:
  assumes pis: "pis = filter (\<lambda>p. selected (mNamespace (sjMeta sij))
        [(spotInstanceJobLabel, mName (sjMeta sij))] (piMeta p)) (insts (world s))"
    and live: "\<not> list_ex terminatedPI pis"
    and run: "reconcileProvisionedInstances k sij tmpl s = Some (r, s')"
  shows "grows insts s s'"
proof -
  obtain w where w: "kListPI k (mNamespace (sjMeta sij)) [(spotInstanceJobLabel, mName (sjMeta sij))] (world s)
      = (Inr pis, w)" "insts w = insts (world s)"
    using listing pis by blast
  show ?thesis
  proof (cases "countActive pis < desiredReplicas sij")
    case True
    with run w live have "createInstances k sij tmpl (wrap32 (desiredReplicas sij * 2))
        (wrap32 (desiredReplicas sij - countActive pis)) (usedIndices pis) 0 0 (s\<lparr>world := w\<rparr>) = Some (r, s')"
      by (simp add: reconcileProvisionedInstances_def waitsForCheckpoint_def kread_def)
    from relatesD [OF createInstances_store this] w(2) show ?thesis by (simp add: grows_def)
  next
    case False
    with run w live have "s' = s\<lparr>world := w\<rparr>"
      by (simp add: reconcileProvisionedInstances_def waitsForCheckpoint_def kread_def)
    with w(2) show ?thesis by (intro growsI [of _ _ "[]"]) simp_all
  qed
qed

end

section \<open>The allocation\<close>

text \<open>
  What one pass is to do: the least free replica indices, as many as active instances are
  missing.
\<close>

definition allocation :: "int \<Rightarrow> prov_instance list \<Rightarrow> int list" where
  "allocation d pis =
     take (nat (d - countActive pis)) (sorted_list_of_set ({0..<2 * d} - set (usedIndices pis)))"

definition listedOf :: "spot_job \<Rightarrow> prov_instance list \<Rightarrow> prov_instance list" where
  "listedOf sij ps = filter (\<lambda>p. selected (mNamespace (sjMeta sij))
     [(spotInstanceJobLabel, mName (sjMeta sij))] (piMeta p)) ps"

text \<open>An instance just made for the SpotInstanceJob from its template: listed, active, not terminated.\<close>

definition freshFor :: "spot_job \<Rightarrow> instance_template \<Rightarrow> prov_instance \<Rightarrow> bool" where
  "freshFor sij tmpl p \<longleftrightarrow> listedOf sij [p] = [p] \<and> activePI p \<and> \<not> terminatedPI p
     \<and> piTemplateName (piSpec p) = mName (itMeta tmpl) \<and> piTemplateNamespace (piSpec p) = mNamespace (itMeta tmpl)"

lemma createsInstance_fresh:
  assumes "owners_only k" "createsInstance k sij tmpl i (ACreatePI p e)"
  shows "freshFor sij tmpl p"
proof -
  from assms(2) obtain now m where m: "kSetCtrlRef k (sjMeta sij) (piMeta (newInstance sij tmpl i now)) = Inr m"
    and p: "p = (newInstance sij tmpl i now)\<lparr>piMeta := m\<rparr>"
    unfolding createsInstance_def by blast
  from assms(1) m obtain os where "m = (piMeta (newInstance sij tmpl i now))\<lparr>mOwners := os\<rparr>"
    unfolding owners_only_def by blast
  then show ?thesis
    by (simp add: p freshFor_def listedOf_def selected_def newInstance_def activePI_def terminatedPI_def
        noPIStatus_def beingDeleted_def noMeta_def)
qed

lemma fresh_list:
  assumes "list_all (freshFor sij tmpl) ps"
  shows "listedOf sij ps = ps" "filter activePI ps = ps" "\<not> list_ex terminatedPI ps"
  using assms by (induction ps) (auto simp: freshFor_def listedOf_def split: if_splits)

text \<open>A client whose store starts small and whose create calls go through.\<close>

lemma provisioning_pass:
  assumes st: "instance_store k insts" and k: "owners_only k" "creates_succeed k"
    and d: "0 \<le> desiredReplicas sij" "desiredReplicas sij \<le> 1073741823"
    and pis: "pis = listedOf sij (insts (world s))" "length pis \<le> 2147483647" "\<not> list_ex terminatedPI pis"
    and room: "int (card (set (usedIndices pis))) \<le> desiredReplicas sij + countActive pis"
  shows "\<exists>s' ps. reconcileProvisionedInstances k sij tmpl s = Some (None, s')
    \<and> insts (world s') = insts (world s) @ ps \<and> list_all (freshFor sij tmpl) ps
    \<and> map (\<lambda>p. replicaIndexOf (- 1) (mLabels (piMeta p))) ps = allocation (desiredReplicas sij) pis
    \<and> length ps = nat (desiredReplicas sij - countActive pis)"
proof -
  obtain w where w: "kListPI k (mNamespace (sjMeta sij)) [(spotInstanceJobLabel, mName (sjMeta sij))] (world s)
      = (Inr pis, w)"
    using instance_store.listing [OF st] pis(1) unfolding listedOf_def by blast
  from provisioning_run [OF k d w pis(2,3) room, of tmpl] obtain s' es
    where run: "reconcileProvisionedInstances k sij tmpl s = Some (None, s')" and es: "trace s' = trace s @ es"
      and idx: "createdIndices es = allocation (desiredReplicas sij) pis"
      and len: "length (createdIndices es) = nat (desiredReplicas sij - countActive pis)"
    unfolding allocation_def by blast
  from instance_store.reconcile_store [OF st pis(1) [unfolded listedOf_def] pis(3) run] es
  have ins: "insts (world s') = insts (world s) @ createdPIs es" by (auto simp: grows_def)
  from reconcile_instances_run [OF k(1) w pis(2) run] es
  have "list_all (\<lambda>a. \<exists>i. createsInstance k sij tmpl i a) es" by (auto simp: allocates_def)
  then have "list_all (freshFor sij tmpl) (createdPIs es)"
    using createsInstance_fresh [OF k(1)] createdPIs_in by (fastforce simp: list_all_iff)
  with run ins idx len show ?thesis unfolding createdIndices_PIs length_map
    by (intro exI [of _ s'] exI [of _ "createdPIs es"] conjI)
qed

text \<open>The reference server without faults, and with a create call that always goes through.\<close>

definition reliableKube :: "cluster kube" where
  "reliableKube = openKube
     \<lparr>kListPI := (\<lambda>ns sel c. (Inr (filter (\<lambda>p. selected ns sel (piMeta p)) (clPIs c)), c))\<rparr>"

interpretation reliable: instance_store reliableKube clPIs
  by unfold_locales (auto simp: reliableKube_def openKube_def refList_def split: option.splits)

lemma reliableKube_laws: "owners_only reliableKube" "creates_succeed reliableKube"
  using openKube_laws by (simp_all add: reliableKube_def owners_only_def creates_succeed_def)

section \<open>Properties\<close>

text \<open>
  C13. Take an API server that stores instances as instance_store says (a
  listing selects by namespace and labels, a create call that succeeds adds the object, nothing
  else the pass calls touches them) and whose create calls and controller references succeed,
  and a SpotInstanceJob that has no terminated instance, desires between 0 and 2^30 - 1
  replicas, and whose instances leave enough replica indices free below twice that number.
  Then one pass succeeds, and afterwards the number of active instances is the desired one (or
  what it was, if it was higher); and a second pass, in any later state of this server in which
  the instances are still the same, makes no call that changes anything and reports no error.
\<close>

theorem instances_converge:
  assumes st: "instance_store k insts" and k: "owners_only k" "creates_succeed k"
    and d: "0 \<le> desiredReplicas sij" "desiredReplicas sij \<le> 1073741823"
    and pis: "pis = listedOf sij (insts (world s))" "length pis \<le> 2147483647" "\<not> list_ex terminatedPI pis"
    and room: "int (card (set (usedIndices pis))) \<le> desiredReplicas sij + countActive pis"
  shows "\<exists>s'. reconcileProvisionedInstances k sij tmpl s = Some (None, s')
    \<and> countActive (listedOf sij (insts (world s'))) = max (desiredReplicas sij) (countActive pis)
    \<and> (\<forall>t. insts (world t) = insts (world s') \<longrightarrow>
         (\<exists>t'. reconcileProvisionedInstances k sij tmpl t = Some (None, t') \<and> trace t' = trace t))"
proof -
  let ?d = "desiredReplicas sij" and ?c = "countActive pis"
  obtain s' ps where run: "reconcileProvisionedInstances k sij tmpl s = Some (None, s')"
    and ins: "insts (world s') = insts (world s) @ ps" and fresh: "list_all (freshFor sij tmpl) ps"
    and len: "length ps = nat (?d - ?c)"
    using provisioning_pass [OF assms] by blast
  from ins fresh_list [OF fresh] pis(1) have after: "listedOf sij (insts (world s')) = pis @ ps"
    by (simp add: listedOf_def)
  have c: "?c = int (length (filter activePI pis))" "0 \<le> ?c"
  proof -
    have "length (filter activePI pis) \<le> 2147483647" by (rule le_trans [OF length_filter_le pis(2)])
    then have "in32 (int (length (filter activePI pis)))" by (simp add: in32_def)
    then show "?c = int (length (filter activePI pis))" by (simp add: countActive_def)
  qed (rule countActive_nonneg [OF pis(2)])
  have "in32 (max ?d ?c)" using d c pis(2) le_trans [OF length_filter_le [of activePI pis] pis(2)]
    by (auto simp: in32_def max_def)
  moreover have "int (length (filter activePI (pis @ ps))) = max ?d ?c"
    using fresh_list(2) [OF fresh] len c by (auto simp: max_def)
  ultimately have count: "countActive (pis @ ps) = max ?d ?c" by (simp add: countActive_def)
  have "\<exists>t'. reconcileProvisionedInstances k sij tmpl t = Some (None, t') \<and> trace t' = trace t"
    if t: "insts (world t) = insts (world s')" for t
  proof -
    from instance_store.listing [OF st] t after obtain w where
      "kListPI k (mNamespace (sjMeta sij)) [(spotInstanceJobLabel, mName (sjMeta sij))] (world t)
        = (Inr (pis @ ps), w)" unfolding listedOf_def by metis
    moreover have "\<not> list_ex terminatedPI (pis @ ps)" using fresh_list(3) [OF fresh] pis(3) by simp
    ultimately show ?thesis using count
      by (simp add: reconcileProvisionedInstances_def waitsForCheckpoint_def kread_def)
  qed
  with run count after show ?thesis by auto
qed

theorem instances_converge_witness:
  "\<exists>s'. reconcileProvisionedInstances reliableKube exSIJ exTemplate \<lparr>world = exCluster, trace = []\<rparr> = Some (None, s')
     \<and> (\<exists>t'. reconcileProvisionedInstances reliableKube exSIJ exTemplate s' = Some (None, t') \<and> trace t' = trace s')"
proof -
  have d: "desiredReplicas exSIJ = 2" by (simp add: desiredReplicas_def checkpoint_examples)
  have l: "listedOf exSIJ (clPIs (world \<lparr>world = exCluster, trace = []\<rparr>)) = []"
    by (simp add: listedOf_def cluster_eval example_defs)
  have c: "countActive [] = 0" by (simp add: countActive_def in32_def)
  from instances_converge [OF reliable.instance_store_axioms reliableKube_laws _ _ l [symmetric], of exTemplate] d c
  show ?thesis by auto
qed

end
