(* ===== verification/Settled.thy ===== *)
theory Settled
  imports SIJController Frames
begin

text \<open>
  A SpotInstanceJob that has everything it asks for. With a server that answers what is there
  and stores the statuses it is given, a pass over such a job changes nothing but the status,
  and leaves it as settled as it was: so does every number of passes.
\<close>

section \<open>A server at rest\<close>

text \<open>What the server shows of a SpotInstanceJob: its objects as they are listed for it.\<close>

record snapshot =
  snJob :: spot_job
  snTemplate :: instance_template
  snInstances :: "prov_instance list"
  snJobs :: "job list"
  snCheckpoints :: "checkpoint_backup list"

locale steady_server =
  fixes k :: "'w kube" and ns nm :: string and holds :: "'w \<Rightarrow> snapshot \<Rightarrow> bool"
  assumes key: "holds w sn \<Longrightarrow> sijKey (snJob sn) = (ns, nm)"
    and get_job: "holds w sn \<Longrightarrow> \<exists>w'. kGetSIJ k ns nm w = (Inr (snJob sn), w') \<and> holds w' sn"
    and get_template: "holds w sn \<Longrightarrow> \<exists>w'. kGetTemplate k ns (lrName (sjInstanceTemplateRef (sjSpec (snJob sn)))) w
      = (Inr (snTemplate sn), w') \<and> holds w' sn"
    and list_instances: "holds w sn \<Longrightarrow>
      \<exists>w'. kListPI k ns [(spotInstanceJobLabel, nm)] w = (Inr (snInstances sn), w') \<and> holds w' sn"
    and list_jobs: "holds w sn \<Longrightarrow>
      \<exists>w'. kListJob k ns [(spotInstanceJobLabel, nm)] w = (Inr (snJobs sn), w') \<and> holds w' sn"
    and list_checkpoints: "holds w sn \<Longrightarrow>
      \<exists>w'. kListCheckpoint k ns [(spotInstanceJobLabel, nm)] w = (Inr (snCheckpoints sn), w') \<and> holds w' sn"
    and clock: "holds w sn \<Longrightarrow> \<exists>t w'. kNow k w = (t, w') \<and> holds w' sn"
    and write_status: "holds w sn \<Longrightarrow> \<exists>w'. kUpdateSIJStatus k ((snJob sn)\<lparr>sjStatus := st\<rparr>) w
      = (Inr ((snJob sn)\<lparr>sjStatus := st\<rparr>), w') \<and> holds w' (sn\<lparr>snJob := (snJob sn)\<lparr>sjStatus := st\<rparr>\<rparr>)"

text \<open>The replica indices held by jobs that run, have succeeded or were restored.\<close>

definition heldIndices :: "job list \<Rightarrow> int set" where
  "heldIndices js = (\<lambda>j. replicaIndexOf (- 1) (mLabels (jMeta j))) `
     {j \<in> set js. mDeletionTimestamp (jMeta j) = None \<and> liveJob j \<and> 0 \<le> replicaIndexOf (- 1) (mLabels (jMeta j))}"

definition settled :: "'w kube \<Rightarrow> snapshot \<Rightarrow> bool" where
  "settled k sn \<longleftrightarrow> \<not> beingDeleted (sjMeta (snJob sn)) \<and> kHasFinalizer k (sjMeta (snJob sn)) spotInstanceJobFinalizer
     \<and> \<not> list_ex inProgress (snCheckpoints sn) \<and> \<not> list_ex preempted (snInstances sn)
     \<and> desiredReplicas (snJob sn) \<le> countActive (snInstances sn)
     \<and> length (snJobs sn) \<le> 2147483647 \<and> desiredReplicas (snJob sn) \<le> int (card (heldIndices (snJobs sn)))"

lemma settled_status:
  "settled k (sn\<lparr>snJob := (snJob sn)\<lparr>sjStatus := st\<rparr>\<rparr>) \<longleftrightarrow> settled k sn"
  by (simp add: settled_def desiredReplicas_def)

text \<open>The number the pass writes.\<close>

definition activeJobs :: "job list \<Rightarrow> int" where
  "activeJobs js = wrap32 (int (length (filter (\<lambda>j. 0 < jActive j) js)))"

definition counted :: "snapshot \<Rightarrow> snapshot" where
  "counted sn = sn\<lparr>snJob := (snJob sn)\<lparr>sjStatus := (sjStatus (snJob sn))\<lparr>ssActiveReplicas := activeJobs (snJobs sn)\<rparr>\<rparr>\<rparr>"

text \<open>Writes of the status of the SpotInstanceJob only.\<close>

fun isSIJStatus :: "action \<Rightarrow> bool" where
  "isSIJStatus (AUpdateSIJStatus _ e) \<longleftrightarrow> e = None"
| "isSIJStatus _ \<longleftrightarrow> False"

definition statusOnly :: "action list \<Rightarrow> bool" where
  "statusOnly es \<longleftrightarrow> list_all isSIJStatus es"

text \<open>A number of passes, one after the other.\<close>

fun passes :: "'w kube \<Rightarrow> string \<Rightarrow> string \<Rightarrow> nat \<Rightarrow> 'w sys \<Rightarrow> (outcome list \<times> 'w sys) option" where
  "passes k ns nm 0 s = Some ([], s)"
| "passes k ns nm (Suc n) s = do {
     (r, s) \<leftarrow> Reconcile k ns nm s;
     (rs, s) \<leftarrow> passes k ns nm n s;
     Some (r # rs, s)
   }"

lemma no_preemption: "\<not> list_ex preempted ps \<Longrightarrow> handleInstances k sij pis ps jobs s = Some ((), s)"
  by (induction ps) simp_all

context steady_server
begin

lemma names: "holds w sn \<Longrightarrow> mNamespace (sjMeta (snJob sn)) = ns \<and> mName (sjMeta (snJob sn)) = nm"
  using key [of w sn] by (simp add: sijKey_def)

lemma pending:
  assumes "holds (world s) sn"
  shows "\<exists>w. hasPendingCheckpoints k (snJob sn) s = Some (Inr (list_ex inProgress (snCheckpoints sn)), s\<lparr>world := w\<rparr>)
    \<and> holds w sn"
  using list_checkpoints [OF assms] names [OF assms] by (auto simp: hasPendingCheckpoints_def kread_def)

lemma preemption_rests:
  assumes "holds (world s) sn" "settled k sn"
  shows "\<exists>w. preemptionPhase k (snJob sn) s = Some (None, s\<lparr>world := w\<rparr>) \<and> holds w sn"
proof -
  from pending [OF assms(1)] obtain w1 where
    1: "hasPendingCheckpoints k (snJob sn) s = Some (Inr (list_ex inProgress (snCheckpoints sn)), s\<lparr>world := w1\<rparr>)"
      "holds w1 sn" by blast
  from list_instances [OF 1(2)] obtain w2 where
    2: "kListPI k ns [(spotInstanceJobLabel, nm)] w1 = (Inr (snInstances sn), w2)" "holds w2 sn" by blast
  with 1 assms(2) names [OF assms(1)] show ?thesis
    by (intro exI [of _ w2])
      (simp add: preemptionPhase_def handlePreemption_def kread_def settled_def no_preemption)
qed

lemma instances_rest:
  assumes "holds (world s) sn" "settled k sn"
  shows "\<exists>w. instancePhase k (snJob sn) tmpl s = Some (Inr False, s\<lparr>world := w\<rparr>) \<and> holds w sn"
proof -
  from pending [OF assms(1)] obtain w1 where
    1: "hasPendingCheckpoints k (snJob sn) s = Some (Inr (list_ex inProgress (snCheckpoints sn)), s\<lparr>world := w1\<rparr>)"
      "holds w1 sn" by blast
  from list_instances [OF 1(2)] obtain w2 where
    2: "kListPI k ns [(spotInstanceJobLabel, nm)] w1 = (Inr (snInstances sn), w2)" "holds w2 sn" by blast
  with 1 assms(2) names [OF assms(1)] show ?thesis
    by (intro exI [of _ w2])
      (simp add: instancePhase_def reconcileProvisionedInstances_def waitsForCheckpoint_def kread_def settled_def)
qed

text \<open>Reading the jobs reads the clock, which changes nothing.\<close>

definition rests :: "'w sys \<Rightarrow> 'w sys \<Rightarrow> bool" where
  "rests s s' \<longleftrightarrow> trace s' = trace s \<and> (\<forall>sn. holds (world s) sn \<longrightarrow> holds (world s') sn)"

lemma state_relation_rests: "state_relation rests"
  by unfold_locales (auto simp: rests_def)

lemma scan_rests: "relates rests (scanJobs k js used)"
proof (induction js arbitrary: used)
  case Nil
  show ?case unfolding scanJobs.simps(1) [abs_def] by (rule state_relation.ret [OF state_relation_rests])
next
  case (Cons j js)
  have now: "relates rests (timeNow k)"
    using clock by (intro relates_kread) (force simp: rests_def)
  show ?case unfolding scanJobs.simps(2) [abs_def]
    by (intro relates_option relates_let state_relation.bind [OF state_relation_rests] now Cons)
qed

lemma jobs_rest:
  assumes "holds (world s) sn" "settled k sn"
  shows "\<exists>w. reconcileJobReplicas k (snJob sn) s = Some ((None, snJob sn), s\<lparr>world := w\<rparr>) \<and> holds w sn"
proof -
  from list_jobs [OF assms(1)] obtain w1 where
    1: "kListJob k ns [(spotInstanceJobLabel, nm)] (world s) = (Inr (snJobs sn), w1)" "holds w1 sn" by blast
  from pending [of "s\<lparr>world := w1\<rparr>" sn] 1(2) obtain w2 where
    2: "hasPendingCheckpoints k (snJob sn) (s\<lparr>world := w1\<rparr>)
      = Some (Inr (list_ex inProgress (snCheckpoints sn)), s\<lparr>world := w2\<rparr>)" "holds w2 sn" by auto
  obtain used s3 where scan: "scanJobs k (snJobs sn) [] (s\<lparr>world := w2\<rparr>) = Some (used, s3)"
    using returns_scanJobs unfolding returns_def by fastforce
  from relatesD [OF scan_rests this] 2(2) have 3: "s3 = s\<lparr>world := world s3\<rparr>" "holds (world s3) sn"
    by (simp_all add: rests_def)
  from yieldsE [OF yields_scanJobs scan] have used: "length used \<le> length (snJobs sn)"
    "heldIndices (snJobs sn) \<subseteq> set used" by (auto simp: heldIndices_def)
  have "card (heldIndices (snJobs sn)) \<le> length used"
    by (rule le_trans [OF card_mono [OF finite_set used(2)] card_length])
  moreover have "wrap32 (int (length used)) = int (length used)"
    using used(1) assms(2) by (intro wrap32_id) (simp add: settled_def in32_def)
  ultimately have "\<not> wrap32 (int (length used)) < desiredReplicas (snJob sn)"
    using assms(2) by (simp add: settled_def)
  with 1 2 scan 3 assms(2) names [OF assms(1)] show ?thesis
    by (intro exI [of _ "world s3"]) (simp add: reconcileJobReplicas_def kread_def Let_def settled_def)
qed

lemma status_written:
  assumes "holds (world s) sn"
  shows "\<exists>w. updateStatus k (snJob sn) s = Some (None, s\<lparr>world := w,
      trace := trace s @ [AUpdateSIJStatus (snJob (counted sn)) None]\<rparr>) \<and> holds w (counted sn)"
proof -
  from list_jobs [OF assms] obtain w1 where
    1: "kListJob k ns [(spotInstanceJobLabel, nm)] (world s) = (Inr (snJobs sn), w1)" "holds w1 sn" by blast
  from write_status [OF 1(2)] obtain w2 where
    "kUpdateSIJStatus k (snJob (counted sn)) w1 = (Inr (snJob (counted sn)), w2)" "holds w2 (counted sn)"
    by (auto simp: counted_def)
  with 1 names [OF assms] show ?thesis
    by (intro exI [of _ w2]) (simp add: updateStatus_def kread_def kcall_def activeJobs_def counted_def)
qed

text \<open>The first status, which is written when the last one has no replicas in it.\<close>

lemma initial_status:
  assumes "holds (world s) sn"
  shows "\<exists>us w sn'. initStatusSIJ k (snJob sn) s = Some (Inr (snJob sn'), s\<lparr>world := w, trace := trace s @ us\<rparr>)
    \<and> holds w sn' \<and> sn' = sn\<lparr>snJob := (snJob sn)\<lparr>sjStatus := sjStatus (snJob sn')\<rparr>\<rparr> \<and> counted sn' = counted sn
    \<and> (us = [] \<or> us = [AUpdateSIJStatus (snJob sn') None])"
proof (cases "ssActiveReplicas (sjStatus (snJob sn)) = 0 \<and> ssJobStatuses (sjStatus (snJob sn)) = []")
  case True
  let ?sn = "sn\<lparr>snJob := (snJob sn)\<lparr>sjStatus := (sjStatus (snJob sn))\<lparr>ssActiveReplicas := 0\<rparr>\<rparr>\<rparr>"
  from write_status [OF assms] obtain w where
    "kUpdateSIJStatus k (snJob ?sn) (world s) = (Inr (snJob ?sn), w)" "holds w ?sn" by auto
  with True show ?thesis
    by (intro exI [of _ "[AUpdateSIJStatus (snJob ?sn) None]"] exI [of _ w] exI [of _ ?sn])
      (simp add: initStatusSIJ_def kcall_def counted_def)
next
  case False
  with assms show ?thesis
    by (intro exI [of _ "[]"] exI [of _ "world s"] exI [of _ sn]) (auto simp: initStatusSIJ_def)
qed

lemma settled_pass:
  assumes "holds (world s) sn" "settled k sn"
  shows "\<exists>s' us. Reconcile k ns nm s = Some (requeue (minutes 1) None, s') \<and> trace s' = trace s @ us
    \<and> statusOnly us \<and> length us \<le> 2 \<and> holds (world s') (counted sn)"
proof -
  note quiet = assms(2) [unfolded settled_def]
  from get_job [OF assms(1)] obtain w1 where 1: "kGetSIJ k ns nm (world s) = (Inr (snJob sn), w1)" "holds w1 sn" by blast
  from initial_status [of "s\<lparr>world := w1\<rparr>" sn] 1(2) obtain us w2 sn' where
    2: "initStatusSIJ k (snJob sn) (s\<lparr>world := w1\<rparr>)
        = Some (Inr (snJob sn'), s\<lparr>world := w2, trace := trace s @ us\<rparr>)" "holds w2 sn'"
    and sn': "sn' = sn\<lparr>snJob := (snJob sn)\<lparr>sjStatus := sjStatus (snJob sn')\<rparr>\<rparr>" "counted sn' = counted sn"
    and us: "us = [] \<or> us = [AUpdateSIJStatus (snJob sn') None]" by auto
  have quiet': "settled k sn'" by (subst sn'(1)) (simp only: settled_status assms(2))
  let ?s2 = "s\<lparr>world := w2, trace := trace s @ us\<rparr>"
  from get_template [OF 2(2)] names [OF 2(2)] obtain w3 where
    3: "fetchTemplateFor k (snJob sn') ?s2 = Some (Inr (snTemplate sn'), ?s2\<lparr>world := w3\<rparr>)" "holds w3 sn'"
    by (auto simp: fetchTemplateFor_def kread_def)
  from preemption_rests [OF _ quiet', of "?s2\<lparr>world := w3\<rparr>"] 3(2) obtain w4 where
    4: "preemptionPhase k (snJob sn') (?s2\<lparr>world := w3\<rparr>) = Some (None, ?s2\<lparr>world := w4\<rparr>)" "holds w4 sn'" by auto
  from instances_rest [OF _ quiet', of "?s2\<lparr>world := w4\<rparr>" "snTemplate sn'"] 4(2) obtain w5 where
    5: "instancePhase k (snJob sn') (snTemplate sn') (?s2\<lparr>world := w4\<rparr>) = Some (Inr False, ?s2\<lparr>world := w5\<rparr>)"
      "holds w5 sn'" by auto
  from jobs_rest [OF _ quiet', of "?s2\<lparr>world := w5\<rparr>"] 5(2) obtain w6 where
    6: "reconcileJobReplicas k (snJob sn') (?s2\<lparr>world := w5\<rparr>) = Some ((None, snJob sn'), ?s2\<lparr>world := w6\<rparr>)"
      "holds w6 sn'" by auto
  from status_written [of "?s2\<lparr>world := w6\<rparr>" sn'] 6(2) obtain w7 where
    7: "updateStatus k (snJob sn') (?s2\<lparr>world := w6\<rparr>)
        = Some (None, ?s2\<lparr>world := w7, trace := trace s @ us @ [AUpdateSIJStatus (snJob (counted sn')) None]\<rparr>)"
      "holds w7 (counted sn')" by auto
  let ?s' = "?s2\<lparr>world := w7, trace := trace s @ us @ [AUpdateSIJStatus (snJob (counted sn')) None]\<rparr>"
  have "Reconcile k ns nm s = Some (requeue (minutes 1) None, ?s')"
    using 1(1) 2(1) 3(1) 4(1) 5(1) 6(1) 7(1) quiet
    by (simp add: Reconcile_def kread_def reconcileLiveSIJ_def ensureFinalizerSIJ_def reconcileFrom_def jobPhase_def)
  with 7(2) us sn'(2) show ?thesis
    by (intro exI [of _ ?s'] exI [of _ "us @ [AUpdateSIJStatus (snJob (counted sn')) None]"])
      (auto simp: statusOnly_def)
qed

lemma settled_counted: "settled k sn \<Longrightarrow> settled k (counted sn)"
  by (simp add: counted_def settled_status)

lemma counted_counted [simp]: "counted (counted sn) = counted sn"
  by (simp add: counted_def)

text \<open>So does any number of passes, whenever they come.\<close>

lemma settled_passes:
  assumes "holds (world s) sn" "settled k sn"
  shows "\<exists>s' us. passes k ns nm n s = Some (replicate n (requeue (minutes 1) None), s')
    \<and> trace s' = trace s @ us \<and> statusOnly us \<and> length us \<le> 2 * n
    \<and> holds (world s') (if n = 0 then sn else counted sn)"
  using assms
proof (induction n arbitrary: s sn)
  case 0
  then show ?case by (auto simp: statusOnly_def)
next
  case (Suc n)
  from settled_pass [OF Suc.prems] obtain s1 us where
    1: "Reconcile k ns nm s = Some (requeue (minutes 1) None, s1)" "trace s1 = trace s @ us"
      "statusOnly us" "length us \<le> 2" "holds (world s1) (counted sn)" by blast
  from Suc.IH [OF 1(5) settled_counted [OF Suc.prems(2)]] obtain s2 vs where
    2: "passes k ns nm n s1 = Some (replicate n (requeue (minutes 1) None), s2)" "trace s2 = trace s1 @ vs"
      "statusOnly vs" "length vs \<le> 2 * n" "holds (world s2) (counted sn)" by (auto split: if_splits)
  from 1 2 show ?case
    by (intro exI [of _ s2] exI [of _ "us @ vs"]) (auto simp: statusOnly_def)
qed

end

section \<open>The reference server\<close>

definition restsAt :: "cluster \<Rightarrow> snapshot \<Rightarrow> bool" where
  "restsAt c sn \<longleftrightarrow> clFaults c = [] \<and> clSIJs c = [snJob sn] \<and> sijKey (snJob sn) = (''ns'', ''train'')
     \<and> clTemplates c = [exTemplate] \<and> snTemplate sn = exTemplate \<and> lrName (sjInstanceTemplateRef (sjSpec (snJob sn))) = ''tmpl''
     \<and> snInstances sn = filter (\<lambda>p. selected ''ns'' [(spotInstanceJobLabel, ''train'')] (piMeta p)) (clPIs c)
     \<and> snJobs sn = filter (\<lambda>j. selected ''ns'' [(spotInstanceJobLabel, ''train'')] (jMeta j)) (clJobs c)
     \<and> snCheckpoints sn = filter (\<lambda>cp. selected ''ns'' [(spotInstanceJobLabel, ''train'')] (cpMeta cp)) (clCheckpoints c)"

interpretation restful: steady_server refKube "''ns''" "''train''" restsAt
  by unfold_locales
    (auto simp: restsAt_def sijKey_def fault_def refGet_def refList_def refUpdate_def named_def setSIJs_def Let_def
      exTemplate_def exMeta_def)

section \<open>Property\<close>

text \<open>
  C15. A SpotInstanceJob that has what it asks for is left alone: no checkpoint in
  progress, no instance preempted, as many active instances and as many replica indices with
  a running, finished or restored job as replicas are desired. Then any number of passes over
  it succeed, ask to be called again in a minute, write nothing but its status (at most twice
  a pass), and leave the instances, the jobs and the checkpoints as they were.
\<close>

theorem settled_stays:
  assumes "steady_server k ns nm holds" "holds (world s) sn" "settled k sn"
  shows "\<exists>s' us. passes k ns nm n s = Some (replicate n (requeue (minutes 1) None), s')
    \<and> trace s' = trace s @ us \<and> statusOnly us \<and> length us \<le> 2 * n
    \<and> holds (world s') (if n = 0 then sn else counted sn)"
  by (rule steady_server.settled_passes [OF assms])

definition settledJob :: spot_job where
  "settledJob = oneReplica\<lparr>sjMeta := (exMeta ''train'')\<lparr>mFinalizers := [spotInstanceJobFinalizer]\<rparr>\<rparr>"

definition settledCluster :: cluster where
  "settledCluster = restoreCluster\<lparr>clSIJs := [settledJob]\<rparr>"

definition settledView :: snapshot where
  "settledView = \<lparr>snJob = settledJob, snTemplate = exTemplate, snInstances = [exReadyPI], snJobs = [exJob],
     snCheckpoints = []\<rparr>"

theorem settled_stays_witness:
  "\<exists>s'. passes refKube ''ns'' ''train'' 2 \<lparr>world = settledCluster, trace = []\<rparr>
       = Some ([requeue (minutes 1) None, requeue (minutes 1) None], s')
     \<and> filter (\<lambda>j. selected ''ns'' [(spotInstanceJobLabel, ''train'')] (jMeta j)) (clJobs (world s')) = [exJob]
     \<and> statusOnly (trace s')"
proof -
  have idx: "replicaIndexOf (- 1) (mLabels (jMeta exJob)) = 0"
    by (simp add: exJob_def replicaIndexOf_def parseInt32_def parseUint_def digitVal_def)
  have job: "mDeletionTimestamp (jMeta exJob) = None" "liveJob exJob"
    by (simp_all add: exJob_def liveJob_def cluster_eval example_defs)
  have "heldIndices [exJob] = {0}" unfolding heldIndices_def using job idx by auto
  moreover have "desiredReplicas settledJob = 1" "countActive [exReadyPI] = 1"
    by (simp_all add: desiredReplicas_def settledJob_def oneReplica_def countActive_def activePI_def exReadyPI_def
        in32_def cluster_eval example_defs)
  ultimately have "settled refKube settledView"
    by (simp add: settled_def settledView_def settledJob_def preempted_def exReadyPI_def cluster_eval example_defs)
  moreover have shown: "restsAt (world \<lparr>world = settledCluster, trace = []\<rparr>) settledView"
    by (simp add: restsAt_def settledView_def settledCluster_def settledJob_def oneReplica_def restoreCluster_def
        exReadyPI_def exJob_def checkpoint_examples sijKey_def cluster_eval example_defs)
  ultimately obtain s' us where run: "passes refKube ''ns'' ''train'' 2 \<lparr>world = settledCluster, trace = []\<rparr>
      = Some (replicate 2 (requeue (minutes 1) None), s')" "trace s' = us" "statusOnly us"
    "restsAt (world s') (counted settledView)"
    using settled_stays [OF restful.steady_server_axioms shown, of 2] by auto
  then have "filter (\<lambda>j. selected ''ns'' [(spotInstanceJobLabel, ''train'')] (jMeta j)) (clJobs (world s')) = [exJob]"
    by (simp add: restsAt_def counted_def settledView_def)
  with run show ?thesis by (simp add: numeral_2_eq_2)
qed

end
