(* ===== verification/JobStore.thy ===== *)
theory JobStore
  imports Settled
begin

text \<open>
  The jobs of the replicas with a server that stores what is created: a pass starts exactly the
  jobs that are missing, on the least replica indices without one, when the machines of those
  indices have joined; once the new jobs run, the SpotInstanceJob is settled; and a pass that
  comes before they run starts all of them again.
\<close>

section \<open>A server that takes jobs\<close>

text \<open>
  The lists of one replica index are those of the SpotInstanceJob with the label of the index;
  create calls and controller references go through.
\<close>

locale job_server = steady_server +
  assumes list_replica_jobs: "holds w sn \<Longrightarrow>
      \<exists>w'. kListJob k ns [(spotInstanceJobLabel, nm), (jobReplicaLabel, showInt i)] w
        = (Inr (filter (\<lambda>j. mLabels (jMeta j) jobReplicaLabel = Some (showInt i)) (snJobs sn)), w') \<and> holds w' sn"
    and list_replica_instances: "holds w sn \<Longrightarrow>
      \<exists>w'. kListPI k ns [(spotInstanceJobLabel, nm), (jobReplicaLabel, showInt i)] w
        = (Inr (filter (\<lambda>p. mLabels (piMeta p) jobReplicaLabel = Some (showInt i)) (snInstances sn)), w') \<and> holds w' sn"
    and controller: "\<exists>os. kSetCtrlRef k owner m = Inr (m\<lparr>mOwners := os\<rparr>)"
    and create_job: "holds w sn \<Longrightarrow> mNamespace (jMeta j) = ns \<Longrightarrow> mLabels (jMeta j) spotInstanceJobLabel = Some nm \<Longrightarrow>
      \<exists>w'. kCreateJob k j w = (None, w') \<and> holds w' (sn\<lparr>snJobs := snJobs sn @ [j]\<rparr>)"

section \<open>One replica\<close>

text \<open>The machine of an index: the first one of it that is not preempted has joined.\<close>

definition machineJoined :: "snapshot \<Rightarrow> int \<Rightarrow> bool" where
  "machineJoined sn i \<longleftrightarrow> (\<exists>p. selectActivePI (filter (\<lambda>p. mLabels (piMeta p) jobReplicaLabel = Some (showInt i))
     (snInstances sn)) = Some p \<and> piJoinedCluster (piStatus p) \<and> piNodeName (piStatus p) \<noteq> [])"

text \<open>A job that has just been created for an index.\<close>

definition newJob :: "int \<Rightarrow> job \<Rightarrow> bool" where
  "newJob i j \<longleftrightarrow> \<not> liveJob j \<and> mDeletionTimestamp (jMeta j) = None
     \<and> mLabels (jMeta j) jobReplicaLabel = Some (showInt i)"

text \<open>The jobs of an index, none of which holds it.\<close>

definition vacant :: "snapshot \<Rightarrow> int \<Rightarrow> bool" where
  "vacant sn i \<longleftrightarrow> (\<forall>j\<in>set (snJobs sn). mLabels (jMeta j) jobReplicaLabel = Some (showInt i)
     \<longrightarrow> \<not> liveJob j \<and> mDeletionTimestamp (jMeta j) = None)"

lemma no_valid_job:
  "\<forall>j\<in>set js. \<not> liveJob j \<and> mDeletionTimestamp (jMeta j) = None \<Longrightarrow> anyValidJob k js s = Some (False, s)"
  by (induction js) simp_all

text \<open>The indices a pass is to fill: the least ones that are free, as many as jobs are missing.\<close>

definition missing :: "snapshot \<Rightarrow> int list" where
  "missing sn = take (nat (desiredReplicas (snJob sn) - int (card (heldIndices (snJobs sn)))))
     (sorted_list_of_set ({0..<2 * desiredReplicas (snJob sn)} - heldIndices (snJobs sn)))"

lemma card_heldIndices: "card (heldIndices js) \<le> length js"
proof -
  have "card (heldIndices js) \<le> card (set js)" unfolding heldIndices_def
    by (rule le_trans [OF card_image_le]) (auto intro: card_mono)
  then show ?thesis using card_length le_trans by blast
qed

lemma scan_held:
  assumes "\<forall>j\<in>set js. mDeletionTimestamp (jMeta j) = None"
  shows "\<exists>used'. (\<forall>s. scanJobs k js used s = Some (used', s)) \<and> set used' = set used \<union> heldIndices js
    \<and> (distinct used \<longrightarrow> distinct used')"
  using assms
proof (induction js arbitrary: used)
  case Nil
  then show ?case by (simp add: heldIndices_def)
next
  case (Cons j js)
  let ?i = "replicaIndexOf (- 1) (mLabels (jMeta j))"
  let ?used = "if liveJob j \<and> 0 \<le> ?i then List.insert ?i used else used"
  have held: "heldIndices (j # js) = (if liveJob j \<and> 0 \<le> ?i then {?i} else {}) \<union> heldIndices js"
    using Cons.prems by (auto simp: heldIndices_def)
  from Cons.IH [of ?used] Cons.prems obtain used' where
    "\<forall>s. scanJobs k js ?used s = Some (used', s)" "set used' = set ?used \<union> heldIndices js"
    "distinct ?used \<longrightarrow> distinct used'" by auto
  with Cons.prems show ?case
    by (intro exI [of _ used']) (auto simp: held Let_def)
qed

context job_server
begin

lemma created:
  assumes "holds (world s) sn" "sameJob (snJob sn) sij"
  shows "\<exists>j sij' w. createJobReplica k sij jn i s
      = Some ((None, sij'), s\<lparr>world := w, trace := trace s @ [ACreateJob j None]\<rparr>)
    \<and> holds w (sn\<lparr>snJobs := snJobs sn @ [j]\<rparr>) \<and> sameJob sij sij' \<and> newJob i j"
proof -
  from names [OF assms(1)] sameJob_fields [OF assms(2)] have nm: "mNamespace (sjMeta sij) = ns" "mName (sjMeta sij) = nm"
    by simp_all
  obtain spec sij' where lt: "labelTemplate (withReplicaLabels sij i) sij = (spec, sij')" by fastforce
  from labelTemplate_eqD [OF this] have same: "sameJob sij sij'" ..
  from sameJob_fields [OF same] nm have nm': "mNamespace (sjMeta sij') = ns" "mName (sjMeta sij') = nm" by simp_all
  let ?r = "replicaJob sij' jn i spec"
  from list_replica_instances [OF assms(1)] obtain pis w1 where
    1: "kListPI k ns [(spotInstanceJobLabel, nm), (jobReplicaLabel, showInt i)] (world s) = (Inr pis, w1)"
      "holds w1 sn" by blast
  have "\<exists>j. assignNode k sij' i ?r s = Some (j, s\<lparr>world := w1\<rparr>) \<and> jMeta j = jMeta ?r
      \<and> jActive j = jActive ?r \<and> jSucceeded j = jSucceeded ?r"
    using 1(1) nm'
    by (cases "selectReadyPI pis") (simp_all add: assignNode_def kread_def replicaSelector_def setNodeName_def)
  then obtain j where j: "assignNode k sij' i ?r s = Some (j, s\<lparr>world := w1\<rparr>)" "jMeta j = jMeta ?r"
    "jActive j = jActive ?r" "jSucceeded j = jSucceeded ?r" by blast
  obtain os where os: "kSetCtrlRef k (sjMeta sij') (jMeta j) = Inr ((jMeta j)\<lparr>mOwners := os\<rparr>)"
    using controller by blast
  let ?j = "j\<lparr>jMeta := (jMeta j)\<lparr>mOwners := os\<rparr>\<rparr>"
  from create_job [OF 1(2), of ?j] obtain w2 where 2: "kCreateJob k ?j w1 = (None, w2)"
    "holds w2 (sn\<lparr>snJobs := snJobs sn @ [?j]\<rparr>)"
    using nm' by (auto simp: j(2) replicaJob_def withReplicaLabels_def)
  have "newJob i ?j"
    by (simp add: newJob_def liveJob_def j(2-4) replicaJob_def noMeta_def withReplicaLabels_def hasCheckpointUpdated_def)
  with lt j(1) os 2 same show ?thesis
    by (intro exI [of _ ?j] exI [of _ sij'] exI [of _ w2]) (simp add: createJobReplica_def kcall_def)
qed

lemma tried:
  assumes "holds (world s) sn" "sameJob (snJob sn) sij" "machineJoined sn i" "vacant sn i"
  shows "\<exists>j sij' w. tryReplica k sij i s
      = Some ((Created, sij'), s\<lparr>world := w, trace := trace s @ [ACreateJob j None]\<rparr>)
    \<and> holds w (sn\<lparr>snJobs := snJobs sn @ [j]\<rparr>) \<and> sameJob (snJob sn) sij' \<and> newJob i j"
proof -
  from names [OF assms(1)] sameJob_fields [OF assms(2)] have nm: "mNamespace (sjMeta sij) = ns" "mName (sjMeta sij) = nm"
    by simp_all
  from list_replica_jobs [OF assms(1)] obtain w1 where
    1: "kListJob k ns [(spotInstanceJobLabel, nm), (jobReplicaLabel, showInt i)] (world s)
      = (Inr (filter (\<lambda>j. mLabels (jMeta j) jobReplicaLabel = Some (showInt i)) (snJobs sn)), w1)" "holds w1 sn" by blast
  with assms(4) nm have has: "indexHasJob k sij i s = Some (False, s\<lparr>world := w1\<rparr>)"
    by (simp add: indexHasJob_def kread_def replicaSelector_def vacant_def no_valid_job)
  from list_replica_instances [OF 1(2)] obtain w2 where
    2: "kListPI k ns [(spotInstanceJobLabel, nm), (jobReplicaLabel, showInt i)] w1
      = (Inr (filter (\<lambda>p. mLabels (piMeta p) jobReplicaLabel = Some (showInt i)) (snInstances sn)), w2)" "holds w2 sn" by blast
  with assms(3) nm have ready: "machineReady k sij i (s\<lparr>world := w1\<rparr>) = Some (True, s\<lparr>world := w2\<rparr>)"
    by (auto simp: machineReady_def kread_def replicaSelector_def machineJoined_def)
  from clock [OF 2(2)] obtain now w3 where 3: "kNow k w2 = (now, w3)" "holds w3 sn" by blast
  from created [of "s\<lparr>world := w3\<rparr>" sn sij "replicaJobName sij i now" i] 3(2) assms(2) obtain j sij' w4 where
    "createJobReplica k sij (replicaJobName sij i now) i (s\<lparr>world := w3\<rparr>)
      = Some ((None, sij'), s\<lparr>world := w4, trace := trace s @ [ACreateJob j None]\<rparr>)"
    "holds w4 (sn\<lparr>snJobs := snJobs sn @ [j]\<rparr>)" "sameJob sij sij'" "newJob i j" by auto
  with has ready 3(1) sameJob_trans [OF assms(2)] show ?thesis
    by (intro exI [of _ j] exI [of _ sij'] exI [of _ w4]) (simp add: tryReplica_def kread_def)
qed

text \<open>The loop, over indices whose machines have joined.\<close>

lemma loop_fills:
  assumes n: "in32 needed" "in32 limit"
  shows "in32 i \<Longrightarrow> 0 \<le> made \<Longrightarrow> made \<le> needed \<Longrightarrow> nat (needed - made) \<le> card (free_in used i limit) \<Longrightarrow>
    holds (world s) sn \<Longrightarrow> sameJob (snJob sn) sij \<Longrightarrow>
    \<forall>x\<in>set (take (nat (needed - made)) (sorted_list_of_set (free_in used i limit))). machineJoined sn x \<and> vacant sn x \<Longrightarrow>
    \<exists>js sij' s'. jobLoop k limit needed sij used i made skipped s = Some (sij', s')
      \<and> trace s' = trace s @ map (\<lambda>j. ACreateJob j None) js \<and> sameJob (snJob sn) sij'
      \<and> holds (world s') (sn\<lparr>snJobs := snJobs sn @ js\<rparr>)
      \<and> list_all2 newJob (take (nat (needed - made)) (sorted_list_of_set (free_in used i limit))) js"
proof (induction "nat (needed - made)" arbitrary: used i made skipped s sn sij)
  case 0
  then show ?case
    by (intro exI [of _ "[]"] exI [of _ sij] exI [of _ s]) (simp add: jobLoop_end)
next
  case (Suc n)
  from Suc(2) have lt: "made < needed" by simp
  from Suc(2,6) have "free_in used i limit \<noteq> {}" by auto
  from nextFree_finds [OF Suc.prems(1) assms(2) this] obtain x
    where x: "nextFree used limit i = Some x" "x \<in> free_in used i limit"
      and free: "free_in used i limit = insert x (free_in used (x + 1) limit)" by blast
  from nextFree_result [OF x(1)] Suc.prems(1) have x32: "in32 x" by simp
  from x(2) assms(2) have xl: "x < limit" "wrap32 (x + 1) = x + 1" "i < limit"
    using wrap32_succ [OF x32] by (auto simp: free_in_def in32_def)
  have m1: "wrap32 (made + 1) = made + 1"
    using lt n(1) Suc.prems(2) by (intro wrap32_id) (auto simp: in32_def)
  have cons: "free_in (x # used) (x + 1) limit = free_in used (x + 1) limit"
    by (rule free_in_cons_below) simp
  have notin: "x \<notin> free_in used (x + 1) limit" by (simp add: free_in_def)
  have n': "n = nat (needed - (made + 1))" using Suc(2) by simp
  have room: "nat (needed - (made + 1)) \<le> card (free_in (x # used) (x + 1) limit)"
    using Suc.prems(4) Suc(2) n' notin unfolding cons free by simp
  have "sorted_list_of_set (insert x (free_in used (x + 1) limit))
      = x # sorted_list_of_set (free_in used (x + 1) limit)"
    by (rule first_of_sorted, simp) (simp add: free_in_def)
  then have todo: "take (nat (needed - made)) (sorted_list_of_set (free_in used i limit))
      = x # take n (sorted_list_of_set (free_in used (x + 1) limit))"
    unfolding Suc(2) [symmetric] free by (simp only: take_Suc_Cons)
  with Suc.prems(7) have ready: "machineJoined sn x" "vacant sn x" by simp_all
  from tried [OF Suc.prems(5,6) this] obtain j sij1 w1 where
    1: "tryReplica k sij x s = Some ((Created, sij1), s\<lparr>world := w1, trace := trace s @ [ACreateJob j None]\<rparr>)"
      "holds w1 (sn\<lparr>snJobs := snJobs sn @ [j]\<rparr>)" "sameJob (snJob sn) sij1" "newJob x j" by blast
  let ?s1 = "s\<lparr>world := w1, trace := trace s @ [ACreateJob j None]\<rparr>"
  let ?sn1 = "sn\<lparr>snJobs := snJobs sn @ [j]\<rparr>"
  have step: "jobLoop k limit needed sij used i made skipped s
      = jobLoop k limit needed sij1 (x # used) (x + 1) (made + 1) 0 ?s1"
    by (subst jobLoop_at [OF lt xl(3) x(1)]) (use xl 1(1) m1 in simp)
  have later: "\<forall>y\<in>set (take n (sorted_list_of_set (free_in used (x + 1) limit))). machineJoined ?sn1 y \<and> vacant ?sn1 y"
    using Suc.prems(7) 1(4) unfolding todo by (auto simp: machineJoined_def vacant_def newJob_def)
  have "in32 (x + 1)" using xl assms(2) x32 by (auto simp: in32_def)
  from Suc(1) [OF n' this _ _ room, of ?s1 ?sn1 sij1 0] lt Suc.prems(2) 1(2,3) later obtain js sij2 s2 where
    2: "jobLoop k limit needed sij1 (x # used) (x + 1) (made + 1) 0 ?s1 = Some (sij2, s2)"
      "trace s2 = trace ?s1 @ map (\<lambda>j. ACreateJob j None) js" "sameJob (snJob sn) sij2"
      "holds (world s2) (?sn1\<lparr>snJobs := snJobs ?sn1 @ js\<rparr>)"
      "list_all2 newJob (take n (sorted_list_of_set (free_in used (x + 1) limit))) js"
    unfolding cons n' [symmetric] by auto
  with step 1(4) todo show ?case
    by (intro exI [of _ "j # js"] exI [of _ sij2] exI [of _ s2]) simp
qed

text \<open>A pass over the jobs: with none being deleted, the scan counts the indices that are held.\<close>

lemma pass_fills:
  assumes "holds (world s) sn" "\<not> list_ex inProgress (snCheckpoints sn)"
    and jobs: "\<forall>j\<in>set (snJobs sn). mDeletionTimestamp (jMeta j) = None" "length (snJobs sn) \<le> 2147483647"
    and d: "0 \<le> desiredReplicas (snJob sn)" "desiredReplicas (snJob sn) \<le> 1073741823"
    and ready: "\<forall>i\<in>set (missing sn). machineJoined sn i"
  shows "\<exists>sij' s' js. reconcileJobReplicas k (snJob sn) s = Some ((None, sij'), s') \<and> sameJob (snJob sn) sij'
    \<and> trace s' = trace s @ map (\<lambda>j. ACreateJob j None) js
    \<and> holds (world s') (sn\<lparr>snJobs := snJobs sn @ js\<rparr>) \<and> list_all2 newJob (missing sn) js"
proof -
  let ?d = "desiredReplicas (snJob sn)" and ?held = "heldIndices (snJobs sn)"
  from list_jobs [OF assms(1)] obtain w1 where
    1: "kListJob k ns [(spotInstanceJobLabel, nm)] (world s) = (Inr (snJobs sn), w1)" "holds w1 sn" by blast
  from pending [of "s\<lparr>world := w1\<rparr>" sn] 1(2) assms(2) obtain w2 where
    2: "hasPendingCheckpoints k (snJob sn) (s\<lparr>world := w1\<rparr>) = Some (Inr False, s\<lparr>world := w2\<rparr>)" "holds w2 sn" by auto
  obtain used where used: "\<And>s. scanJobs k (snJobs sn) [] s = Some (used, s)" "set used = ?held" "distinct used"
    using scan_held [OF jobs(1), of k "[]"] by auto
  have count: "int (length used) = int (card ?held)" using used(2,3) by (metis distinct_card)
  have "card ?held \<le> length (snJobs sn)" by (rule card_heldIndices)
  with jobs(2) have w: "wrap32 (int (length used)) = int (card ?held)"
    unfolding count by (intro wrap32_id) (simp add: in32_def)
  have d32: "in32 ?d" "in32 (?d * 2)" and lim: "wrap32 (?d * 2) = ?d * 2"
    using d by (auto simp: in32_def intro: wrap32_id)
  have free: "free_in used 0 (?d * 2) = {0..<2 * ?d} - ?held" by (auto simp: free_in_def used(2))
  show ?thesis
  proof (cases "int (card ?held) < ?d")
    case False
    with 1 2 used(1) w names [OF assms(1)] show ?thesis
      by (intro exI [of _ "snJob sn"] exI [of _ "s\<lparr>world := w2\<rparr>"] exI [of _ "[]"])
        (simp add: reconcileJobReplicas_def kread_def Let_def missing_def)
  next
    case True
    have need: "wrap32 (?d - int (card ?held)) = ?d - int (card ?held)"
      using d True by (intro wrap32_id) (simp add: in32_def)
    have "nat (?d * 2) \<le> card (free_in used 0 (?d * 2)) + card (set used)"
      using d(1) by (intro card_free_in_ge) simp
    with True have fits: "nat (?d - int (card ?held) - 0) \<le> card (free_in used 0 (?d * 2))"
      unfolding used(2) by linarith
    have vac: "vacant sn i" if "i \<in> set (missing sn)" for i
    proof -
      from that have i: "0 \<le> i" "i \<notin> ?held" "in32 i" using d
        by (auto simp: missing_def in32_def dest!: in_set_takeD)
      have "i \<in> ?held" if "j \<in> set (snJobs sn)" "mLabels (jMeta j) jobReplicaLabel = Some (showInt i)" "liveJob j" for j
        using that jobs(1) i(1) replicaIndexOf_label [OF i(3), of "mLabels (jMeta j)" "- 1", OF that(2)]
        by (auto simp: heldIndices_def intro!: image_eqI [of _ _ j])
      with i(2) jobs(1) show ?thesis by (auto simp: vacant_def)
    qed
    have "missing sn = take (nat (?d - int (card ?held) - 0)) (sorted_list_of_set (free_in used 0 (?d * 2)))"
      by (simp add: missing_def free)
    with loop_fills [of "?d - int (card ?held)" "?d * 2" 0 0 used "s\<lparr>world := w2\<rparr>" sn "snJob sn" 0]
      d32(2) d True fits 2(2) ready vac obtain js sij' s' where
      3: "jobLoop k (?d * 2) (?d - int (card ?held)) (snJob sn) used 0 0 0 (s\<lparr>world := w2\<rparr>) = Some (sij', s')"
        "trace s' = trace s @ map (\<lambda>j. ACreateJob j None) js" "sameJob (snJob sn) sij'"
        "holds (world s') (sn\<lparr>snJobs := snJobs sn @ js\<rparr>)" "list_all2 newJob (missing sn) js"
      by (auto simp: in32_def)
    with 1 2 used(1) w need lim True names [OF assms(1)] show ?thesis
      by (intro exI [of _ sij'] exI [of _ s'] exI [of _ js])
        (simp add: reconcileJobReplicas_def kread_def Let_def)
  qed
qed

end

section \<open>Once the new jobs run\<close>

definition started :: "job \<Rightarrow> job \<Rightarrow> bool" where
  "started j j' \<longleftrightarrow> jMeta j' = jMeta j \<and> 0 < jActive j'"

lemma missing_subset: "set (missing sn) \<subseteq> {0..<2 * desiredReplicas (snJob sn)} - heldIndices (snJobs sn)"
  unfolding missing_def by (auto dest: in_set_takeD)

lemma missing_enough:
  assumes "0 \<le> desiredReplicas (snJob sn)"
  shows "desiredReplicas (snJob sn) \<le> int (card (heldIndices (snJobs sn) \<union> set (missing sn)))"
proof -
  let ?d = "desiredReplicas (snJob sn)" and ?held = "heldIndices (snJobs sn)"
  let ?free = "{0..<2 * ?d} - ?held"
  have fin: "finite ?held" by (simp add: heldIndices_def)
  have "card {0..<2 * ?d} \<le> card ?free + card ?held"
    using card_Un_le [of ?free ?held] card_mono [of "?free \<union> ?held" "{0..<2 * ?d}"] fin by auto
  then have "nat (?d - int (card ?held)) \<le> card ?free" using assms by simp
  then have "length (missing sn) = nat (?d - int (card ?held))" by (simp add: missing_def)
  moreover have "distinct (missing sn)" by (simp add: missing_def)
  ultimately have "card (set (missing sn)) = nat (?d - int (card ?held))" by (simp add: distinct_card)
  moreover have "card (?held \<union> set (missing sn)) = card ?held + card (set (missing sn))"
    using fin missing_subset [of sn] by (intro card_Un_disjoint) auto
  ultimately show ?thesis by simp
qed

lemma started_held:
  assumes "list_all2 newJob is js" "list_all2 started js js'" "\<forall>i\<in>set is. 0 \<le> i \<and> in32 i"
  shows "set is \<subseteq> heldIndices js'"
  using assms
proof (induction "is" js arbitrary: js' rule: list_all2_induct)
  case (Cons i "is" j js)
  from Cons.prems(1) obtain j' js1 where js': "js' = j' # js1" "started j j'" "list_all2 started js js1"
    by (auto simp: list_all2_Cons1)
  with Cons.hyps(1) have "mDeletionTimestamp (jMeta j') = None" "liveJob j'"
    "mLabels (jMeta j') jobReplicaLabel = Some (showInt i)"
    by (simp_all add: started_def newJob_def liveJob_def)
  moreover from this(3) Cons.prems(2) have "replicaIndexOf (- 1) (mLabels (jMeta j')) = i"
    by (intro replicaIndexOf_label) simp_all
  ultimately have "i \<in> heldIndices js'" using Cons.prems(2)
    unfolding js'(1) heldIndices_def by (intro image_eqI [of _ _ j']) auto
  moreover have "heldIndices js1 \<subseteq> heldIndices js'" unfolding js'(1) heldIndices_def by auto
  moreover from Cons.IH [OF js'(3)] Cons.prems(2) have "set is \<subseteq> heldIndices js1" by simp
  ultimately show ?case by auto
qed simp

lemma heldIndices_append: "heldIndices (xs @ ys) = heldIndices xs \<union> heldIndices ys"
  by (auto simp: heldIndices_def)

lemma filled_settled:
  assumes quiet: "\<not> beingDeleted (sjMeta (snJob sn))" "kHasFinalizer k (sjMeta (snJob sn)) spotInstanceJobFinalizer"
      "\<not> list_ex inProgress (snCheckpoints sn)" "\<not> list_ex preempted (snInstances sn)"
      "desiredReplicas (snJob sn) \<le> countActive (snInstances sn)"
    and d: "0 \<le> desiredReplicas (snJob sn)" "desiredReplicas (snJob sn) \<le> 1073741823"
    and room: "length (snJobs sn) \<le> 1073741823"
    and js: "list_all2 newJob (missing sn) js" "list_all2 started js js'"
  shows "settled k (sn\<lparr>snJobs := snJobs sn @ js'\<rparr>)"
proof -
  have "\<forall>i\<in>set (missing sn). 0 \<le> i \<and> in32 i" using missing_subset [of sn] d by (auto simp: in32_def)
  from started_held [OF js this] have "heldIndices (snJobs sn) \<union> set (missing sn) \<subseteq> heldIndices (snJobs sn @ js')"
    by (auto simp: heldIndices_append)
  then have "card (heldIndices (snJobs sn) \<union> set (missing sn)) \<le> card (heldIndices (snJobs sn @ js'))"
    by (rule card_mono [rotated]) (simp add: heldIndices_def)
  moreover have "length js' \<le> nat (desiredReplicas (snJob sn))"
    using list_all2_lengthD [OF js(1)] list_all2_lengthD [OF js(2)] by (simp add: missing_def)
  ultimately show ?thesis using quiet missing_enough [OF d(1)] room d by (simp add: settled_def)
qed

section \<open>The reference server\<close>

definition openJobKube :: "cluster kube" where
  "openJobKube = refKube\<lparr>kCreateJob := (\<lambda>j c. (None, c\<lparr>clJobs := clJobs c @ [j]\<rparr>))\<rparr>"

interpretation jobs: job_server openJobKube "''ns''" "''train''" restsAt
proof -
  have steady: "steady_server openJobKube ''ns'' ''train'' restsAt"
    by unfold_locales
      (auto simp: openJobKube_def restsAt_def sijKey_def fault_def refGet_def refList_def refUpdate_def named_def
        setSIJs_def Let_def exTemplate_def exMeta_def)
  show "job_server openJobKube ''ns'' ''train'' restsAt"
    unfolding job_server_def job_server_axioms_def
    by (intro conjI steady allI impI)
      (auto simp: openJobKube_def restsAt_def fault_def refList_def selected_def)
qed

section \<open>Property\<close>

text \<open>
  C14. With a server that stores jobs and takes every create call, a pass over the
  jobs of a SpotInstanceJob that has no checkpoint in progress and no job being deleted starts
  exactly what is missing: as many jobs as replica indices lack one, on the least free indices
  in increasing order. It takes that the machines of these indices have joined, that between
  none and 2^30 - 1 replicas are wanted and that at most 2^30 - 1 jobs are stored. Nothing else
  changes. When moreover the SpotInstanceJob carries its finalizer and is not being deleted, no
  instance is preempted and enough of them are active, it is settled as soon as the new jobs
  run, whatever else is in their status.
\<close>

theorem jobs_converge:
  assumes server: "job_server k ns nm holds"
    and sn: "holds (world s) sn" "\<not> list_ex inProgress (snCheckpoints sn)"
    and jobs: "\<forall>j\<in>set (snJobs sn). mDeletionTimestamp (jMeta j) = None" "length (snJobs sn) \<le> 1073741823"
    and d: "0 \<le> desiredReplicas (snJob sn)" "desiredReplicas (snJob sn) \<le> 1073741823"
    and ready: "\<forall>i\<in>set (missing sn). machineJoined sn i"
  shows "\<exists>sij' s' js. reconcileJobReplicas k (snJob sn) s = Some ((None, sij'), s') \<and> sameJob (snJob sn) sij'
    \<and> trace s' = trace s @ map (\<lambda>j. ACreateJob j None) js
    \<and> holds (world s') (sn\<lparr>snJobs := snJobs sn @ js\<rparr>) \<and> list_all2 newJob (missing sn) js
    \<and> (\<not> beingDeleted (sjMeta (snJob sn)) \<and> kHasFinalizer k (sjMeta (snJob sn)) spotInstanceJobFinalizer
        \<and> \<not> list_ex preempted (snInstances sn) \<and> desiredReplicas (snJob sn) \<le> countActive (snInstances sn)
       \<longrightarrow> (\<forall>js'. list_all2 started js js' \<longrightarrow> settled k (sn\<lparr>snJobs := snJobs sn @ js'\<rparr>)))"
proof -
  have "length (snJobs sn) \<le> 2147483647" using jobs(2) by simp
  from job_server.pass_fills [OF server sn jobs(1) this d ready] obtain sij' s' js where
    run: "reconcileJobReplicas k (snJob sn) s = Some ((None, sij'), s')" "sameJob (snJob sn) sij'"
      "trace s' = trace s @ map (\<lambda>j. ACreateJob j None) js"
      "holds (world s') (sn\<lparr>snJobs := snJobs sn @ js\<rparr>)" "list_all2 newJob (missing sn) js" by blast
  from filled_settled [OF _ _ sn(2) _ _ d jobs(2) run(5)] run show ?thesis by blast
qed

definition startingCluster :: cluster where
  "startingCluster = settledCluster\<lparr>clJobs := []\<rparr>"

definition startingView :: snapshot where
  "startingView = settledView\<lparr>snJobs := []\<rparr>"

lemma starting_desired: "desiredReplicas settledJob = 1" "countActive [exReadyPI] = 1"
  by (simp_all add: desiredReplicas_def settledJob_def oneReplica_def countActive_def activePI_def exReadyPI_def
      in32_def cluster_eval example_defs)

lemma starting_missing: "missing startingView = [0]"
proof -
  have "heldIndices [] = {}" by (simp add: heldIndices_def)
  moreover have "{0..<2 :: int} = {0, 1}" by auto
  ultimately show ?thesis
    by (simp add: missing_def startingView_def settledView_def starting_desired)
qed

lemma starting_joined: "\<forall>i\<in>set (missing startingView). machineJoined startingView i"
  unfolding starting_missing
  by (simp add: machineJoined_def startingView_def settledView_def exReadyPI_def preempted_def cluster_eval example_defs)

lemma starting_shown: "restsAt (world \<lparr>world = startingCluster, trace = []\<rparr>) startingView"
  by (simp add: restsAt_def startingView_def settledView_def startingCluster_def settledCluster_def settledJob_def
      oneReplica_def restoreCluster_def exReadyPI_def checkpoint_examples sijKey_def cluster_eval example_defs)

lemmas starting = starting_desired starting_missing starting_joined starting_shown

theorem jobs_converge_witness:
  "\<exists>sij' s' j. reconcileJobReplicas openJobKube settledJob \<lparr>world = startingCluster, trace = []\<rparr> = Some ((None, sij'), s')
     \<and> trace s' = [ACreateJob j None] \<and> newJob 0 j
     \<and> settled openJobKube (settledView\<lparr>snJobs := [j\<lparr>jActive := 1\<rparr>]\<rparr>)"
proof -
  have quiet: "\<not> beingDeleted (sjMeta settledJob)" "spotInstanceJobFinalizer \<in> set (mFinalizers (sjMeta settledJob))"
    "\<not> preempted exReadyPI"
    by (simp_all add: settledJob_def preempted_def exReadyPI_def cluster_eval example_defs)
  from jobs_converge [OF jobs.job_server_axioms starting_shown _ _ _ _ _ starting_joined] obtain sij' s' js where
    run: "reconcileJobReplicas openJobKube settledJob \<lparr>world = startingCluster, trace = []\<rparr> = Some ((None, sij'), s')"
      "trace s' = map (\<lambda>j. ACreateJob j None) js" "list_all2 newJob [0] js"
    and after: "\<forall>js'. list_all2 started js js' \<longrightarrow> settled openJobKube (startingView\<lparr>snJobs := js'\<rparr>)"
    unfolding starting_missing using starting_desired quiet
    by (auto simp: startingView_def settledView_def openJobKube_def)
  then obtain j where j: "js = [j]" "newJob 0 j" by (auto simp: list_all2_Cons1)
  with after have "settled openJobKube (startingView\<lparr>snJobs := [j\<lparr>jActive := 1\<rparr>]\<rparr>)" by (simp add: started_def)
  with run j show ?thesis by (simp add: startingView_def)
qed

text \<open>New jobs hold no index.\<close>

lemma new_not_held: "list_all2 newJob is js \<Longrightarrow> heldIndices js = {} \<and> (\<forall>j\<in>set js. mDeletionTimestamp (jMeta j) = None)"
  by (induction "is" js rule: list_all2_induct) (auto simp: heldIndices_def newJob_def)

text \<open>
  C37. A job that was just created and whose pods have not started does not
  hold its replica index: with a server that stores jobs and takes every create call (no
  checkpoint in progress, no job being deleted, the machines of the free indices joined, the
  bounds of the previous property), the jobs one pass starts are started once more by every
  later pass that finds the stored objects as that pass left them: each of the indices is
  given a second job.
\<close>

theorem fresh_job_duplicated:
  assumes server: "job_server k ns nm holds"
    and sn: "holds (world s) sn" "\<not> list_ex inProgress (snCheckpoints sn)"
    and jobs: "\<forall>j\<in>set (snJobs sn). mDeletionTimestamp (jMeta j) = None" "length (snJobs sn) \<le> 1073741823"
    and d: "0 \<le> desiredReplicas (snJob sn)" "desiredReplicas (snJob sn) \<le> 1073741823"
    and ready: "\<forall>i\<in>set (missing sn). machineJoined sn i"
  shows "\<exists>sij' s' js. reconcileJobReplicas k (snJob sn) s = Some ((None, sij'), s')
    \<and> trace s' = trace s @ map (\<lambda>j. ACreateJob j None) js \<and> list_all2 newJob (missing sn) js
    \<and> holds (world s') (sn\<lparr>snJobs := snJobs sn @ js\<rparr>)
    \<and> (\<forall>t. holds (world t) (sn\<lparr>snJobs := snJobs sn @ js\<rparr>) \<longrightarrow>
        (\<exists>sij'' t' js'. reconcileJobReplicas k (snJob sn) t = Some ((None, sij''), t')
          \<and> trace t' = trace t @ map (\<lambda>j. ACreateJob j None) js' \<and> list_all2 newJob (missing sn) js'
          \<and> holds (world t') (sn\<lparr>snJobs := snJobs sn @ js @ js'\<rparr>)))"
proof -
  have "length (snJobs sn) \<le> 2147483647" using jobs(2) by simp
  from job_server.pass_fills [OF server sn jobs(1) this d ready] obtain sij' s' js where
    run: "reconcileJobReplicas k (snJob sn) s = Some ((None, sij'), s')"
      "trace s' = trace s @ map (\<lambda>j. ACreateJob j None) js"
      "holds (world s') (sn\<lparr>snJobs := snJobs sn @ js\<rparr>)" and js: "list_all2 newJob (missing sn) js" by blast
  let ?sn = "sn\<lparr>snJobs := snJobs sn @ js\<rparr>"
  have same: "missing ?sn = missing sn" using new_not_held [OF js] by (simp add: missing_def heldIndices_append)
  moreover have "machineJoined ?sn i = machineJoined sn i" for i by (simp add: machineJoined_def)
  ultimately have ready': "\<forall>i\<in>set (missing ?sn). machineJoined ?sn i" using ready by simp
  have "length js \<le> nat (desiredReplicas (snJob sn))"
    using list_all2_lengthD [OF js] by (simp add: missing_def)
  with jobs(2) d have room: "length (snJobs ?sn) \<le> 2147483647" by simp
  have kept: "\<forall>j\<in>set (snJobs ?sn). mDeletionTimestamp (jMeta j) = None" using jobs(1) new_not_held [OF js] by auto
  have "\<exists>sij'' t' js'. reconcileJobReplicas k (snJob sn) t = Some ((None, sij''), t')
      \<and> trace t' = trace t @ map (\<lambda>j. ACreateJob j None) js' \<and> list_all2 newJob (missing sn) js'
      \<and> holds (world t') (sn\<lparr>snJobs := snJobs sn @ js @ js'\<rparr>)" if t: "holds (world t) ?sn" for t
    using job_server.pass_fills [OF server t _ kept room _ _ ready'] sn(2) d by (auto simp: same)
  with run js show ?thesis by blast
qed

theorem fresh_job_duplicated_witness:
  "\<exists>sij1 s1 j1 sij2 s2 j2. reconcileJobReplicas openJobKube settledJob \<lparr>world = startingCluster, trace = []\<rparr>
       = Some ((None, sij1), s1)
     \<and> reconcileJobReplicas openJobKube settledJob s1 = Some ((None, sij2), s2)
     \<and> trace s2 = [ACreateJob j1 None, ACreateJob j2 None] \<and> newJob 0 j1 \<and> newJob 0 j2"
proof -
  from fresh_job_duplicated [OF jobs.job_server_axioms starting_shown _ _ _ _ _ starting_joined] obtain sij1 s1 js1 where
    run: "reconcileJobReplicas openJobKube settledJob \<lparr>world = startingCluster, trace = []\<rparr> = Some ((None, sij1), s1)"
      "trace s1 = map (\<lambda>j. ACreateJob j None) js1" "list_all2 newJob [0] js1"
      "restsAt (world s1) (startingView\<lparr>snJobs := js1\<rparr>)"
    and later: "\<And>t. restsAt (world t) (startingView\<lparr>snJobs := js1\<rparr>) \<Longrightarrow>
        \<exists>sij2 s2 js2. reconcileJobReplicas openJobKube settledJob t = Some ((None, sij2), s2)
          \<and> trace s2 = trace t @ map (\<lambda>j. ACreateJob j None) js2 \<and> list_all2 newJob [0] js2"
    unfolding starting_missing using starting_desired
    by (fastforce simp: startingView_def settledView_def openJobKube_def)
  from later [OF run(4)] obtain sij2 s2 js2 where
    2: "reconcileJobReplicas openJobKube settledJob s1 = Some ((None, sij2), s2)"
      "trace s2 = trace s1 @ map (\<lambda>j. ACreateJob j None) js2" "list_all2 newJob [0] js2" by blast
  from run(3) 2(3) obtain j1 j2 where "js1 = [j1]" "js2 = [j2]" "newJob 0 j1" "newJob 0 j2"
    by (auto simp: list_all2_Cons1)
  with run(1,2) 2(1,2) show ?thesis by simp
qed

end
