(* ===== verification/Lifecycle.thy ===== *)
theory Lifecycle
  imports PIController
begin

text \<open>
  The abstract life cycle of a ProvisionedInstance: five phases in a linear order. The status
  the reconciler keeps is richer (states of the machine, addresses, times); seen through its
  phase it only ever moves forward, whatever the compute service reports.
\<close>

section \<open>Phases\<close>

datatype phase = Fresh | Pending | Provisioned | Joined | Lost

fun phaseRank :: "phase \<Rightarrow> nat" where
  "phaseRank Fresh = 0"
| "phaseRank Pending = 1"
| "phaseRank Provisioned = 2"
| "phaseRank Joined = 3"
| "phaseRank Lost = 4"

lemma phaseRank_inject [simp]: "phaseRank a = phaseRank b \<longleftrightarrow> a = b"
  by (cases a; cases b) simp_all

instantiation phase :: linorder
begin

definition less_eq_phase :: "phase \<Rightarrow> phase \<Rightarrow> bool" where
  "a \<le> b \<longleftrightarrow> phaseRank a \<le> phaseRank b"

definition less_phase :: "phase \<Rightarrow> phase \<Rightarrow> bool" where
  "a < b \<longleftrightarrow> phaseRank a < phaseRank b"

instance
  by standard (auto simp: less_eq_phase_def less_phase_def)

end

text \<open>
  A status with a preemption notice is lost for good, whatever else it says; one that names a
  machine is provisioned, and joined once its node was seen.
\<close>

definition phaseOf :: "pi_status \<Rightarrow> phase" where
  "phaseOf st =
     (if piPreemptionNotice st then Lost
      else if piJoinedCluster st then Joined
      else if piInstanceID st \<noteq> [] then Provisioned
      else if piState st \<noteq> [] then Pending
      else Fresh)"

lemma status_step_phase: "status_step st st' \<Longrightarrow> phaseOf st \<le> phaseOf st'"
  by (induction rule: status_step.induct)
    (auto simp: phaseOf_def less_eq_phase_def recordProvisioned_def detectPreemption_def)

text \<open>The rules of the life cycle that do the moving.\<close>

lemma phase_gone: "phaseOf (st\<lparr>piState := ''TERMINATED'', piPreemptionNotice := True\<rparr>) = Lost"
  by (simp add: phaseOf_def)

lemma phase_recorded: "Provisioned \<le> phaseOf (recordProvisioned i now st)"
  by (simp add: phaseOf_def recordProvisioned_def less_eq_phase_def)

lemma phase_followed: "Provisioned \<le> phaseOf (detectPreemption i (copyInstance i st))"
  by (simp add: phaseOf_def less_eq_phase_def)

lemma phase_stopping:
  "giStatus i = ''STOPPING'' \<or> giStatus i = ''TERMINATED'' \<Longrightarrow> phaseOf (detectPreemption i st) = Lost"
  by (simp add: phaseOf_def detectPreemption_def)

section \<open>Status writes of a whole pass\<close>

text \<open>An object as the API server answered it, to a read or to a write.\<close>

definition answered :: "'w kube \<Rightarrow> prov_instance \<Rightarrow> bool" where
  "answered k p \<longleftrightarrow> (\<exists>ns nm w w'. kGetPI k ns nm w = (Inr p, w'))
     \<or> (\<exists>x w w'. kUpdatePI k x w = (Inr p, w')) \<or> (\<exists>x w w'. kUpdatePIStatus k x w = (Inr p, w'))"

text \<open>A status write that moves an answered object one step along its life cycle.\<close>

definition advances :: "'w kube \<Rightarrow> action \<Rightarrow> bool" where
  "advances k a \<longleftrightarrow> (case a of
     AUpdatePIStatus x _ \<Rightarrow> \<exists>p. answered k p \<and> piMeta x = piMeta p \<and> piSpec x = piSpec p
        \<and> status_step (piStatus p) (piStatus x)
   | _ \<Rightarrow> True)"

lemma advances_other: "\<not> isUpdatePIStatus a \<Longrightarrow> advances k a"
  by (cases a) (simp_all add: advances_def)

lemma advances_drives:
  assumes "answered k p" "drives p r es"
  shows "list_all (advances k) es"
proof -
  have "advances k a" if "a \<in> set es" for a
  proof (cases a)
    case (AUpdatePIStatus x e)
    with drives_status_step [OF assms(2)] drives_same_object [OF assms(2)] assms(1) that show ?thesis
      by (auto simp: advances_def)
  qed (simp_all add: advances_def)
  then show ?thesis by (simp add: list_all_iff)
qed

lemma yields_ensureFinalizer_answer:
  "answered k p \<Longrightarrow> yields (ensureFinalizerPI k p)
     (\<lambda>r es. list_all (advances k) es \<and> (\<forall>q. r = Inr q \<longrightarrow> answered k q))"
  unfolding ensureFinalizerPI_def [abs_def]
  by (intro yields_if yields_ret yields_mono [OF yields_kcall_val])
    (auto simp: advances_def answered_def)

lemma yields_initStatus_answer:
  assumes "answered k p"
  shows "yields (initStatusPI k p) (\<lambda>r es. list_all (advances k) es \<and> (\<forall>q. r = Inr q \<longrightarrow> answered k q))"
proof -
  have "advances k (AUpdatePIStatus (p\<lparr>piStatus := (piStatus p)\<lparr>piState := ''PENDING''\<rparr>\<rparr>) e)"
    if "piState (piStatus p) = []" for e
    using assms status_step.begin_pending [OF that] by (auto simp: advances_def intro!: exI [of _ p])
  then show ?thesis unfolding initStatusPI_def [abs_def] using assms
    by (intro yields_if yields_ret yields_mono [OF yields_kcall_val]) (auto simp: answered_def)
qed

lemma yields_reconcileLivePI_answer:
  assumes "answered k p"
  shows "yields (reconcileLivePI k g p) (\<lambda>_ es. list_all (advances k) es)"
  unfolding reconcileLivePI_def [abs_def]
  by (intro yields_bind [OF yields_ensureFinalizer_answer [OF assms]] yields_bind [OF yields_initStatus_answer]
      yields_sum yields_ret yields_mono [OF yields_driveInstance])
    (auto dest: advances_drives)

lemma emits_handleDeletion_advances: "emits (advances k) (handleDeletionPI k g p)"
proof -
  have "advances k a" if "isDeleteNode a" for a
    using that by (cases a) (simp_all add: advances_def)
  then have "list_all (advances k) es" if "list_all isDeleteNode es" for es
    using that by (auto simp: list_all_iff)
  moreover have "list_all (advances k) es" if "deletesRecorded p es" for es
    using that by (auto simp: deletesRecorded_def advances_def split: if_splits)
  ultimately show ?thesis unfolding emits_def
    by (intro yields_mono [OF yields_handleDeletionPI]) (auto simp: cleansUp_def advances_def)
qed

lemma emits_ReconcilePI_advances: "emits (advances k) (ReconcilePI k g ns nm)"
  unfolding ReconcilePI_def [abs_def] emits_def
  by (intro yields_bind [OF yields_kread_val] yields_sum yields_ret yields_if
      yields_mono [OF emits_handleDeletion_advances [unfolded emits_def]]
      yields_mono [OF yields_reconcileLivePI_answer])
    (auto simp: answered_def)

section \<open>Property\<close>

text \<open>
  C10. Every status write of a reconciliation of a ProvisionedInstance takes
  an object the API server answered (to the read or to an earlier write) and moves it one
  step along its life cycle; seen through its phase the status never moves back: a lost
  machine stays lost, a joined one is never unjoined, a provisioned one never forgotten.
\<close>

theorem phase_never_falls:
  assumes run: "ReconcilePI k g ns nm s = Some (r, s')"
    and w: "trace s' = trace s @ es" "AUpdatePIStatus x e \<in> set es"
  shows "\<exists>p. answered k p \<and> piMeta x = piMeta p \<and> piSpec x = piSpec p
    \<and> status_step (piStatus p) (piStatus x) \<and> phaseOf (piStatus p) \<le> phaseOf (piStatus x)"
proof -
  from yieldsE [OF emits_ReconcilePI_advances [unfolded emits_def] run] w
  have "advances k (AUpdatePIStatus x e)" by (auto simp: list_all_iff)
  then show ?thesis using status_step_phase unfolding advances_def by auto
qed

lemma pending_run_status:
  "\<exists>r s' x e. ReconcilePI refKube refGce ''ns'' ''vm'' \<lparr>world = pendingCluster, trace = []\<rparr> = Some (r, s')
     \<and> AUpdatePIStatus x e \<in> set (trace s') \<and> piState (piStatus x) = ''PENDING''"
  by (auto simp: ReconcilePI_def reconcileLivePI_def ensureFinalizerPI_def initStatusPI_def
      driveInstance_def fetchInstanceTemplate_def fetchGCPCredentials_def NewProvisioner_def
      provisionInstance_def ListInstancesByPrefix_def fetchKubeadmJoinInfo_def dataOf_def
      ProvisionSpotInstance_def wait_refGce pendingCluster_def cluster_eval example_defs
      split: prod.splits)

theorem phase_never_falls_witness:
  "\<exists>p x :: prov_instance. answered refKube p \<and> phaseOf (piStatus p) \<le> phaseOf (piStatus x)
     \<and> piState (piStatus x) = ''PENDING''"
proof -
  obtain r s' x e where run: "ReconcilePI refKube refGce ''ns'' ''vm''
      \<lparr>world = pendingCluster, trace = []\<rparr> = Some (r, s')" and x: "AUpdatePIStatus x e \<in> set (trace s')"
      "piState (piStatus x) = ''PENDING''"
    using pending_run_status by blast
  from phase_never_falls [OF run _ x(1)] x(2) show ?thesis by auto
qed

end
