(* ===== verification/Joining.thy ===== *)
theory Joining
  imports Lifecycle
begin

text \<open>
  What the reconciler of ProvisionedInstances achieves when nothing fails: an object that was
  just created gets its machine in one pass, waits while the node of the running machine is
  missing, and joins the cluster in the first pass after the node was registered. The services
  around it are an interface, stated over an abstract relation between the world, the stored
  object, the machine under its name and whether the machine's node is registered.
\<close>

section \<open>Services without faults\<close>

text \<open>
  For the object nm in ns: reads answer what is stored, writes store what they are given, the
  template and both secrets are there, and an accepted insert makes a machine of the requested
  name whose operation is done at the next poll. A machine is paired with whether it has
  registered its node: a new machine has not. A registered node is answered under the name of
  the machine; a node that is not registered is answered by an error.
\<close>

locale machine_services =
  fixes k :: "'w kube" and g :: "'w gce" and ns nm :: string
    and tmpl :: instance_template and creds :: string and joinInfo :: secret
    and serves :: "'w \<Rightarrow> prov_instance \<Rightarrow> (gce_instance \<times> bool) option \<Rightarrow> bool"
  assumes identity: "serves w p m \<Longrightarrow> mName (piMeta p) = nm \<and> mNamespace (piMeta p) = ns"
    and get_object: "serves w p m \<Longrightarrow> \<exists>w'. kGetPI k ns nm w = (Inr p, w') \<and> serves w' p m"
    and add_finalizer: "serves w p m \<Longrightarrow> \<exists>w' p'. kUpdatePI k (addedFinalizerPI k p) w = (Inr p', w')
      \<and> serves w' p' m \<and> piSpec p' = piSpec p \<and> piStatus p' = piStatus p
      \<and> beingDeleted (piMeta p') = beingDeleted (piMeta p)"
    and write_status: "serves w p m \<Longrightarrow> \<exists>w'. kUpdatePIStatus k (p\<lparr>piStatus := st\<rparr>) w = (Inr (p\<lparr>piStatus := st\<rparr>), w')
      \<and> serves w' (p\<lparr>piStatus := st\<rparr>) m"
    and template: "serves w p m \<Longrightarrow> piTemplateNamespace (piSpec p) = tns \<Longrightarrow>
      \<exists>w'. kGetTemplate k (if tns = [] then ns else tns) (piTemplateName (piSpec p)) w = (Inr tmpl, w') \<and> serves w' p m"
    and credentials: "serves w p m \<Longrightarrow> \<exists>sec w'.
      kGetSecret k (srNamespace (piCredentialsRef (piSpec p))) (srName (piCredentialsRef (piSpec p))) w = (Inr sec, w')
      \<and> secData sec ''credentials.json'' = Some creds \<and> serves w' p m"
    and join_secret: "serves w p m \<Longrightarrow>
      \<exists>w'. kGetSecret k ns ''kubeadm-join-token'' w = (Inr joinInfo, w') \<and> serves w' p m"
    and join_complete: "dataOf joinInfo ''token'' \<noteq> [] \<and> dataOf joinInfo ''ca-cert-hash'' \<noteq> []
      \<and> dataOf joinInfo ''control-plane-endpoint'' \<noteq> []"
    and login: "serves w p m \<Longrightarrow> \<exists>w'. gCredentials g creds w = (None, w') \<and> serves w' p m"
    and service: "serves w p m \<Longrightarrow> \<exists>w'. gService g creds w = (None, w') \<and> serves w' p m"
    and no_machine: "serves w p None \<Longrightarrow>
      \<exists>ms w'. gList g creds (gcProject (tsGCP (itSpec tmpl))) (gcZone (tsGCP (itSpec tmpl))) w = (Inr ms, w')
      \<and> matchingInstances nm ms = [] \<and> serves w' p None"
    and insert_machine: "serves w p None \<Longrightarrow> giName i = nm \<Longrightarrow>
      \<exists>op w' j. gInsert g creds (gcProject (tsGCP (itSpec tmpl))) (gcZone (tsGCP (itSpec tmpl))) i w = (Inr op, w')
      \<and> serves w' p (Some (j, False))"
    and poll: "serves w p m \<Longrightarrow> \<exists>w'. gSelect g (seconds 2) w = (None, w') \<and> serves w' p m"
    and operation_done: "serves w p m \<Longrightarrow>
      \<exists>res w'. gOpGet g creds (gcProject (tsGCP (itSpec tmpl))) (gcZone (tsGCP (itSpec tmpl))) op w = (Inr res, w')
      \<and> opStatus res = ''DONE'' \<and> opError res = None \<and> serves w' p m"
    and machine_name: "serves w p (Some (i, b)) \<Longrightarrow> giName i = nm"
    and get_machine: "serves w p (Some (i, b)) \<Longrightarrow>
      \<exists>w'. gGet g creds (gcProject (tsGCP (itSpec tmpl))) (gcZone (tsGCP (itSpec tmpl))) nm w = (Inr (Some i), w')
      \<and> serves w' p (Some (i, b))"
    and clock: "serves w p m \<Longrightarrow> \<exists>t w'. kNow k w = (t, w') \<and> serves w' p m"
    and node: "serves w p (Some (i, True)) \<Longrightarrow>
      \<exists>n w'. kGetNode k nm w = (Inr n, w') \<and> mName (nMeta n) = nm \<and> serves w' p (Some (i, True))"
    and no_node: "serves w p (Some (i, False)) \<Longrightarrow>
      \<exists>e w'. kGetNode k nm w = (Inl e, w') \<and> serves w' p (Some (i, False))"
begin

definition pr :: provisioner where
  "pr = \<lparr>prService = creds, prProject = gcProject (tsGCP (itSpec tmpl))\<rparr>"

text \<open>Everything that is needed before the machine is looked at.\<close>

lemma prepared:
  assumes "serves (world s) p m"
  shows "\<exists>w. serves w p m \<and> driveInstance k g p s =
    (if piInstanceID (piStatus p) = [] \<and> piState (piStatus p) = ''PENDING''
     then provisionInstance k g p tmpl pr (s\<lparr>world := w\<rparr>)
     else checkAndUpdateInstanceStatus k g p tmpl pr (s\<lparr>world := w\<rparr>))"
proof -
  from template [OF assms refl] obtain w1 where 1: "serves w1 p m"
    "kGetTemplate k (if piTemplateNamespace (piSpec p) = [] then ns else piTemplateNamespace (piSpec p))
       (piTemplateName (piSpec p)) (world s) = (Inr tmpl, w1)" by blast
  from credentials [OF 1(1)] obtain sec w2 where 2: "serves w2 p m"
    "kGetSecret k (srNamespace (piCredentialsRef (piSpec p))) (srName (piCredentialsRef (piSpec p))) w1 = (Inr sec, w2)"
    "secData sec ''credentials.json'' = Some creds" by blast
  from login [OF 2(1)] obtain w3 where 3: "serves w3 p m" "gCredentials g creds w2 = (None, w3)" by blast
  from service [OF 3(1)] obtain w4 where 4: "serves w4 p m" "gService g creds w3 = (None, w4)" by blast
  have "fetchInstanceTemplate k p s = Some (Inr tmpl, s\<lparr>world := w1\<rparr>)"
    using 1(2) identity [OF assms]
    by (cases "piTemplateNamespace (piSpec p) = []") (simp_all add: fetchInstanceTemplate_def kread_def Let_def)
  moreover have "fetchGCPCredentials k (piCredentialsRef (piSpec p)) (s\<lparr>world := w1\<rparr>) = Some (Inr creds, s\<lparr>world := w2\<rparr>)"
    using 2(2,3) by (simp add: fetchGCPCredentials_def kread_def)
  moreover have "NewProvisioner g creds (gcProject (tsGCP (itSpec tmpl))) (s\<lparr>world := w2\<rparr>) = Some (Inr pr, s\<lparr>world := w4\<rparr>)"
    using 3(2) 4(2) by (simp add: NewProvisioner_def kread_def pr_def)
  ultimately show ?thesis
    by (intro exI [of _ w4] conjI 4(1)) (simp add: driveInstance_def)
qed

lemma waited:
  assumes "serves (world s) p m"
  shows "\<exists>w. serves w p m
    \<and> waitForOperation g pr op (gcZone (tsGCP (itSpec tmpl))) s = Some (None, s\<lparr>world := w\<rparr>)"
proof -
  from poll [OF assms] obtain w1 where 1: "serves w1 p m" "gSelect g (seconds 2) (world s) = (None, w1)" by blast
  from operation_done [OF 1(1)] obtain res w2 where 2: "serves w2 p m"
    "gOpGet g creds (gcProject (tsGCP (itSpec tmpl))) (gcZone (tsGCP (itSpec tmpl))) (opName op) w1 = (Inr res, w2)"
    "opStatus res = ''DONE''" "opError res = None" by blast
  with 1(2) show ?thesis
    by (intro exI [of _ w2]) (subst waitForOperation.simps, simp add: kread_def pr_def)
qed

text \<open>The first pass requests the machine and records it.\<close>

lemma requested:
  assumes "serves (world s) p None" "giName (buildInstance (gCloudPlatformScope g) ts nm b) = nm"
    and zone: "gcZone (tsGCP ts) = gcZone (tsGCP (itSpec tmpl))"
  shows "\<exists>s' i. ProvisionSpotInstance g pr ts nm b s = Some (Inr (Some i), s') \<and> serves (world s') p (Some (i, False))"
proof -
  from insert_machine [OF assms(1,2)] obtain op w1 j where 1: "serves w1 p (Some (j, False))"
    "gInsert g creds (gcProject (tsGCP (itSpec tmpl))) (gcZone (tsGCP (itSpec tmpl)))
       (buildInstance (gCloudPlatformScope g) ts nm b) (world s) = (Inr op, w1)" by blast
  let ?s1 = "s\<lparr>world := w1, trace := trace s @ [AInsertInstance (gcProject (tsGCP (itSpec tmpl)))
      (gcZone (tsGCP (itSpec tmpl))) (buildInstance (gCloudPlatformScope g) ts nm b) None]\<rparr>"
  from waited [of ?s1 p "Some (j, False)" op] 1(1) obtain w2 where 2: "serves w2 p (Some (j, False))"
    "waitForOperation g pr op (gcZone (tsGCP (itSpec tmpl))) ?s1 = Some (None, ?s1\<lparr>world := w2\<rparr>)" by auto
  from get_machine [OF 2(1)] obtain w3 where 3: "serves w3 p (Some (j, False))"
    "gGet g creds (gcProject (tsGCP (itSpec tmpl))) (gcZone (tsGCP (itSpec tmpl))) nm w2 = (Inr (Some j), w3)" by blast
  from 1(2) 2(2) 3 show ?thesis
    by (intro exI [of _ "?s1\<lparr>world := w3\<rparr>"] exI [of _ j])
      (simp add: ProvisionSpotInstance_def kcall_def kread_def pr_def Let_def zone)
qed

lemma provisioned:
  assumes "serves (world s) p None"
  shows "\<exists>s' i now. provisionInstance k g p tmpl pr s = Some (requeue (seconds 30) None, s')
    \<and> serves (world s') (p\<lparr>piStatus := recordProvisioned i now (piStatus p)\<rparr>) (Some (i, False))"
proof -
  from no_machine [OF assms] obtain ms w1 where 1: "serves w1 p None"
    "gList g creds (gcProject (tsGCP (itSpec tmpl))) (gcZone (tsGCP (itSpec tmpl))) (world s) = (Inr ms, w1)"
    "matchingInstances nm ms = []" by blast
  from join_secret [OF 1(1)] obtain w2 where 2: "serves w2 p None"
    "kGetSecret k ns ''kubeadm-join-token'' w1 = (Inr joinInfo, w2)" by blast
  let ?ts = "withJoinCommand (joinCommand (dataOf joinInfo ''control-plane-endpoint'') (dataOf joinInfo ''token'')
      (dataOf joinInfo ''ca-cert-hash'')) (itSpec tmpl)"
  have "giName (buildInstance (gCloudPlatformScope g) ?ts nm (preemptibleOf ?ts)) = nm"
    "gcZone (tsGCP ?ts) = gcZone (tsGCP (itSpec tmpl))"
    by (simp_all add: buildInstance_def Let_def withJoinCommand_def)
  from requested [of "s\<lparr>world := w2\<rparr>" p, OF _ this] 2(1) obtain s3 i where 3: "serves (world s3) p (Some (i, False))"
    "ProvisionSpotInstance g pr ?ts nm (preemptibleOf ?ts) (s\<lparr>world := w2\<rparr>) = Some (Inr (Some i), s3)" by auto
  from clock [OF 3(1)] obtain t w4 where 4: "serves w4 p (Some (i, False))" "kNow k (world s3) = (t, w4)" by blast
  let ?p = "p\<lparr>piStatus := recordProvisioned i t (piStatus p)\<rparr>"
  from write_status [OF 4(1)] obtain w5 where 5: "kUpdatePIStatus k ?p w4 = (Inr ?p, w5)" "serves w5 ?p (Some (i, False))"
    by blast
  from 1(2,3) 2(2) 3(2) 4(2) 5 identity [OF assms] join_complete show ?thesis
    by (intro exI [of _ "s3\<lparr>world := w5, trace := trace s3 @ [AUpdatePIStatus ?p None]\<rparr>"] exI [of _ i] exI [of _ t])
      (simp add: provisionInstance_def ListInstancesByPrefix_def fetchKubeadmJoinInfo_def kread_def kcall_def
        pr_def Let_def)
qed

text \<open>A later pass finds the machine running: it joins when its node is registered.\<close>

abbreviation followedStatus :: "gce_instance \<Rightarrow> bool \<Rightarrow> pi_status \<Rightarrow> pi_status" where
  "followedStatus i registered st \<equiv> (if registered
     then (copyInstance i st)\<lparr>piJoinedCluster := True, piNodeName := nm\<rparr> else copyInstance i st)"

lemma followed:
  assumes "serves (world s) p (Some (i, b))" "giStatus i = ''RUNNING''" "\<not> piJoinedCluster (piStatus p)"
    and name: "piInstanceName (piStatus p) = nm"
  shows "\<exists>s'. checkAndUpdateInstanceStatus k g p tmpl pr s = Some (requeue (seconds 10) None, s')
    \<and> serves (world s') (p\<lparr>piStatus := followedStatus i b (piStatus p)\<rparr>) (Some (i, b))"
proof -
  let ?st = "followedStatus i b (piStatus p)"
  from get_machine [OF assms(1)] obtain w1 where 1: "serves w1 p (Some (i, b))"
    "gGet g creds (gcProject (tsGCP (itSpec tmpl))) (gcZone (tsGCP (itSpec tmpl))) nm (world s) = (Inr (Some i), w1)"
    by blast
  have "\<exists>w2. checkJoined k i (copyInstance i (piStatus p)) (s\<lparr>world := w1\<rparr>) = Some (?st, s\<lparr>world := w2\<rparr>)
      \<and> serves w2 p (Some (i, b))"
  proof (cases b)
    case True
    with node [of w1 p i] 1(1) obtain n w2 where "kGetNode k nm w1 = (Inr n, w2)" "mName (nMeta n) = nm"
      "serves w2 p (Some (i, b))" by auto
    with True assms(2,3) machine_name [OF assms(1)] show ?thesis
      by (intro exI [of _ w2]) (simp add: checkJoined_def kread_def)
  next
    case False
    with no_node [of w1 p i] 1(1) obtain e w2 where "kGetNode k nm w1 = (Inl e, w2)" "serves w2 p (Some (i, b))"
      by auto
    with False assms(2,3) machine_name [OF assms(1)] show ?thesis
      by (intro exI [of _ w2]) (simp add: checkJoined_def kread_def)
  qed
  then obtain w2 where 2: "checkJoined k i (copyInstance i (piStatus p)) (s\<lparr>world := w1\<rparr>) = Some (?st, s\<lparr>world := w2\<rparr>)"
    "serves w2 p (Some (i, b))" by blast
  from write_status [OF 2(2)] obtain w3 where 3: "serves w3 (p\<lparr>piStatus := ?st\<rparr>) (Some (i, b))"
    "kUpdatePIStatus k (p\<lparr>piStatus := ?st\<rparr>) w2 = (Inr (p\<lparr>piStatus := ?st\<rparr>), w3)" by blast
  have "detectPreemption i ?st = ?st" using assms(2) by (simp add: detectPreemption_def)
  with 1(2) 2(1) 3 assms(2) name show ?thesis
    by (intro exI [of _ "s\<lparr>world := w3, trace := trace s @ [AUpdatePIStatus (p\<lparr>piStatus := ?st\<rparr>) None]\<rparr>"])
      (simp add: checkAndUpdateInstanceStatus_def GetInstance_def updateInstanceStatus_def
        kread_def kcall_def pr_def del: if_split)
qed

text \<open>What comes before the machine: the read, the finalizer and the first status.\<close>

lemma opened:
  assumes "serves (world s) p m" "\<not> beingDeleted (piMeta p)"
  shows "\<exists>s' p'. ReconcilePI k g ns nm s = driveInstance k g p' s' \<and> serves (world s') p' m
    \<and> piSpec p' = piSpec p \<and> beingDeleted (piMeta p') = beingDeleted (piMeta p)
    \<and> piStatus p' = (if piState (piStatus p) = [] then (piStatus p)\<lparr>piState := ''PENDING''\<rparr> else piStatus p)"
proof -
  from get_object [OF assms(1)] obtain w1 where 1: "kGetPI k ns nm (world s) = (Inr p, w1)" "serves w1 p m" by blast
  have "\<exists>s2 p2. ensureFinalizerPI k p (s\<lparr>world := w1\<rparr>) = Some (Inr p2, s2) \<and> serves (world s2) p2 m
      \<and> piSpec p2 = piSpec p \<and> piStatus p2 = piStatus p \<and> beingDeleted (piMeta p2) = beingDeleted (piMeta p)"
  proof (cases "kHasFinalizer k (piMeta p) provisionedInstanceFinalizer")
    case True
    with 1(2) show ?thesis by (simp add: ensureFinalizerPI_def)
  next
    case False
    from add_finalizer [OF 1(2)] obtain w2 p2 where "kUpdatePI k (addedFinalizerPI k p) w1 = (Inr p2, w2)"
      "serves w2 p2 m \<and> piSpec p2 = piSpec p \<and> piStatus p2 = piStatus p
        \<and> beingDeleted (piMeta p2) = beingDeleted (piMeta p)" by blast
    with False show ?thesis by (simp add: ensureFinalizerPI_def kcall_def)
  qed
  then obtain s2 p2 where 2: "ensureFinalizerPI k p (s\<lparr>world := w1\<rparr>) = Some (Inr p2, s2)" "serves (world s2) p2 m"
    "piSpec p2 = piSpec p" "piStatus p2 = piStatus p" "beingDeleted (piMeta p2) = beingDeleted (piMeta p)" by blast
  have run: "ReconcilePI k g ns nm s = do {
      (r, s) \<leftarrow> initStatusPI k p2 s2;
      case r of Inl e \<Rightarrow> Some (failWith e, s) | Inr p \<Rightarrow> driveInstance k g p s }"
    using 1(1) 2(1) assms(2) by (simp add: ReconcilePI_def reconcileLivePI_def kread_def)
  show ?thesis
  proof (cases "piState (piStatus p) = []")
    case True
    from write_status [OF 2(2)] obtain w3 where
      "kUpdatePIStatus k (p2\<lparr>piStatus := (piStatus p2)\<lparr>piState := ''PENDING''\<rparr>\<rparr>) (world s2)
        = (Inr (p2\<lparr>piStatus := (piStatus p2)\<lparr>piState := ''PENDING''\<rparr>\<rparr>), w3)"
      "serves w3 (p2\<lparr>piStatus := (piStatus p2)\<lparr>piState := ''PENDING''\<rparr>\<rparr>) m" by blast
    with True 2 run show ?thesis
      by (intro exI [of _ "s2\<lparr>world := w3, trace := trace s2
            @ [AUpdatePIStatus (p2\<lparr>piStatus := (piStatus p2)\<lparr>piState := ''PENDING''\<rparr>\<rparr>) None]\<rparr>"]
          exI [of _ "p2\<lparr>piStatus := (piStatus p2)\<lparr>piState := ''PENDING''\<rparr>\<rparr>"])
        (simp add: initStatusPI_def kcall_def)
  next
    case False
    with 2 run show ?thesis
      by (intro exI [of _ s2] exI [of _ p2]) (simp add: initStatusPI_def)
  qed
qed

lemma first_pass:
  assumes "serves (world s) p None" "\<not> beingDeleted (piMeta p)" "phaseOf (piStatus p) = Fresh"
  shows "\<exists>s' p' i now. ReconcilePI k g ns nm s = Some (requeue (seconds 30) None, s')
    \<and> serves (world s') p' (Some (i, False)) \<and> piSpec p' = piSpec p \<and> \<not> beingDeleted (piMeta p')
    \<and> piStatus p' = recordProvisioned i now ((piStatus p)\<lparr>piState := ''PENDING''\<rparr>)"
proof -
  from assms(3) have fresh: "piState (piStatus p) = []" "piInstanceID (piStatus p) = []"
    by (simp_all add: phaseOf_def split: if_splits)
  from opened [OF assms(1,2)] fresh obtain s1 p1 where 1: "ReconcilePI k g ns nm s = driveInstance k g p1 s1"
    "serves (world s1) p1 None" "piSpec p1 = piSpec p" "beingDeleted (piMeta p1) = beingDeleted (piMeta p)"
    "piStatus p1 = (piStatus p)\<lparr>piState := ''PENDING''\<rparr>" by auto
  from prepared [OF 1(2)] 1(5) fresh obtain w2 where 2: "serves w2 p1 None"
    "driveInstance k g p1 s1 = provisionInstance k g p1 tmpl pr (s1\<lparr>world := w2\<rparr>)" by auto
  from provisioned [of "s1\<lparr>world := w2\<rparr>" p1] 2(1) obtain s3 i now where
    "provisionInstance k g p1 tmpl pr (s1\<lparr>world := w2\<rparr>) = Some (requeue (seconds 30) None, s3)"
    "serves (world s3) (p1\<lparr>piStatus := recordProvisioned i now (piStatus p1)\<rparr>) (Some (i, False))" by auto
  with 1 2 assms(2) show ?thesis
    by (intro exI [of _ s3] exI [of _ "p1\<lparr>piStatus := recordProvisioned i now (piStatus p1)\<rparr>"]
        exI [of _ i] exI [of _ now]) simp
qed

lemma later_pass:
  assumes "serves (world s) p (Some (j, b))" "giStatus j = ''RUNNING''" "\<not> beingDeleted (piMeta p)"
    and st: "phaseOf (piStatus p) = Provisioned" "piState (piStatus p) \<noteq> []" "piInstanceName (piStatus p) = nm"
  shows "\<exists>s' p'. ReconcilePI k g ns nm s = Some (requeue (seconds 10) None, s')
    \<and> serves (world s') p' (Some (j, b)) \<and> piSpec p' = piSpec p \<and> \<not> beingDeleted (piMeta p')
    \<and> piStatus p' = followedStatus j b (piStatus p)"
proof -
  from st(1) have prov: "piInstanceID (piStatus p) \<noteq> []" "\<not> piJoinedCluster (piStatus p)"
    by (simp_all add: phaseOf_def split: if_splits)
  from opened [OF assms(1,3)] st(2) obtain s1 p1 where 1: "ReconcilePI k g ns nm s = driveInstance k g p1 s1"
    "serves (world s1) p1 (Some (j, b))" "piSpec p1 = piSpec p" "piStatus p1 = piStatus p"
    "beingDeleted (piMeta p1) = beingDeleted (piMeta p)" by auto
  from prepared [OF 1(2)] 1(4) prov obtain w2 where 2: "serves w2 p1 (Some (j, b))"
    "driveInstance k g p1 s1 = checkAndUpdateInstanceStatus k g p1 tmpl pr (s1\<lparr>world := w2\<rparr>)" by auto
  from followed [of "s1\<lparr>world := w2\<rparr>" p1 j b, unfolded 1(4)] 2(1) assms(2) prov st(3) obtain s3 where
    "checkAndUpdateInstanceStatus k g p1 tmpl pr (s1\<lparr>world := w2\<rparr>) = Some (requeue (seconds 10) None, s3)"
    "serves (world s3) (p1\<lparr>piStatus := followedStatus j b (piStatus p)\<rparr>) (Some (j, b))"
    by auto
  with 1 2 assms(3) show ?thesis
    by (intro exI [of _ s3] exI [of _ "p1\<lparr>piStatus := followedStatus j b (piStatus p)\<rparr>"]) (simp del: if_split)
qed

end

text \<open>The object as it is while its machine is there and has not joined.\<close>

definition awaitsJoin :: "string \<Rightarrow> prov_instance \<Rightarrow> prov_instance \<Rightarrow> bool" where
  "awaitsJoin nm p q \<longleftrightarrow> piSpec q = piSpec p \<and> \<not> beingDeleted (piMeta q) \<and> phaseOf (piStatus q) = Provisioned
     \<and> piState (piStatus q) \<noteq> [] \<and> piInstanceName (piStatus q) = nm"

section \<open>The reference environment\<close>

text \<open>The object vm of the reference server, with its template, its secrets and its node.\<close>

definition servesVM :: "cluster \<Rightarrow> prov_instance \<Rightarrow> (gce_instance \<times> bool) option \<Rightarrow> bool" where
  "servesVM c p m \<longleftrightarrow> clFaults c = [] \<and> clTemplates c = [exTemplate]
     \<and> clSecrets c = [exCredentials, exJoinSecret] \<and> clPIs c = [p]
     \<and> clMachines c = (case m of None \<Rightarrow> [] | Some (i, b) \<Rightarrow> [i])
     \<and> named ''ns'' ''vm'' (piMeta p) \<and> piSpec p = piSpec (exPI ''vm'' noPIStatus)
     \<and> (case m of None \<Rightarrow> True | Some (i, b) \<Rightarrow> giName i = ''vm'')
     \<and> (\<exists>n. find (\<lambda>n. named [] ''vm'' (nMeta n)) (clNodes c) = Some n) = (\<exists>i. m = Some (i, True))"

interpretation vm: machine_services refKube refGce "''ns''" "''vm''" exTemplate "''key''" exJoinSecret servesVM
proof unfold_locales
  fix w p i
  assume serves: "servesVM w p (Some (i, True))"
  then obtain n where "find (\<lambda>n. named [] ''vm'' (nMeta n)) (clNodes w) = Some n" by (auto simp: servesVM_def)
  moreover from this have "mName (nMeta n) = ''vm''" by (auto simp: find_Some_iff named_def)
  ultimately show "\<exists>n w'. kGetNode refKube ''vm'' w = (Inr n, w') \<and> mName (nMeta n) = ''vm''
      \<and> servesVM w' p (Some (i, True))"
    using serves by (simp add: fault_def refGet_def servesVM_def)
next
  fix w p i
  assume "servesVM w p (Some (i, False))"
  then show "\<exists>e w'. kGetNode refKube ''vm'' w = (Inl e, w') \<and> servesVM w' p (Some (i, False))"
    by (cases "find (\<lambda>n. named [] ''vm'' (nMeta n)) (clNodes w)") (auto simp: fault_def refGet_def servesVM_def)
qed (auto simp: servesVM_def cluster_eval example_defs dataOf_def matchingInstances_filter buildInstance_def)

section \<open>Property\<close>

text \<open>
  C16. With services that do not fail, an object that was just created gets its
  machine in one pass, which records the machine, not joined, and asks to be called again in
  thirty seconds. From any later state in which the object waits for its running machine, as
  that pass left it, a pass asks to be called again in ten seconds; it records that the machine
  has joined, under the name of its node, if the node is registered, and otherwise leaves the
  object waiting, whatever number of passes come before the node is there.
\<close>

theorem machine_joins:
  assumes services: "machine_services k g ns nm tmpl creds joinInfo serves"
    and p: "serves (world s) p None" "\<not> beingDeleted (piMeta p)" "phaseOf (piStatus p) = Fresh"
  shows "\<exists>s1 p1 i. ReconcilePI k g ns nm s = Some (requeue (seconds 30) None, s1)
    \<and> serves (world s1) p1 (Some (i, False)) \<and> awaitsJoin nm p p1
    \<and> (\<forall>t q j registered. serves (world t) q (Some (j, registered)) \<and> awaitsJoin nm p q \<and> giStatus j = ''RUNNING'' \<longrightarrow>
        (\<exists>s2 p2. ReconcilePI k g ns nm t = Some (requeue (seconds 10) None, s2)
          \<and> serves (world s2) p2 (Some (j, registered)) \<and> piState (piStatus p2) = ''RUNNING''
          \<and> (if registered then piSpec p2 = piSpec p \<and> phaseOf (piStatus p2) = Joined \<and> piNodeName (piStatus p2) = nm
             else awaitsJoin nm p p2)))"
proof -
  from machine_services.first_pass [OF services p] obtain s1 p1 i now where
    run: "ReconcilePI k g ns nm s = Some (requeue (seconds 30) None, s1)"
    and p1: "serves (world s1) p1 (Some (i, False))" "piSpec p1 = piSpec p" "\<not> beingDeleted (piMeta p1)"
      "piStatus p1 = recordProvisioned i now ((piStatus p)\<lparr>piState := ''PENDING''\<rparr>)" by blast
  from p(3) have "\<not> piPreemptionNotice (piStatus p)" "\<not> piJoinedCluster (piStatus p)"
    by (simp_all add: phaseOf_def split: if_splits)
  with p1 machine_services.machine_name [OF services p1(1)] have "awaitsJoin nm p p1"
    by (simp add: awaitsJoin_def phaseOf_def recordProvisioned_def)
  moreover have "\<exists>s2 p2. ReconcilePI k g ns nm t = Some (requeue (seconds 10) None, s2)
      \<and> serves (world s2) p2 (Some (j, b)) \<and> piState (piStatus p2) = ''RUNNING''
      \<and> (if b then piSpec p2 = piSpec p \<and> phaseOf (piStatus p2) = Joined \<and> piNodeName (piStatus p2) = nm
         else awaitsJoin nm p p2)"
    if j: "serves (world t) q (Some (j, b))" "awaitsJoin nm p q" "giStatus j = ''RUNNING''" for t q j b
  proof -
    from j(2) have q: "piSpec q = piSpec p" "\<not> beingDeleted (piMeta q)" "phaseOf (piStatus q) = Provisioned"
      "piState (piStatus q) \<noteq> []" "piInstanceName (piStatus q) = nm" by (simp_all add: awaitsJoin_def)
    from machine_services.later_pass [OF services j(1,3) q(2-5)] obtain s2 p2 where
      2: "ReconcilePI k g ns nm t = Some (requeue (seconds 10) None, s2)" "serves (world s2) p2 (Some (j, b))"
      "piSpec p2 = piSpec q" "\<not> beingDeleted (piMeta p2)"
      "piStatus p2 = (if b then (copyInstance j (piStatus q))\<lparr>piJoinedCluster := True, piNodeName := nm\<rparr>
         else copyInstance j (piStatus q))" by blast
    from q(3) have "\<not> piPreemptionNotice (piStatus q)" "\<not> piJoinedCluster (piStatus q)"
      by (simp_all add: phaseOf_def split: if_splits)
    with 2 q(1) j(3) machine_services.machine_name [OF services j(1)] show ?thesis
      by (intro exI [of _ s2] exI [of _ p2]) (simp add: awaitsJoin_def phaseOf_def)
  qed
  ultimately show ?thesis using run p1(1) by (intro exI [of _ s1] exI [of _ p1] exI [of _ i]) blast
qed

definition vmNode :: node where
  "vmNode = \<lparr>nMeta = noMeta\<lparr>mName := ''vm''\<rparr>, nConditions = []\<rparr>"

text \<open>
  The machine starts and a pass finds no node; then the machine registers its node and the
  next pass finds it.
\<close>

theorem machine_joins_witness:
  "\<exists>s1 p1 i s2 p2. ReconcilePI refKube refGce ''ns'' ''vm'' \<lparr>world = pendingCluster, trace = []\<rparr>
       = Some (requeue (seconds 30) None, s1)
     \<and> servesVM (world s1) p1 (Some (i, False)) \<and> phaseOf (piStatus p1) = Provisioned
     \<and> ReconcilePI refKube refGce ''ns'' ''vm''
          (s1\<lparr>world := (world s1)\<lparr>clMachines := [i\<lparr>giStatus := ''RUNNING''\<rparr>]\<rparr>\<rparr>) = Some (requeue (seconds 10) None, s2)
     \<and> servesVM (world s2) p2 (Some (i\<lparr>giStatus := ''RUNNING''\<rparr>, False)) \<and> phaseOf (piStatus p2) = Provisioned
     \<and> (\<exists>s3 p3. ReconcilePI refKube refGce ''ns'' ''vm'' (s2\<lparr>world := (world s2)\<lparr>clNodes := [vmNode]\<rparr>\<rparr>)
          = Some (requeue (seconds 10) None, s3)
        \<and> servesVM (world s3) p3 (Some (i\<lparr>giStatus := ''RUNNING''\<rparr>, True))
        \<and> phaseOf (piStatus p3) = Joined \<and> piNodeName (piStatus p3) = ''vm'')"
proof -
  let ?p = "exPI ''vm'' noPIStatus"
  have "servesVM pendingCluster ?p None" "\<not> beingDeleted (piMeta ?p)" "phaseOf (piStatus ?p) = Fresh"
    by (simp_all add: servesVM_def pendingCluster_def cluster_eval example_defs phaseOf_def)
  from machine_joins [OF vm.machine_services_axioms, of "\<lparr>world = pendingCluster, trace = []\<rparr>", simplified, OF this]
  obtain s1 p1 i where run: "ReconcilePI refKube refGce ''ns'' ''vm'' \<lparr>world = pendingCluster, trace = []\<rparr>
      = Some (requeue (seconds 30) None, s1)" and p1: "servesVM (world s1) p1 (Some (i, False))"
      "awaitsJoin ''vm'' ?p p1"
    and later: "\<And>t q j b. servesVM (world t) q (Some (j, b)) \<and> awaitsJoin ''vm'' ?p q \<and> giStatus j = ''RUNNING'' \<longrightarrow>
        (\<exists>s2 p2. ReconcilePI refKube refGce ''ns'' ''vm'' t = Some (requeue (seconds 10) None, s2)
          \<and> servesVM (world s2) p2 (Some (j, b)) \<and> piState (piStatus p2) = ''RUNNING''
          \<and> (if b then piSpec p2 = piSpec ?p \<and> phaseOf (piStatus p2) = Joined \<and> piNodeName (piStatus p2) = ''vm''
             else awaitsJoin ''vm'' ?p p2))" by fast
  let ?i = "i\<lparr>giStatus := ''RUNNING''\<rparr>"
  let ?t = "s1\<lparr>world := (world s1)\<lparr>clMachines := [?i]\<rparr>\<rparr>"
  from p1(1) have "servesVM (world ?t) p1 (Some (?i, False))" by (simp add: servesVM_def)
  with later [of ?t p1 ?i False] p1(2) obtain s2 p2 where 2: "servesVM (world s2) p2 (Some (?i, False))"
    "ReconcilePI refKube refGce ''ns'' ''vm'' ?t = Some (requeue (seconds 10) None, s2)" "awaitsJoin ''vm'' ?p p2"
    by auto
  let ?u = "s2\<lparr>world := (world s2)\<lparr>clNodes := [vmNode]\<rparr>\<rparr>"
  from 2(1) have "servesVM (world ?u) p2 (Some (?i, True))"
    by (simp add: servesVM_def vmNode_def named_def noMeta_def)
  with later [of ?u p2 ?i True] 2(3) have "\<exists>s3 p3. ReconcilePI refKube refGce ''ns'' ''vm'' ?u
      = Some (requeue (seconds 10) None, s3) \<and> servesVM (world s3) p3 (Some (?i, True))
      \<and> phaseOf (piStatus p3) = Joined \<and> piNodeName (piStatus p3) = ''vm''" by auto
  with run p1 2 show ?thesis unfolding awaitsJoin_def by blast
qed

end
