(* ===== verification/Manager.thy ===== *)
theory Manager
  imports Api "HOL-Library.Sublist"
begin

text \<open>
  The entry point (\<^verbatim>\<open>cmd/main.go\<close>): the registration of the types, the TLS options of the two
  servers, the options of the manager with the flags as they were parsed, and the calls that set
  it up, each of which ends the process with exit code 1 when it fails. The slices of TLS options share their backing array,
  as they do in Go, so they are modelled with an explicit store; how far append grows an array
  is up to the Go runtime and is the parameter grow. Logging is left out; controller-runtime
  is behind env.
\<close>

section \<open>Types and controllers\<close>

text \<open>
  What the API package hands to controller-runtime: the group and the objects of the calls of
  Register, in the order of the calls. They are made by the init functions of the files, which
  Go runs in the order of the file names. What the library makes of them is behind env.
\<close>

record scheme_builder =
  sbGroup :: string
  sbVersion :: string
  sbRegistered :: "string list list"

definition SchemeBuilder :: scheme_builder where
  "SchemeBuilder = \<lparr>sbGroup = ''training.training.dcnlab.com'', sbVersion = ''v1alpha1'', sbRegistered = []\<rparr>"

definition Register :: "string list \<Rightarrow> scheme_builder \<Rightarrow> scheme_builder" where
  "Register objects b = b\<lparr>sbRegistered := sbRegistered b @ [objects]\<rparr>"

definition initInstanceTemplate :: "scheme_builder \<Rightarrow> scheme_builder" where
  "initInstanceTemplate = Register [''InstanceTemplate'', ''InstanceTemplateList'']"

definition initProvisionedInstance :: "scheme_builder \<Rightarrow> scheme_builder" where
  "initProvisionedInstance = Register [''ProvisionedInstance'', ''ProvisionedInstanceList'']"

definition initSpotInstanceJob :: "scheme_builder \<Rightarrow> scheme_builder" where
  "initSpotInstanceJob = Register [''SpotInstanceJob'', ''SpotInstanceJobList'']"

definition trainingTypes :: scheme_builder where
  "trainingTypes = initSpotInstanceJob (initProvisionedInstance (initInstanceTemplate SchemeBuilder))"

text \<open>
  How a controller is put together: the kind it reconciles, the kinds it owns, its name. The
  kinds are those of the objects in the source.
\<close>

record controller_setup =
  csName :: string
  csFor :: string
  csOwns :: "string list"

definition spotInstanceJobController :: controller_setup where
  "spotInstanceJobController = \<lparr>csName = ''spotinstancejob'', csFor = ''SpotInstanceJob'',
     csOwns = [''Job'', ''ProvisionedInstance'']\<rparr>"

definition provisionedInstanceController :: controller_setup where
  "provisionedInstanceController = \<lparr>csName = ''provisionedinstance'', csFor = ''ProvisionedInstance'',
     csOwns = []\<rparr>"

section \<open>Flags\<close>

record flags =
  flMetricsAddr :: string
  flProbeAddr :: string
  flLeaderElect :: bool
  flSecureMetrics :: bool
  flWebhookCertPath :: string
  flWebhookCertName :: string
  flWebhookCertKey :: string
  flMetricsCertPath :: string
  flMetricsCertName :: string
  flMetricsCertKey :: string
  flEnableHTTP2 :: bool

definition defaultFlags :: flags where
  "defaultFlags = \<lparr>flMetricsAddr = ''0'', flProbeAddr = '':8081'', flLeaderElect = False,
     flSecureMetrics = True,
     flWebhookCertPath = [], flWebhookCertName = ''tls.crt'', flWebhookCertKey = ''tls.key'',
     flMetricsCertPath = [], flMetricsCertName = ''tls.crt'', flMetricsCertKey = ''tls.key'',
     flEnableHTTP2 = False\<rparr>"

section \<open>Slices\<close>

datatype server = MetricsServer | WebhookServer

text \<open>An option of a TLS configuration; the unused slots of an array hold nil functions.\<close>

datatype tls_opt = DisableHTTP2 | CertificateOf server | NilOpt

record slice =
  slBase :: nat
  slLen :: nat
  slCap :: nat

type_synonym store = "tls_opt list list"

definition nilSlice :: slice where
  "nilSlice = \<lparr>slBase = 0, slLen = 0, slCap = 0\<rparr>"

definition readSlice :: "store \<Rightarrow> slice \<Rightarrow> tls_opt list" where
  "readSlice h s = take (slLen s) (h ! slBase s)"

text \<open>
  Go's append: within the capacity the array is written in place, and every slice over it sees
  the new element; otherwise a larger array is allocated.
\<close>

definition appendSlice :: "(nat \<Rightarrow> nat) \<Rightarrow> tls_opt \<Rightarrow> store \<times> slice \<Rightarrow> store \<times> slice" where
  "appendSlice grow x = (\<lambda>(h, s).
     if slLen s < slCap s
     then (h[slBase s := (h ! slBase s)[slLen s := x]], s\<lparr>slLen := slLen s + 1\<rparr>)
     else (let n = slLen s + 1;
               array = readSlice h s @ x # replicate (grow n - n) NilOpt
           in (h @ [array], \<lparr>slBase = length h, slLen = n, slCap = length array\<rparr>)))"

section \<open>The TLS options\<close>

text \<open>The common options, then those of the webhook server, then those of the metrics server.\<close>

definition commonTLS :: "(nat \<Rightarrow> nat) \<Rightarrow> flags \<Rightarrow> store \<times> slice" where
  "commonTLS grow fl =
     (if \<not> flEnableHTTP2 fl then appendSlice grow DisableHTTP2 ([], nilSlice) else ([], nilSlice))"

definition serverTLS :: "(nat \<Rightarrow> nat) \<Rightarrow> flags \<Rightarrow> store \<times> slice \<times> slice" where
  "serverTLS grow fl =
     (let (h, tlsOpts) = commonTLS grow fl;
          (h, webhookTLSOpts) =
            (if flWebhookCertPath fl \<noteq> []
             then appendSlice grow (CertificateOf WebhookServer) (h, tlsOpts) else (h, tlsOpts));
          (h, metricsTLSOpts) =
            (if flMetricsCertPath fl \<noteq> []
             then appendSlice grow (CertificateOf MetricsServer) (h, tlsOpts) else (h, tlsOpts))
      in (h, webhookTLSOpts, metricsTLSOpts))"

section \<open>The manager\<close>

text \<open>The options as the servers read them once everything is set up.\<close>

record manager_options =
  moMetricsAddr :: string
  moSecureServing :: bool
  moAuthFilter :: bool
  moMetricsTLS :: "tls_opt list"
  moWebhookTLS :: "tls_opt list"
  moProbeAddr :: string
  moLeaderElection :: bool
  moLeaderElectionID :: string

definition managerOptions :: "(nat \<Rightarrow> nat) \<Rightarrow> flags \<Rightarrow> manager_options" where
  "managerOptions grow fl =
     (case serverTLS grow fl of (h, webhookTLSOpts, metricsTLSOpts) \<Rightarrow>
      \<lparr>moMetricsAddr = flMetricsAddr fl, moSecureServing = flSecureMetrics fl,
       moAuthFilter = flSecureMetrics fl,
       moMetricsTLS = readSlice h metricsTLSOpts, moWebhookTLS = readSlice h webhookTLSOpts,
       moProbeAddr = flProbeAddr fl, moLeaderElection = flLeaderElect fl,
       moLeaderElectionID = ''5ba5b009.training.dcnlab.com''\<rparr>)"

datatype boot_call =
    AddClientGoTypes
  | AddTypes scheme_builder
  | NewWatcher server string string string
  | LoadConfig
  | NewManager manager_options
  | SetupController controller_setup
  | AddWatcher server
  | AddCheck string
  | StartManager

type_synonym 'w boot = "'w \<times> (boot_call \<times> err) list"

text \<open>
  A call that ends the process when it fails, one made only under a condition, and one whose
  failure is a panic: the Go runtime ends the process with exit code 2.
\<close>

definition orExit ::
    "(boot_call \<Rightarrow> 'w \<Rightarrow> err \<times> 'w) \<Rightarrow> boot_call \<Rightarrow> ('w boot \<Rightarrow> nat \<times> 'w boot) \<Rightarrow> 'w boot \<Rightarrow> nat \<times> 'w boot" where
  "orExit env c rest = (\<lambda>(w, tr). case env c w of
     (e, w') \<Rightarrow> (case e of None \<Rightarrow> rest (w', tr @ [(c, None)]) | Some x \<Rightarrow> (1, (w', tr @ [(c, Some x)]))))"

definition onlyIf ::
    "bool \<Rightarrow> (boot_call \<Rightarrow> 'w \<Rightarrow> err \<times> 'w) \<Rightarrow> boot_call \<Rightarrow> ('w boot \<Rightarrow> nat \<times> 'w boot) \<Rightarrow> 'w boot \<Rightarrow> nat \<times> 'w boot" where
  "onlyIf b env c rest = (if b then orExit env c rest else rest)"

definition mustCall ::
    "(boot_call \<Rightarrow> 'w \<Rightarrow> err \<times> 'w) \<Rightarrow> boot_call \<Rightarrow> ('w boot \<Rightarrow> nat \<times> 'w boot) \<Rightarrow> 'w boot \<Rightarrow> nat \<times> 'w boot" where
  "mustCall env c rest = (\<lambda>(w, tr). case env c w of
     (e, w') \<Rightarrow> (case e of None \<Rightarrow> rest (w', tr @ [(c, None)]) | Some x \<Rightarrow> (2, (w', tr @ [(c, Some x)]))))"

text \<open>The types are registered by the init function of the package, before main.\<close>

definition initScheme ::
    "(boot_call \<Rightarrow> 'w \<Rightarrow> err \<times> 'w) \<Rightarrow> ('w boot \<Rightarrow> nat \<times> 'w boot) \<Rightarrow> 'w boot \<Rightarrow> nat \<times> 'w boot" where
  "initScheme env rest = mustCall env AddClientGoTypes (mustCall env (AddTypes trainingTypes) rest)"

definition mainProgram ::
    "(boot_call \<Rightarrow> 'w \<Rightarrow> err \<times> 'w) \<Rightarrow> (nat \<Rightarrow> nat) \<Rightarrow> flags \<Rightarrow> 'w boot \<Rightarrow> nat \<times> 'w boot" where
  "mainProgram env grow fl =
     onlyIf (flWebhookCertPath fl \<noteq> []) env (NewWatcher WebhookServer (flWebhookCertPath fl)
         (flWebhookCertName fl) (flWebhookCertKey fl))
    (onlyIf (flMetricsCertPath fl \<noteq> []) env (NewWatcher MetricsServer (flMetricsCertPath fl)
         (flMetricsCertName fl) (flMetricsCertKey fl))
    (orExit env LoadConfig
    (orExit env (NewManager (managerOptions grow fl))
    (orExit env (SetupController spotInstanceJobController)
    (orExit env (SetupController provisionedInstanceController)
    (onlyIf (flMetricsCertPath fl \<noteq> []) env (AddWatcher MetricsServer)
    (onlyIf (flWebhookCertPath fl \<noteq> []) env (AddWatcher WebhookServer)
    (orExit env (AddCheck ''healthz'')
    (orExit env (AddCheck ''readyz'')
    (orExit env StartManager (Pair 0)))))))))))"

definition process ::
    "(boot_call \<Rightarrow> 'w \<Rightarrow> err \<times> 'w) \<Rightarrow> (nat \<Rightarrow> nat) \<Rightarrow> flags \<Rightarrow> 'w boot \<Rightarrow> nat \<times> 'w boot" where
  "process env grow fl = initScheme env (mainProgram env grow fl)"

section \<open>Set-up as a plan\<close>

text \<open>
  What a start is to do, written out from the flags alone: the two lists of TLS options (how
  they are put together is left open here but for the room append makes), the options of the
  manager, and the calls of a successful start in order, with every kind and every controller
  by name.
\<close>

definition plannedTLS :: "(nat \<Rightarrow> nat) \<Rightarrow> flags \<Rightarrow> server \<Rightarrow> tls_opt list" where
  "plannedTLS grow fl srv =
     (if flEnableHTTP2 fl then [] else [DisableHTTP2])
     @ (case srv of
          MetricsServer \<Rightarrow> (if flMetricsCertPath fl = [] then [] else [CertificateOf MetricsServer])
        | WebhookServer \<Rightarrow>
            (if flWebhookCertPath fl = [] then []
             else if \<not> flEnableHTTP2 fl \<and> flMetricsCertPath fl \<noteq> [] \<and> 2 \<le> grow 1 then [CertificateOf MetricsServer]
             else [CertificateOf WebhookServer]))"

definition bootPlan :: "(nat \<Rightarrow> nat) \<Rightarrow> flags \<Rightarrow> boot_call list" where
  "bootPlan grow fl =
     (let webhook = flWebhookCertPath fl \<noteq> []; metrics = flMetricsCertPath fl \<noteq> [] in
      [AddClientGoTypes,
       AddTypes \<lparr>sbGroup = ''training.training.dcnlab.com'', sbVersion = ''v1alpha1'',
         sbRegistered = [[''InstanceTemplate'', ''InstanceTemplateList''],
           [''ProvisionedInstance'', ''ProvisionedInstanceList''], [''SpotInstanceJob'', ''SpotInstanceJobList'']]\<rparr>]
      @ (if webhook then [NewWatcher WebhookServer (flWebhookCertPath fl) (flWebhookCertName fl)
         (flWebhookCertKey fl)] else [])
      @ (if metrics then [NewWatcher MetricsServer (flMetricsCertPath fl) (flMetricsCertName fl)
         (flMetricsCertKey fl)] else [])
      @ [LoadConfig,
         NewManager \<lparr>moMetricsAddr = flMetricsAddr fl, moSecureServing = flSecureMetrics fl,
           moAuthFilter = flSecureMetrics fl, moMetricsTLS = plannedTLS grow fl MetricsServer,
           moWebhookTLS = plannedTLS grow fl WebhookServer, moProbeAddr = flProbeAddr fl,
           moLeaderElection = flLeaderElect fl, moLeaderElectionID = ''5ba5b009.training.dcnlab.com''\<rparr>,
         SetupController \<lparr>csName = ''spotinstancejob'', csFor = ''SpotInstanceJob'',
           csOwns = [''Job'', ''ProvisionedInstance'']\<rparr>,
         SetupController \<lparr>csName = ''provisionedinstance'', csFor = ''ProvisionedInstance'', csOwns = []\<rparr>]
      @ (if metrics then [AddWatcher MetricsServer] else [])
      @ (if webhook then [AddWatcher WebhookServer] else [])
      @ [AddCheck ''healthz'', AddCheck ''readyz'', StartManager])"

fun exitCode :: "boot_call \<Rightarrow> nat" where
  "exitCode AddClientGoTypes = 2"
| "exitCode (AddTypes _) = 2"
| "exitCode _ = 1"

text \<open>Running a plan up to its first failure.\<close>

fun runPlan ::
    "(boot_call \<Rightarrow> 'w \<Rightarrow> err \<times> 'w) \<Rightarrow> boot_call list \<Rightarrow> 'w boot \<Rightarrow> nat \<times> 'w boot" where
  "runPlan env [] s = (0, s)"
| "runPlan env (c # cs) (w, tr) =
     (case env c w of
        (None, w') \<Rightarrow> runPlan env cs (w', tr @ [(c, None)])
      | (Some x, w') \<Rightarrow> (exitCode c, (w', tr @ [(c, Some x)])))"

lemma orExit_plan: "exitCode c = 1 \<Longrightarrow> orExit env c (runPlan env cs) = runPlan env (c # cs)"
  by (auto simp: orExit_def fun_eq_iff split: prod.splits option.splits)

lemma mustCall_plan: "exitCode c = 2 \<Longrightarrow> mustCall env c (runPlan env cs) = runPlan env (c # cs)"
  by (auto simp: mustCall_def fun_eq_iff split: prod.splits option.splits)

lemma tls_options:
  "moMetricsTLS (managerOptions grow fl) = plannedTLS grow fl MetricsServer"
  "moWebhookTLS (managerOptions grow fl) = plannedTLS grow fl WebhookServer"
proof -
  have nil: "readSlice h nilSlice = []" for h by (simp add: readSlice_def nilSlice_def)
  obtain rest where first: "commonTLS grow fl = (if flEnableHTTP2 fl then ([], nilSlice)
      else ([DisableHTTP2 # rest], \<lparr>slBase = 0, slLen = 1, slCap = Suc (length rest)\<rparr>))"
    and rest: "rest = [] \<longleftrightarrow> grow 1 < 2"
    by (intro that [of "replicate (grow 1 - 1) NilOpt"])
      (auto simp: commonTLS_def appendSlice_def nilSlice_def readSlice_def)
  have "moMetricsTLS (managerOptions grow fl) = plannedTLS grow fl MetricsServer
      \<and> moWebhookTLS (managerOptions grow fl) = plannedTLS grow fl WebhookServer"
  proof (cases "flEnableHTTP2 fl")
    case True
    with first nil show ?thesis
      by (auto simp: managerOptions_def serverTLS_def Let_def appendSlice_def readSlice_def nilSlice_def plannedTLS_def)
  next
    case False
    with first rest show ?thesis
      by (cases rest) (auto simp: managerOptions_def serverTLS_def Let_def appendSlice_def readSlice_def plannedTLS_def)
  qed
  then show "moMetricsTLS (managerOptions grow fl) = plannedTLS grow fl MetricsServer"
    "moWebhookTLS (managerOptions grow fl) = plannedTLS grow fl WebhookServer" by simp_all
qed

lemma managerOptions_plan:
  "managerOptions grow fl = \<lparr>moMetricsAddr = flMetricsAddr fl, moSecureServing = flSecureMetrics fl,
     moAuthFilter = flSecureMetrics fl, moMetricsTLS = plannedTLS grow fl MetricsServer,
     moWebhookTLS = plannedTLS grow fl WebhookServer, moProbeAddr = flProbeAddr fl,
     moLeaderElection = flLeaderElect fl, moLeaderElectionID = ''5ba5b009.training.dcnlab.com''\<rparr>"
  using tls_options [of grow fl] by (simp add: managerOptions_def split: prod.splits)

lemma process_plan: "process env grow fl = runPlan env (bootPlan grow fl)"
proof -
  have fin: "Pair 0 = runPlan env []"
    by (rule ext) simp
  have types: "trainingTypes = \<lparr>sbGroup = ''training.training.dcnlab.com'', sbVersion = ''v1alpha1'',
      sbRegistered = [[''InstanceTemplate'', ''InstanceTemplateList''],
        [''ProvisionedInstance'', ''ProvisionedInstanceList''], [''SpotInstanceJob'', ''SpotInstanceJobList'']]\<rparr>"
    by (simp add: trainingTypes_def initInstanceTemplate_def initProvisionedInstance_def initSpotInstanceJob_def
        Register_def SchemeBuilder_def)
  show ?thesis
    unfolding process_def initScheme_def mainProgram_def bootPlan_def Let_def onlyIf_def fin types
      managerOptions_plan spotInstanceJobController_def provisionedInstanceController_def
    by (simp add: orExit_plan mustCall_plan del: runPlan.simps)
qed

lemma runPlan_result:
  "\<exists>n e. snd (snd (runPlan env cs (w, tr))) = tr @ map (\<lambda>c. (c, None)) (take n cs) @ e
     \<and> (fst (runPlan env cs (w, tr)) = 0 \<and> n = length cs \<and> e = []
        \<or> n < length cs \<and> fst (runPlan env cs (w, tr)) = exitCode (cs ! n) \<and> (\<exists>x. e = [(cs ! n, Some x)]))"
proof (induction cs arbitrary: w tr)
  case Nil
  show ?case by (intro exI [of _ 0] exI [of _ "[]"]) simp
next
  case (Cons c cs)
  obtain e w' where call: "env c w = (e, w')" by fastforce
  show ?case
  proof (cases e)
    case (Some x)
    with call show ?thesis
      by (intro exI [of _ 0] exI [of _ "[(c, Some x)]"]) simp
  next
    case None
    with call have run: "runPlan env (c # cs) (w, tr) = runPlan env cs (w', tr @ [(c, None)])" by simp
    from Cons [of w' "tr @ [(c, None)]"] obtain n es where
      "snd (snd (runPlan env cs (w', tr @ [(c, None)]))) = (tr @ [(c, None)]) @ map (\<lambda>c. (c, None)) (take n cs) @ es"
      "fst (runPlan env cs (w', tr @ [(c, None)])) = 0 \<and> n = length cs \<and> es = []
        \<or> n < length cs \<and> fst (runPlan env cs (w', tr @ [(c, None)])) = exitCode (cs ! n)
            \<and> (\<exists>x. es = [(cs ! n, Some x)])"
      by blast
    then show ?thesis unfolding run
      by (intro exI [of _ "Suc n"] exI [of _ es]) auto
  qed
qed

section \<open>Properties\<close>

text \<open>
  C30. The process makes the calls of its plan in order, each only after all before
  it succeeded, and stops at the first that fails, with exit code 2 when that is the
  registration of the types and 1 otherwise; it ends with exit code 0 exactly when the whole
  plan succeeded. The plan is written out by name: the manager is started only with the kinds
  InstanceTemplate, ProvisionedInstance and SpotInstanceJob and their lists registered, with
  the controller of SpotInstanceJobs that owns Jobs and ProvisionedInstances and the controller
  of ProvisionedInstances set up, with both health checks, with the options the flags ask for,
  and with the certificate watchers of the servers that have a certificate path.
\<close>

theorem main_boots:
  "\<exists>n e. snd (snd (process env grow fl (w, []))) = map (\<lambda>c. (c, None)) (take n (bootPlan grow fl)) @ e
     \<and> (fst (process env grow fl (w, [])) = 0 \<and> n = length (bootPlan grow fl) \<and> e = []
        \<or> n < length (bootPlan grow fl) \<and> fst (process env grow fl (w, [])) = exitCode (bootPlan grow fl ! n)
          \<and> (\<exists>x. e = [(bootPlan grow fl ! n, Some x)]))"
  using runPlan_result [of env "bootPlan grow fl" w "[]"] by (simp only: process_plan append_Nil)

text \<open>
  C31. The metrics server gets exactly its own options: HTTP/2 disabled unless
  the flag enables it, and its certificate when it has a path. The webhook server gets exactly
  its own as well, unless HTTP/2 is disabled, both servers have a certificate and append gave
  the first array room for a second element: then both slices share it, and the webhook server
  ends up with the certificate of the metrics server.
\<close>

theorem tls_options_exact:
  "moMetricsTLS (managerOptions grow fl) = (if flEnableHTTP2 fl then [] else [DisableHTTP2])
       @ (if flMetricsCertPath fl = [] then [] else [CertificateOf MetricsServer])
   \<and> moWebhookTLS (managerOptions grow fl) = (if flEnableHTTP2 fl then [] else [DisableHTTP2])
       @ (if flWebhookCertPath fl = [] then []
          else if \<not> flEnableHTTP2 fl \<and> flMetricsCertPath fl \<noteq> [] \<and> 2 \<le> grow 1 then [CertificateOf MetricsServer]
          else [CertificateOf WebhookServer])"
  by (simp add: tls_options plannedTLS_def)

end
