(* ===== verification/Wiring.thy ===== *)
theory Wiring
  imports History Manager
begin

text \<open>
  What wakes the reconcilers. controller-runtime turns every change of an object into requests
  of the controllers that watch its kind (the SetupWithManager methods); which requests, is its
  documented behaviour and an interface here. The objects the operator creates carry the
  owner reference by which their changes come back to the SpotInstanceJob they were made for.
\<close>

section \<open>Requests\<close>

text \<open>
  A controller is asked to reconcile each object of its own kind that changes, and the object
  that controls a changed object of a kind it owns, which is looked for in the same namespace.
\<close>

locale watching =
  fixes requests :: "controller_setup \<Rightarrow> string \<Rightarrow> obj_meta \<Rightarrow> (string \<times> string) set"
  assumes own_kind: "(mNamespace m, mName m) \<in> requests c (csFor c) m"
    and owned_kind: "kd \<in> set (csOwns c) \<Longrightarrow> ref \<in> set (mOwners m) \<Longrightarrow> orController ref \<Longrightarrow>
      orKind ref = csFor c \<Longrightarrow> (mNamespace m, orName ref) \<in> requests c kd m"

text \<open>A controller reference made for a SpotInstanceJob names it as the controller.\<close>

definition names_controller :: "'w kube \<Rightarrow> bool" where
  "names_controller k \<longleftrightarrow> (\<forall>owner m m'. kSetCtrlRef k owner m = Inr m' \<longrightarrow>
     (\<exists>ref\<in>set (mOwners m'). orController ref \<and> orKind ref = ''SpotInstanceJob'' \<and> orName ref = mName owner))"

text \<open>
  Reads of a SpotInstanceJob answer the object that was asked for, writes the object that was
  given; adding a finalizer renames nothing.
\<close>

definition keeps_key :: "'w kube \<Rightarrow> bool" where
  "keeps_key k \<longleftrightarrow>
     (\<forall>ns nm w x w'. kGetSIJ k ns nm w = (Inr x, w') \<longrightarrow> sijKey x = (ns, nm))
     \<and> (\<forall>x w y w'. kUpdateSIJ k x w = (Inr y, w') \<longrightarrow> sijKey y = sijKey x)
     \<and> (\<forall>x w y w'. kUpdateSIJStatus k x w = (Inr y, w') \<longrightarrow> sijKey y = sijKey x)
     \<and> (\<forall>x f. sijKey (x\<lparr>sjMeta := kAddFinalizer k (sjMeta x) f\<rparr>) = sijKey x)"

context watching
begin

lemma replica_wakes:
  assumes "names_controller k" "replicaMeta k sij m" "kd \<in> set (csOwns spotInstanceJobController)"
  shows "sijKey sij \<in> requests spotInstanceJobController kd m"
proof -
  from assms(2) obtain m0 where m: "mNamespace m = mNamespace (sjMeta sij)"
    "kSetCtrlRef k (sjMeta sij) m0 = Inr m" unfolding replicaMeta_def by blast
  from assms(1) m(2) obtain ref where ref: "ref \<in> set (mOwners m)" "orController ref"
    "orKind ref = ''SpotInstanceJob''" "orName ref = mName (sjMeta sij)"
    unfolding names_controller_def by blast
  from owned_kind [OF assms(3) ref(1,2)] ref(3,4) m(1) show ?thesis
    by (simp add: sijKey_def spotInstanceJobController_def)
qed

lemma instance_wakes: "(mNamespace m, mName m) \<in> requests provisionedInstanceController ''ProvisionedInstance'' m"
  using own_kind [of m provisionedInstanceController] by (simp add: provisionedInstanceController_def)

end

section \<open>Objects are made for the SpotInstanceJob that is reconciled\<close>

text \<open>What is created and which goroutines are started, by a pass over the SpotInstanceJob.\<close>

definition servesJob :: "'w kube \<Rightarrow> string \<times> string \<Rightarrow> action \<Rightarrow> bool" where
  "servesJob k key a \<longleftrightarrow> (\<exists>sij. sijKey sij = key \<and> madeFor k sij a \<and> (\<forall>sij' nm. a = ASpawn sij' nm \<longrightarrow> sij' = sij))"

lemma servesJob_other:
  "isUpdateSIJ a \<or> isDeleteCheckpoint a \<or> (\<exists>p e. a = ADeletePI p e) \<Longrightarrow> servesJob k key a"
proof -
  obtain sij :: spot_job where key: "sijKey sij = key"
  proof -
    have "sijKey (sij\<lparr>sjMeta := noMeta\<lparr>mNamespace := fst key, mName := snd key\<rparr>\<rparr>) = key" for sij
      by (simp add: sijKey_def)
    then show thesis by (rule that)
  qed
  assume "isUpdateSIJ a \<or> isDeleteCheckpoint a \<or> (\<exists>p e. a = ADeletePI p e)"
  with key show ?thesis by (cases a) (auto simp: servesJob_def madeFor_def)
qed

lemma servesJobI:
  "sijKey sij = key \<Longrightarrow> madeFor k sij a \<Longrightarrow> (\<And>sij' nm. a = ASpawn sij' nm \<Longrightarrow> sij' = sij) \<Longrightarrow> servesJob k key a"
  unfolding servesJob_def by blast

lemma servesJob_preemption:
  assumes "owners_only k" "sijKey sij = key" "preemptionAction k sij a"
  shows "servesJob k key a"
proof (rule servesJobI [OF assms(2)])
  show "madeFor k sij a"
  proof (cases a)
    case (ACreateJob j e)
    with assms(3) have "restoreAction k sij (\<lambda>_. True) (ACreateJob j e)"
      by (auto simp: preemptionAction_def checkpointAction_def checkpointFor_def)
    with replica_restore [OF assms(1)] ACreateJob show ?thesis by simp
  qed (use assms(3) in \<open>auto simp: preemptionAction_def checkpointAction_def checkpointFor_def restoreAction_def madeFor_def\<close>)
  show "sij' = sij" if "a = ASpawn sij' nm" for sij' nm
    using assms(3) that by (auto simp: preemptionAction_def checkpointAction_def checkpointFor_def restoreAction_def)
qed

lemma servesJob_instance:
  "owners_only k \<Longrightarrow> sijKey sij = key \<Longrightarrow> instanceAction k sij tmpl a \<Longrightarrow> servesJob k key a"
  by (drule (1) replica_instance) (auto intro: servesJobI)

lemma servesJob_job: "owners_only k \<Longrightarrow> sijKey sij = key \<Longrightarrow> jobAction k sij a \<Longrightarrow> servesJob k key a"
  by (drule (1) replica_job) (auto intro: servesJobI)

lemma servesJob_phases:
  assumes k: "owners_only k" and key: "sijKey sij = key" and es: "inPhases k sij es"
  shows "list_all (servesJob k key) es"
proof -
  from es obtain ps "is" js ts tmpl where 1: "es = ps @ is @ js @ ts"
    and 2: "list_all (preemptionAction k sij) ps" "list_all (instanceAction k sij tmpl) is"
      "list_all (jobAction k sij) js" "list_all isUpdateSIJ ts"
    unfolding inPhases_def by blast
  from 2 show ?thesis unfolding 1 list_all_append
    by (intro conjI) (elim list_all_weaken servesJob_preemption [OF k key] servesJob_instance [OF k key]
      servesJob_job [OF k key] servesJob_other [OF disjI1])+
qed

lemma keyed_updates:
  assumes "keeps_key k"
  shows "yields (ensureFinalizerSIJ k sij) (\<lambda>r es. list_all isUpdateSIJ es \<and> (\<forall>y. r = Inr y \<longrightarrow> sijKey y = sijKey sij))"
    and "yields (initStatusSIJ k sij) (\<lambda>r es. list_all isUpdateSIJ es \<and> (\<forall>y. r = Inr y \<longrightarrow> sijKey y = sijKey sij))"
proof -
  note key = assms [unfolded keeps_key_def]
  from key have upd: "kUpdateSIJ k (addedFinalizerSIJ k sij) w = (Inr y, w') \<Longrightarrow> sijKey y = sijKey sij" for w y w'
    by metis
  from key have "kUpdateSIJStatus k (sij\<lparr>sjStatus := st\<rparr>) w = (Inr y, w') \<Longrightarrow> sijKey y = sijKey (sij\<lparr>sjStatus := st\<rparr>)"
    for st w y w' by blast
  then have st: "kUpdateSIJStatus k (sij\<lparr>sjStatus := st\<rparr>) w = (Inr y, w') \<Longrightarrow> sijKey y = sijKey sij" for st w y w'
    by (simp add: sijKey_def)
  show "yields (ensureFinalizerSIJ k sij) (\<lambda>r es. list_all isUpdateSIJ es \<and> (\<forall>y. r = Inr y \<longrightarrow> sijKey y = sijKey sij))"
    unfolding ensureFinalizerSIJ_def [abs_def]
    by (intro yields_if yields_ret yields_mono [OF yields_kcall_val]) (auto dest: upd)
  show "yields (initStatusSIJ k sij) (\<lambda>r es. list_all isUpdateSIJ es \<and> (\<forall>y. r = Inr y \<longrightarrow> sijKey y = sijKey sij))"
    unfolding initStatusSIJ_def [abs_def]
    by (intro yields_if yields_ret yields_mono [OF yields_kcall_val]) (auto dest: st)
qed

lemma serves_updates: "list_all isUpdateSIJ es \<Longrightarrow> list_all (servesJob k key) es"
  by (erule list_all_weaken) (simp add: servesJob_other)

lemma yields_serves_live:
  assumes k: "owners_only k" "keeps_key k"
  shows "yields (reconcileLiveSIJ k sij) (\<lambda>_ es. list_all (servesJob k (sijKey sij)) es)"
  unfolding reconcileLiveSIJ_def [abs_def]
  by (intro yields_bind [OF keyed_updates(1) [OF k(2)]] yields_bind [OF keyed_updates(2) [OF k(2)]]
      yields_sum yields_ret yields_mono [OF yields_reconcileFrom [OF k(1)]])
    (auto intro: serves_updates servesJob_phases [OF k(1)])

lemma yields_serves_deletion: "yields (handleDeletionSIJ k sij) (\<lambda>_ es. list_all (servesJob k key) es)"
proof -
  have pis: "list_all (servesJob k key) (map2 ADeletePI ps errs)" for ps errs
    by (auto simp: list_all_iff intro: servesJob_other)
  have "list_all (servesJob k key) es" if "list_all isDeleteCheckpoint es" for es
    using that by (rule list_all_weaken) (simp add: servesJob_other)
  with pis show ?thesis
    by (intro yields_mono [OF yields_handleDeletionSIJ])
      (auto simp: cleansUpSIJ_def deleteCheckpoints_only intro!: servesJob_other)
qed

lemma emits_serves:
  assumes k: "owners_only k" "keeps_key k"
  shows "emits (servesJob k (ns, nm)) (Reconcile k ns nm)"
proof -
  from k(2) have key: "kGetSIJ k ns nm w = (Inr x, w') \<Longrightarrow> sijKey x = (ns, nm)" for x w w'
    unfolding keeps_key_def by blast
  show ?thesis unfolding Reconcile_def [abs_def] emits_def
    by (intro yields_bind [OF yields_kread_val] yields_sum yields_ret yields_if
        yields_mono [OF yields_serves_deletion] yields_mono [OF yields_serves_live [OF k]])
      (auto dest: key)
qed

lemma emits_serves_goroutine:
  assumes "owners_only k"
  shows "emits (madeFor k sij) (recreateJobFromLatestCheckpoint k sij nm)"
proof (rule emits_mono [OF emits_recreateJobFromLatestCheckpoint])
  fix a assume a: "restoreAction k sij (\<lambda>x. x = nm) a"
  show "madeFor k sij a"
  proof (cases a)
    case (ACreateJob j e)
    with replica_restore [OF assms] a show ?thesis by simp
  qed (use a in \<open>simp_all add: restoreAction_def madeFor_def\<close>)
qed

section \<open>Reference requests\<close>

definition eventRequests :: "controller_setup \<Rightarrow> string \<Rightarrow> obj_meta \<Rightarrow> (string \<times> string) set" where
  "eventRequests c kd m =
     (if kd = csFor c then {(mNamespace m, mName m)} else {})
     \<union> (if kd \<in> set (csOwns c)
        then (\<lambda>ref. (mNamespace m, orName ref)) ` set (filter (\<lambda>ref. orController ref \<and> orKind ref = csFor c) (mOwners m))
        else {})"

interpretation events: watching eventRequests
  by unfold_locales (auto simp: eventRequests_def)

lemma refGet_named: "refGet op meta xs ns nm c = (Inr x, c') \<Longrightarrow> named ns nm (meta x)"
  by (auto simp: refGet_def find_Some_iff split: option.splits)

lemma refUpdate_named:
  "refUpdate op meta merge xs put x c = (Inr y, c') \<Longrightarrow>
   \<exists>z. y = merge x z \<and> named (mNamespace (meta x)) (mName (meta x)) (meta z)"
  by (auto simp: refUpdate_def Let_def find_Some_iff split: option.splits)

lemma openKube_key:
  "kGetSIJ openKube ns nm w = (Inr x, w') \<Longrightarrow> sijKey x = (ns, nm)"
  "kUpdateSIJ openKube x w = (Inr y, w') \<Longrightarrow> sijKey y = sijKey x"
  "kUpdateSIJStatus openKube x w = (Inr y, w') \<Longrightarrow> sijKey y = sijKey x"
  "sijKey (x\<lparr>sjMeta := kAddFinalizer openKube (sjMeta x) f\<rparr>) = sijKey x"
  using refGet_named [of "''get sij''" sjMeta "clSIJs w" ns nm w x w']
    refUpdate_named [of "''update sij''" sjMeta "\<lambda>x y. x\<lparr>sjStatus := sjStatus y\<rparr>" "clSIJs w" setSIJs x w y w']
    refUpdate_named [of "''update sij status''" sjMeta "\<lambda>x y. y\<lparr>sjStatus := sjStatus x\<rparr>" "clSIJs w" setSIJs x w y w']
  by (auto simp: openKube_def sijKey_def named_def)

lemma openKube_keys: "names_controller openKube" "keeps_key openKube"
proof -
  show "names_controller openKube"
    by (simp add: names_controller_def openKube_def ownerOf_def)
  show "keeps_key openKube" unfolding keeps_key_def
    by (intro conjI allI impI) (erule openKube_key(1-3) | rule openKube_key(4))+
qed

section \<open>Property\<close>

text \<open>
  C17. Nothing a pass over a SpotInstanceJob creates is forgotten: a change
  of an instance it creates wakes that SpotInstanceJob again, and the reconciler of the
  instance itself; a change of a job it creates or restores wakes the SpotInstanceJob, and so
  does a change of a job that a goroutine it started restores, whenever that runs.
\<close>

theorem created_objects_wake:
  assumes k: "owners_only k" "names_controller k" "keeps_key k"
    and watches: "watching requests"
    and run: "Reconcile k ns nm s = Some (r, s')" "trace s' = trace s @ es"
  shows "(\<forall>p e. ACreatePI p e \<in> set es \<longrightarrow>
        (ns, nm) \<in> requests spotInstanceJobController ''ProvisionedInstance'' (piMeta p)
        \<and> (ns, mName (piMeta p)) \<in> requests provisionedInstanceController ''ProvisionedInstance'' (piMeta p))
    \<and> (\<forall>j e. ACreateJob j e \<in> set es \<longrightarrow> (ns, nm) \<in> requests spotInstanceJobController ''Job'' (jMeta j))
    \<and> (\<forall>sij old t u t' fs j e. ASpawn sij old \<in> set es \<longrightarrow>
        recreateJobFromLatestCheckpoint k sij old t = Some (u, t') \<longrightarrow> trace t' = trace t @ fs \<longrightarrow>
        ACreateJob j e \<in> set fs \<longrightarrow> (ns, nm) \<in> requests spotInstanceJobController ''Job'' (jMeta j))"
proof -
  from yieldsE [OF emits_serves [OF k(1,3), unfolded emits_def] run(1)] run(2)
  have "list_all (servesJob k (ns, nm)) es" by simp
  then have serves: "servesJob k (ns, nm) a" if "a \<in> set es" for a
    using that by (simp add: list_all_iff)
  note wakes = watching.replica_wakes [OF watches k(2)]
  have kinds: "''Job'' \<in> set (csOwns spotInstanceJobController)"
    "''ProvisionedInstance'' \<in> set (csOwns spotInstanceJobController)"
    by (simp_all add: spotInstanceJobController_def)
  have inst: "(ns, nm) \<in> requests spotInstanceJobController ''ProvisionedInstance'' (piMeta p)
      \<and> (ns, mName (piMeta p)) \<in> requests provisionedInstanceController ''ProvisionedInstance'' (piMeta p)"
    if "ACreatePI p e \<in> set es" for p e
  proof -
    from serves [OF that] obtain sij where sij: "sijKey sij = (ns, nm)" "replicaMeta k sij (piMeta p)"
      by (auto simp: servesJob_def)
    then have "mNamespace (piMeta p) = ns" by (simp add: replicaMeta_def sijKey_def)
    with wakes [OF sij(2) kinds(2)] sij(1) watching.instance_wakes [OF watches, of "piMeta p"] show ?thesis by simp
  qed
  have job: "(ns, nm) \<in> requests spotInstanceJobController ''Job'' (jMeta j)" if "ACreateJob j e \<in> set es" for j e
  proof -
    from serves [OF that] obtain sij where sij: "sijKey sij = (ns, nm)" "replicaMeta k sij (jMeta j)"
      by (auto simp: servesJob_def)
    from wakes [OF sij(2) kinds(1)] sij(1) show ?thesis by simp
  qed
  have restored: "(ns, nm) \<in> requests spotInstanceJobController ''Job'' (jMeta j)"
    if "ASpawn sij old \<in> set es" and go: "recreateJobFromLatestCheckpoint k sij old t = Some (u, t')"
      "trace t' = trace t @ fs" "ACreateJob j e \<in> set fs" for sij old t u t' fs j e
  proof -
    from serves [OF that(1)] have key: "sijKey sij = (ns, nm)" by (auto simp: servesJob_def)
    from yieldsE [OF emits_serves_goroutine [OF k(1), unfolded emits_def] go(1)] go(2)
    have "list_all (madeFor k sij) fs" by simp
    with go(3) have "replicaMeta k sij (jMeta j)" unfolding list_all_iff by force
    from wakes [OF this kinds(1)] key show ?thesis by simp
  qed
  show ?thesis
    by (intro conjI allI impI, erule inst [THEN conjunct1], erule inst [THEN conjunct2], erule job)
      (rule restored)
qed

text \<open>A SpotInstanceJob without instances: its pass creates two.\<close>

definition wakingJob :: spot_job where
  "wakingJob = exSIJ\<lparr>sjMeta := (exMeta ''train'')\<lparr>mFinalizers := [spotInstanceJobFinalizer]\<rparr>,
     sjStatus := (sjStatus exSIJ)\<lparr>ssActiveReplicas := 1\<rparr>\<rparr>"

definition wakingCluster :: cluster where
  "wakingCluster = exCluster\<lparr>clSIJs := [wakingJob]\<rparr>"

lemma waking_run:
  "\<exists>r s' p e. Reconcile openKube ''ns'' ''train'' \<lparr>world = wakingCluster, trace = []\<rparr> = Some (r, s')
     \<and> ACreatePI p e \<in> set (trace s')"
proof -
  let ?s = "\<lparr>world = wakingCluster, trace = []\<rparr>"
  note eval = wakingCluster_def wakingJob_def openKube_def checkpoint_examples cluster_eval example_defs
  have parts: "getSIJ openKube ''ns'' ''train'' ?s = Some (Inr wakingJob, ?s)"
    "kHasFinalizer openKube (sjMeta wakingJob) spotInstanceJobFinalizer" "\<not> beingDeleted (sjMeta wakingJob)"
    "ssActiveReplicas (sjStatus wakingJob) \<noteq> 0"
    "fetchTemplateFor openKube wakingJob ?s = Some (Inr exTemplate, ?s)"
    "hasPendingCheckpoints openKube wakingJob ?s = Some (Inr False, ?s)"
    "handlePreemption openKube wakingJob ?s = Some (None, ?s)"
    "kListPI openKube (mNamespace (sjMeta wakingJob)) [(spotInstanceJobLabel, mName (sjMeta wakingJob))] (world ?s)
      = (Inr [], wakingCluster)"
    by (simp_all add: fetchTemplateFor_def hasPendingCheckpoints_def handlePreemption_def collectJobs_def eval)
  have d: "desiredReplicas wakingJob = 2" by (simp add: desiredReplicas_def eval)
  have c: "countActive [] = 0" by (simp add: countActive_def in32_def)
  from provisioning_run [OF openKube_laws _ _ parts(8), of exTemplate] d c obtain s1 es where
    inst: "reconcileProvisionedInstances openKube wakingJob exTemplate ?s = Some (None, s1)" "trace s1 = es"
      "length (createdIndices es) = 2" by auto
  have "createdIndices fs \<noteq> [] \<Longrightarrow> \<exists>p. ACreatePI p None \<in> set fs" for fs
    by (induction fs rule: createdIndices.induct) auto
  moreover from inst(3) have "createdIndices es \<noteq> []" by (cases "createdIndices es") simp_all
  ultimately obtain p where es: "ACreatePI p None \<in> set es" by blast
  obtain r s' where jobs: "jobPhase openKube wakingJob False s1 = Some (r, s')"
    using returns_jobPhase unfolding returns_def by fastforce
  from yieldsE [OF yields_jobPhase [OF openKube_laws(1)] jobs] obtain js where "trace s' = es @ js"
    using inst(2) by auto
  moreover have "Reconcile openKube ''ns'' ''train'' ?s = Some (r, s')"
    using parts(1-7) inst(1) jobs
    by (simp add: Reconcile_def reconcileLiveSIJ_def ensureFinalizerSIJ_def initStatusSIJ_def reconcileFrom_def
        preemptionPhase_def instancePhase_def)
  ultimately show ?thesis using es by auto
qed

theorem created_objects_wake_witness:
  "\<exists>r s' p e. Reconcile openKube ''ns'' ''train'' \<lparr>world = wakingCluster, trace = []\<rparr> = Some (r, s')
     \<and> ACreatePI p e \<in> set (trace s')
     \<and> (''ns'', ''train'') \<in> eventRequests spotInstanceJobController ''ProvisionedInstance'' (piMeta p)"
proof -
  obtain r s' p e where run: "Reconcile openKube ''ns'' ''train'' \<lparr>world = wakingCluster, trace = []\<rparr>
      = Some (r, s')" and p: "ACreatePI p e \<in> set (trace s')"
    using waking_run by blast
  from created_objects_wake [OF openKube_laws(1) openKube_keys events.watching_axioms run] p run show ?thesis
    by fastforce
qed

end
