(* ===== verification/CheckpointWait.thy ===== *)
theory CheckpointWait
  imports Jobs Frames
begin

text \<open>
  \<^verbatim>\<open>waitForCheckpointAndRecreateJob\<close> of \<^verbatim>\<open>spotinstancejob_checkpoint.go\<close>: wait for a
  completed checkpoint of a job, tick by tick, and restore the job from it. Nothing in the
  repository calls it any more (the synchronous path took its place); it is modelled with its
  loop, its timer and its ticker. Which of the two fires is the answer of sel, given the
  timeout and the interval: True for the ticker.
\<close>

section \<open>One tick\<close>




section \<open>The loop\<close>










section \<open>Termination\<close>







section \<open>Property\<close>



end
