(* ===== verification/Flags.thy ===== *)
theory Flags
  imports Manager
begin

text \<open>
  The command line of \<^verbatim>\<open>cmd/main.go\<close>: the flags it declares with their defaults, read by
  Go's package flag, which ends the process when an argument is wrong. Flags that other modules
  declare (the logger, the client configuration) are the parameter extra: whether such a flag is
  boolean, and which values it takes.
\<close>

section \<open>Declared flags\<close>

datatype flag_var = StringVar "string \<Rightarrow> flags \<Rightarrow> flags" | BoolVar "bool \<Rightarrow> flags \<Rightarrow> flags"

definition declaredFlags :: "(string \<times> flag_var) list" where
  "declaredFlags =
     [(''metrics-bind-address'', StringVar (\<lambda>v fl. fl\<lparr>flMetricsAddr := v\<rparr>)),
      (''health-probe-bind-address'', StringVar (\<lambda>v fl. fl\<lparr>flProbeAddr := v\<rparr>)),
      (''leader-elect'', BoolVar (\<lambda>b fl. fl\<lparr>flLeaderElect := b\<rparr>)),
      (''metrics-secure'', BoolVar (\<lambda>b fl. fl\<lparr>flSecureMetrics := b\<rparr>)),
      (''webhook-cert-path'', StringVar (\<lambda>v fl. fl\<lparr>flWebhookCertPath := v\<rparr>)),
      (''webhook-cert-name'', StringVar (\<lambda>v fl. fl\<lparr>flWebhookCertName := v\<rparr>)),
      (''webhook-cert-key'', StringVar (\<lambda>v fl. fl\<lparr>flWebhookCertKey := v\<rparr>)),
      (''metrics-cert-path'', StringVar (\<lambda>v fl. fl\<lparr>flMetricsCertPath := v\<rparr>)),
      (''metrics-cert-name'', StringVar (\<lambda>v fl. fl\<lparr>flMetricsCertName := v\<rparr>)),
      (''metrics-cert-key'', StringVar (\<lambda>v fl. fl\<lparr>flMetricsCertKey := v\<rparr>)),
      (''enable-http2'', BoolVar (\<lambda>b fl. fl\<lparr>flEnableHTTP2 := b\<rparr>))]"

section \<open>Package flag\<close>

definition parseBool :: "string \<Rightarrow> bool option" where
  "parseBool v =
     (if v \<in> {''1'', ''t'', ''T'', ''TRUE'', ''true'', ''True''} then Some True
      else if v \<in> {''0'', ''f'', ''F'', ''FALSE'', ''false'', ''False''} then Some False
      else None)"

text \<open>
  One argument: not a flag (parsing ends), the end of the flags, malformed, or a name with or
  without a value. One or two dashes mean the same; the first character of a name is never
  taken for the equals sign.
\<close>

datatype flag_arg = NoFlag | EndOfFlags | BadSyntax | Flag string "string option"

definition splitValue :: "string \<Rightarrow> flag_arg" where
  "splitValue nm =
     (case nm of
        [] \<Rightarrow> BadSyntax
      | c # cs \<Rightarrow>
          (if c = CHR ''-'' \<or> c = CHR ''='' then BadSyntax
           else Flag (c # takeWhile (\<lambda>x. x \<noteq> CHR ''='') cs)
                  (case dropWhile (\<lambda>x. x \<noteq> CHR ''='') cs of [] \<Rightarrow> None | _ # v \<Rightarrow> Some v)))"

fun readArg :: "string \<Rightarrow> flag_arg" where
  "readArg (d # e # cs) =
     (if d \<noteq> CHR ''-'' then NoFlag
      else if e \<noteq> CHR ''-'' then splitValue (e # cs)
      else if cs = [] then EndOfFlags
      else splitValue cs)"
| "readArg _ = NoFlag"

text \<open>Exit code 0 after asking for help, 2 after any error.\<close>

datatype parsed = Parsed flags | Ended nat

definition noSuchFlag :: "string \<Rightarrow> nat" where
  "noSuchFlag nm = (if nm = ''help'' \<or> nm = ''h'' then 0 else 2)"

text \<open>A flag of this program or of another module: what its value does, if it is accepted.\<close>

definition setString :: "flag_var \<Rightarrow> string \<Rightarrow> flags \<Rightarrow> flags option" where
  "setString var v fl =
     (case var of StringVar f \<Rightarrow> Some (f v fl) | BoolVar f \<Rightarrow> map_option (\<lambda>b. f b fl) (parseBool v))"

definition isBoolVar :: "flag_var \<Rightarrow> bool" where
  "isBoolVar var = (case var of StringVar _ \<Rightarrow> False | BoolVar _ \<Rightarrow> True)"

type_synonym extra_flags = "string \<Rightarrow> (bool \<times> (string \<Rightarrow> bool)) option"

definition lookupFlag :: "extra_flags \<Rightarrow> string \<Rightarrow> (bool \<times> (string \<Rightarrow> flags \<Rightarrow> flags option)) option" where
  "lookupFlag extra nm =
     (case map_of declaredFlags nm of
        Some var \<Rightarrow> Some (isBoolVar var, setString var)
      | None \<Rightarrow> map_option (\<lambda>(isBool, ok). (isBool, \<lambda>v fl. if ok v then Some fl else None)) (extra nm))"

fun parseFlags :: "extra_flags \<Rightarrow> flags \<Rightarrow> string list \<Rightarrow> parsed" where
  "parseFlags extra fl [] = Parsed fl"
| "parseFlags extra fl (a # as) =
     (case readArg a of
        NoFlag \<Rightarrow> Parsed fl
      | EndOfFlags \<Rightarrow> Parsed fl
      | BadSyntax \<Rightarrow> Ended 2
      | Flag nm v \<Rightarrow>
          (case lookupFlag extra nm of
             None \<Rightarrow> Ended (noSuchFlag nm)
           | Some (isBool, assign) \<Rightarrow>
               (case (if isBool \<and> v = None then Some ''true'' else v) of
                  Some x \<Rightarrow> (case assign x fl of None \<Rightarrow> Ended 2 | Some fl \<Rightarrow> parseFlags extra fl as)
                | None \<Rightarrow>
                    (case as of
                       [] \<Rightarrow> Ended 2
                     | x # bs \<Rightarrow> (case assign x fl of None \<Rightarrow> Ended 2 | Some fl \<Rightarrow> parseFlags extra fl bs)))))"

section \<open>The program\<close>

text \<open>The types are registered before the command line is read.\<close>

definition program ::
    "(boot_call \<Rightarrow> 'w \<Rightarrow> err \<times> 'w) \<Rightarrow> (nat \<Rightarrow> nat) \<Rightarrow> extra_flags \<Rightarrow> string list \<Rightarrow> 'w boot \<Rightarrow> nat \<times> 'w boot" where
  "program env grow extra args = initScheme env (\<lambda>s.
     case parseFlags extra defaultFlags args of
       Ended n \<Rightarrow> (n, s)
     | Parsed fl \<Rightarrow> mainProgram env grow fl s)"

section \<open>Round trip\<close>

definition showBool :: "bool \<Rightarrow> string" where
  "showBool b = (if b then ''true'' else ''false'')"

definition flagArg :: "string \<Rightarrow> string \<Rightarrow> string" where
  "flagArg nm v = ''--'' @ nm @ ''='' @ v"

text \<open>Every flag, spelled out.\<close>

definition commandLine :: "flags \<Rightarrow> string list" where
  "commandLine fl =
     [flagArg ''metrics-bind-address'' (flMetricsAddr fl),
      flagArg ''health-probe-bind-address'' (flProbeAddr fl),
      flagArg ''leader-elect'' (showBool (flLeaderElect fl)),
      flagArg ''metrics-secure'' (showBool (flSecureMetrics fl)),
      flagArg ''webhook-cert-path'' (flWebhookCertPath fl),
      flagArg ''webhook-cert-name'' (flWebhookCertName fl),
      flagArg ''webhook-cert-key'' (flWebhookCertKey fl),
      flagArg ''metrics-cert-path'' (flMetricsCertPath fl),
      flagArg ''metrics-cert-name'' (flMetricsCertName fl),
      flagArg ''metrics-cert-key'' (flMetricsCertKey fl),
      flagArg ''enable-http2'' (showBool (flEnableHTTP2 fl))]"

definition plainName :: "string \<Rightarrow> bool" where
  "plainName nm \<longleftrightarrow> nm \<noteq> [] \<and> hd nm \<noteq> CHR ''-'' \<and> CHR ''='' \<notin> set nm"

lemma split_at:
  "c \<notin> set xs \<Longrightarrow> takeWhile (\<lambda>x. x \<noteq> c) (xs @ c # ys) = xs"
  "c \<notin> set xs \<Longrightarrow> dropWhile (\<lambda>x. x \<noteq> c) (xs @ c # ys) = c # ys"
  by (induction xs) auto

lemma readArg_flagArg: "plainName nm \<Longrightarrow> readArg (flagArg nm v) = Flag nm (Some v)"
  by (cases nm) (auto simp: plainName_def flagArg_def splitValue_def split_at)

lemma declared_plain: "map_of declaredFlags nm = Some var \<Longrightarrow> plainName nm"
  by (auto simp: declaredFlags_def plainName_def split: if_splits)

lemma parseFlags_declared:
  assumes "map_of declaredFlags nm = Some var"
  shows "parseFlags extra fl (flagArg nm v # as) =
    (case setString var v fl of None \<Rightarrow> Ended 2 | Some fl \<Rightarrow> parseFlags extra fl as)"
  using assms by (simp add: readArg_flagArg [OF declared_plain [OF assms]] lookupFlag_def)

lemma parseBool_showBool [simp]: "parseBool (showBool b) = Some b"
  by (simp add: parseBool_def showBool_def)

lemma parseFlags_string:
  "map_of declaredFlags nm = Some (StringVar f) \<Longrightarrow>
   parseFlags extra fl (flagArg nm v # as) = parseFlags extra (f v fl) as"
  by (simp add: parseFlags_declared setString_def del: parseFlags.simps(2))

lemma parseFlags_bool:
  "map_of declaredFlags nm = Some (BoolVar f) \<Longrightarrow>
   parseFlags extra fl (flagArg nm (showBool b) # as) = parseFlags extra (f b fl) as"
  by (simp add: parseFlags_declared setString_def del: parseFlags.simps(2))

text \<open>
  C32. Every setting of the flags can be given on the command line: whatever the
  flags were before, spelling all of them out and parsing that gives back exactly these flags,
  and the process then is the one with these flags; so the flags of a process are determined by
  its arguments. A flag that nothing declares, in first place, ends the process with exit code
  2 before anything is configured, unless it asks for help.
\<close>

theorem flags_roundtrip:
  "parseFlags extra fl0 (commandLine fl) = Parsed fl
   \<and> program env grow extra (commandLine fl) = process env grow fl
   \<and> (\<forall>nm v as. plainName nm \<and> nm \<notin> {''help'', ''h''} \<and> map_of declaredFlags nm = None \<and> extra nm = None
        \<longrightarrow> program env grow extra (flagArg nm v # as) = initScheme env (Pair 2))"
proof -
  have parse: "parseFlags extra fl0 (commandLine fl) = Parsed fl" for fl0
    unfolding commandLine_def
    by (simp add: parseFlags_string parseFlags_bool declaredFlags_def del: parseFlags.simps(2))
  have "parseFlags extra fl0 (flagArg nm v # as) = Ended 2"
    if "plainName nm" "nm \<notin> {''help'', ''h''}" "map_of declaredFlags nm = None" "extra nm = None" for nm v as fl0
    using that by (simp add: readArg_flagArg lookupFlag_def noSuchFlag_def)
  with parse show ?thesis by (simp add: program_def process_def fun_eq_iff)
qed

theorem flags_roundtrip_witness:
  "program (\<lambda>_ w. (None, w :: nat)) Suc (\<lambda>_. None) [''--port=1''] (0, [])
     = (2, (0, [(AddClientGoTypes, None), (AddTypes trainingTypes, None)]))"
proof -
  have "flagArg ''port'' ''1'' = ''--port=1''" by (simp add: flagArg_def)
  moreover have "program (\<lambda>_ w. (None, w :: nat)) Suc (\<lambda>_. None) (flagArg ''port'' ''1'' # [])
      = initScheme (\<lambda>_ w. (None, w :: nat)) (Pair 2)"
    using flags_roundtrip [of "\<lambda>_. None" defaultFlags defaultFlags "\<lambda>_ w. (None, w :: nat)" Suc]
    by (simp add: plainName_def declaredFlags_def)
  ultimately show ?thesis by (simp add: initScheme_def mustCall_def)
qed

end
