(* ===== verification/Memory.thy ===== *)
theory Memory
  imports Prelude
begin

text \<open>
  Memory with pointers, for the code whose point is what is shared and what is not: deep
  copies. A heap is a list of cells, an address an index into it, a nil pointer None.
  Allocation appends a cell; the numbers of addresses mean nothing else. A slice is a pointer to the
  cell with its elements. Copying the fields of a structure is put together from the
  combinators below, one for each shape of a field, and each of them keeps the contract of the
  locale deep_copy.
\<close>

section \<open>Heaps\<close>

type_synonym addr = nat

type_synonym 'c heap = "'c list"

definition cellAt :: "'c heap \<Rightarrow> addr \<Rightarrow> 'c option" where
  "cellAt h a = (if a < length h then Some (h ! a) else None)"

definition deref :: "'c heap \<Rightarrow> addr option \<Rightarrow> 'c option" where
  "deref h p = Option.bind p (cellAt h)"

lemma cellAt_append [simp]: "a < length h \<Longrightarrow> cellAt (h @ xs) a = cellAt h a"
  by (simp add: cellAt_def nth_append)

lemma cellAt_new [simp]: "cellAt (h @ c # xs) (length h) = Some c"
  by (simp add: cellAt_def)

lemma cellAt_update [simp]: "a \<noteq> b \<Longrightarrow> cellAt (h[a := c]) b = cellAt h b"
  by (simp add: cellAt_def)

lemma deref_simps [simp]: "deref h None = None" "deref h (Some a) = cellAt h a"
  by (simp_all add: deref_def)

text \<open>Two heaps agree on a set of addresses.\<close>

definition agree :: "addr set \<Rightarrow> 'c heap \<Rightarrow> 'c heap \<Rightarrow> bool" where
  "agree A h h' \<longleftrightarrow> (\<forall>a. a \<in> A \<longrightarrow> cellAt h' a = cellAt h a)"

lemma agree_mono: "agree B h h' \<Longrightarrow> A \<subseteq> B \<Longrightarrow> agree A h h'"
  by (auto simp: agree_def)

lemma agree_Un [simp]: "agree (A \<union> B) h h' \<longleftrightarrow> agree A h h' \<and> agree B h h'"
  by (auto simp: agree_def)

lemma agree_append: "A \<subseteq> {..<length h} \<Longrightarrow> agree A h (h @ xs)"
  by (auto simp: agree_def)

lemma agree_update: "a \<notin> A \<Longrightarrow> agree A h (h[a := c])"
  unfolding agree_def by (metis cellAt_update)

lemma agree_deref: "agree (set_option p) h h' \<Longrightarrow> deref h' p = deref h p"
  by (cases p) (auto simp: agree_def)

section \<open>The contract of a deep copy\<close>

text \<open>
  What a value means depends on the cells it reaches only; a copy adds cells and changes none,
  means the same, and reaches new cells only.
\<close>

locale deep_copy =
  fixes copy :: "'s \<Rightarrow> 'c heap \<Rightarrow> 's \<times> 'c heap"
    and view :: "'c heap \<Rightarrow> 's \<Rightarrow> 'v"
    and reach :: "'c heap \<Rightarrow> 's \<Rightarrow> addr set"
  assumes frame: "agree (reach h v) h h' \<Longrightarrow> view h' v = view h v"
    and reach_frame: "agree (reach h v) h h' \<Longrightarrow> reach h' v = reach h v"
    and copies: "reach h v \<subseteq> {..<length h} \<Longrightarrow> copy v h = (v', h') \<Longrightarrow>
      (\<exists>xs. h' = h @ xs) \<and> view h' v' = view h v \<and> reach h' v' \<subseteq> {length h..<length h'}"
begin

lemma extends: "reach h v \<subseteq> {..<length h} \<Longrightarrow> copy v h = (v', h') \<Longrightarrow> \<exists>xs. h' = h @ xs"
  and same: "reach h v \<subseteq> {..<length h} \<Longrightarrow> copy v h = (v', h') \<Longrightarrow> view h' v' = view h v"
  and fresh: "reach h v \<subseteq> {..<length h} \<Longrightarrow> copy v h = (v', h') \<Longrightarrow> reach h' v' \<subseteq> {length h..<length h'}"
  using copies by blast+

text \<open>Later allocations change nothing about a value without dangling pointers.\<close>

lemma later: "reach h v \<subseteq> {..<length h} \<Longrightarrow> view (h @ xs) v = view h v"
  and reach_later: "reach h v \<subseteq> {..<length h} \<Longrightarrow> reach (h @ xs) v = reach h v"
  using frame reach_frame agree_append by blast+

text \<open>Writes to new cells leave the original alone, writes to old ones leave the copy alone.\<close>

lemma isolated:
  assumes "reach h v \<subseteq> {..<length h}" "copy v h = (v', h')"
  shows "view h' v' = view h v \<and> view h' v = view h v
    \<and> (if a < length h then view (h'[a := c]) v' = view h v else view (h'[a := c]) v = view h v)"
proof -
  from extends [OF assms] obtain xs where h': "h' = h @ xs" by blast
  have 1: "view h' v = view h v" "reach h' v = reach h v"
    using assms(1) by (simp_all add: h' later reach_later)
  have "view (h'[a := c]) v' = view h' v'" if "a < length h"
    using that fresh [OF assms] by (intro frame agree_update) fastforce
  moreover have "view (h'[a := c]) v = view h' v" if "\<not> a < length h"
    using that assms(1) by (intro frame agree_update) (fastforce simp: 1)
  ultimately show ?thesis using 1 same [OF assms] by simp
qed

end

section \<open>Fields\<close>

text \<open>A field without pointers in it: the assignment of the structure has copied it.\<close>

definition copyFlat :: "'s \<Rightarrow> 'c heap \<Rightarrow> 's \<times> 'c heap" where
  "copyFlat v h = (v, h)"

text \<open>
  A pointer to such a value, or a slice of them: a new cell with the same contents, unless it
  is nil.
\<close>

definition copyNew :: "addr option \<Rightarrow> 'c heap \<Rightarrow> addr option \<times> 'c heap" where
  "copyNew p h =
     (case deref h p of
        None \<Rightarrow> (None, h)
      | Some c \<Rightarrow> (Some (length h), h @ [c]))"

text \<open>
  A pointer to a structure with a deep copy of its own. The cell holds it as get and mk say; a
  cell of another type cannot be there in a typed language.
\<close>

definition copyDeep ::
    "('s \<Rightarrow> 'c heap \<Rightarrow> 's \<times> 'c heap) \<Rightarrow> ('c \<Rightarrow> 's option) \<Rightarrow> ('s \<Rightarrow> 'c)
       \<Rightarrow> addr option \<Rightarrow> 'c heap \<Rightarrow> addr option \<times> 'c heap" where
  "copyDeep copy get mk p h =
     (case Option.bind (deref h p) get of
        None \<Rightarrow> (None, h)
      | Some s \<Rightarrow> (case copy s h of (s', h) \<Rightarrow> (Some (length h), h @ [mk s'])))"

text \<open>The loop over the elements of a slice.\<close>

fun copyAll :: "('s \<Rightarrow> 'c heap \<Rightarrow> 's \<times> 'c heap) \<Rightarrow> 's list \<Rightarrow> 'c heap \<Rightarrow> 's list \<times> 'c heap" where
  "copyAll copy [] h = ([], h)"
| "copyAll copy (x # xs) h =
     (case copy x h of (x', h) \<Rightarrow> (case copyAll copy xs h of (xs', h) \<Rightarrow> (x' # xs', h)))"

text \<open>Two fields, one after the other.\<close>

definition copyPair ::
    "('s \<Rightarrow> 'c heap \<Rightarrow> 's \<times> 'c heap) \<Rightarrow> ('t \<Rightarrow> 'c heap \<Rightarrow> 't \<times> 'c heap)
       \<Rightarrow> 's \<times> 't \<Rightarrow> 'c heap \<Rightarrow> ('s \<times> 't) \<times> 'c heap" where
  "copyPair c d = (\<lambda>(x, y) h. case c x h of (x', h) \<Rightarrow> (case d y h of (y', h) \<Rightarrow> ((x', y'), h)))"

section \<open>The fields keep the contract\<close>

lemma deep_copyFlat: "deep_copy copyFlat (\<lambda>_ v. f v) (\<lambda>_ _. {})"
  by unfold_locales (auto simp: copyFlat_def)

lemma deep_copyNew: "deep_copy copyNew (\<lambda>h p. f (deref h p)) (\<lambda>_ p. set_option p)"
proof unfold_locales
  fix h h' :: "'a heap" and p p' :: "addr option"
  show "agree (set_option p) h h' \<Longrightarrow> f (deref h' p) = f (deref h p)"
    by (simp add: agree_deref)
  assume "set_option p \<subseteq> {..<length h}" "copyNew p h = (p', h')"
  then show "(\<exists>xs. h' = h @ xs) \<and> f (deref h' p') = f (deref h p) \<and> set_option p' \<subseteq> {length h..<length h'}"
    by (cases p) (auto simp: copyNew_def cellAt_def split: option.splits)
qed simp

lemma deep_copyDeep:
  fixes copy :: "'s \<Rightarrow> 'c heap \<Rightarrow> 's \<times> 'c heap"
  assumes d: "deep_copy copy view reach" and get: "\<And>s. get (mk s) = Some s"
  shows "deep_copy (copyDeep copy get mk)
    (\<lambda>h p. map_option (view h) (Option.bind (deref h p) get))
    (\<lambda>h p. set_option p \<union> (case Option.bind (deref h p) get of None \<Rightarrow> {} | Some s \<Rightarrow> reach h s))"
proof -
  note frame = deep_copy.frame [OF d] and reach_frame = deep_copy.reach_frame [OF d]
    and copies = deep_copy.copies [OF d] and later = deep_copy.later [OF d]
    and reach_later = deep_copy.reach_later [OF d]
  show ?thesis
  proof unfold_locales
    fix h h' :: "'c heap" and p p' :: "addr option"
    assume a: "agree (set_option p \<union> (case Option.bind (deref h p) get of None \<Rightarrow> {} | Some s \<Rightarrow> reach h s)) h h'"
    then have "deref h' p = deref h p" by (simp add: agree_deref)
    with a show "map_option (view h') (Option.bind (deref h' p) get) = map_option (view h) (Option.bind (deref h p) get)"
      "set_option p \<union> (case Option.bind (deref h' p) get of None \<Rightarrow> {} | Some s \<Rightarrow> reach h' s)
         = set_option p \<union> (case Option.bind (deref h p) get of None \<Rightarrow> {} | Some s \<Rightarrow> reach h s)"
      by (auto split: option.splits simp: frame reach_frame)
  next
    fix h h' :: "'c heap" and p p' :: "addr option"
    assume w: "set_option p \<union> (case Option.bind (deref h p) get of None \<Rightarrow> {} | Some s \<Rightarrow> reach h s) \<subseteq> {..<length h}"
      and c: "copyDeep copy get mk p h = (p', h')"
    show "(\<exists>xs. h' = h @ xs)
       \<and> map_option (view h') (Option.bind (deref h' p') get) = map_option (view h) (Option.bind (deref h p) get)
       \<and> set_option p' \<union> (case Option.bind (deref h' p') get of None \<Rightarrow> {} | Some s \<Rightarrow> reach h' s) \<subseteq> {length h..<length h'}"
    proof (cases "Option.bind (deref h p) get")
      case None
      with c show ?thesis by (auto simp: copyDeep_def)
    next
      case (Some s)
      obtain s' h1 where s: "copy s h = (s', h1)" by fastforce
      with c Some have p': "p' = Some (length h1)" "h' = h1 @ [mk s']" by (auto simp: copyDeep_def)
      from w Some have ws: "reach h s \<subseteq> {..<length h}" by auto
      from copies [OF ws s] obtain xs where h1: "h1 = h @ xs" "view h1 s' = view h s"
        and r: "reach h1 s' \<subseteq> {length h..<length h1}" by blast
      from r have old: "reach h1 s' \<subseteq> {..<length h1}" by auto
      have new: "deref h' p' = Some (mk s')" by (simp only: p' deref_simps cellAt_new)
      have "view h' s' = view h s" "reach h' s' = reach h1 s'"
        using later [OF old, of "[mk s']"] reach_later [OF old, of "[mk s']"] h1(2) p'(2) by simp_all
      with new r p' h1(1) Some get show ?thesis by fastforce
    qed
  qed
qed

lemma deep_copyAll:
  fixes copy :: "'s \<Rightarrow> 'c heap \<Rightarrow> 's \<times> 'c heap"
  assumes d: "deep_copy copy view reach"
  shows "deep_copy (copyAll copy) (\<lambda>h. map (view h)) (\<lambda>h xs. \<Union>x\<in>set xs. reach h x)"
proof -
  note frame = deep_copy.frame [OF d] and reach_frame = deep_copy.reach_frame [OF d]
    and copies = deep_copy.copies [OF d] and later = deep_copy.later [OF d]
    and reach_later = deep_copy.reach_later [OF d]
  show ?thesis
  proof unfold_locales
    fix h h' :: "'c heap" and xs xs' :: "'s list"
    assume "agree (\<Union>x\<in>set xs. reach h x) h h'"
    then have "agree (reach h x) h h'" if "x \<in> set xs" for x using that by (auto simp: agree_def)
    then have "view h' x = view h x" "reach h' x = reach h x" if "x \<in> set xs" for x
      using that frame reach_frame by blast+
    then show "map (view h') xs = map (view h) xs" "(\<Union>x\<in>set xs. reach h' x) = (\<Union>x\<in>set xs. reach h x)"
      by simp_all
  next
    fix h h' :: "'c heap" and xs xs' :: "'s list"
    show "(\<Union>x\<in>set xs. reach h x) \<subseteq> {..<length h} \<Longrightarrow> copyAll copy xs h = (xs', h') \<Longrightarrow>
      (\<exists>ys. h' = h @ ys) \<and> map (view h') xs' = map (view h) xs
        \<and> (\<Union>x\<in>set xs'. reach h' x) \<subseteq> {length h..<length h'}"
    proof (induction xs arbitrary: h xs' h')
      case (Cons x xs)
      obtain x' h1 where x: "copy x h = (x', h1)" by fastforce
      obtain ys' h2 where ys: "copyAll copy xs h1 = (ys', h2)" by fastforce
      from Cons.prems x ys have xs': "xs' = x' # ys'" "h' = h2" by auto
      from Cons.prems(1) have w: "reach h x \<subseteq> {..<length h}" "\<And>y. y \<in> set xs \<Longrightarrow> reach h y \<subseteq> {..<length h}"
        by auto
      from copies [OF w(1) x] obtain zs where h1: "h1 = h @ zs" "view h1 x' = view h x"
        and r1: "reach h1 x' \<subseteq> {length h..<length h1}" by blast
      have "(\<Union>y\<in>set xs. reach h1 y) \<subseteq> {..<length h1}" using w(2) h1(1) reach_later by fastforce
      from Cons.IH [OF this ys] obtain zs' where h2: "h2 = h1 @ zs'" "map (view h2) ys' = map (view h1) xs"
        and r2: "(\<Union>y\<in>set ys'. reach h2 y) \<subseteq> {length h1..<length h2}" by blast
      from r1 have "reach h1 x' \<subseteq> {..<length h1}" by auto
      then have "view h2 x' = view h x" "reach h2 x' = reach h1 x'" using h1(2) h2(1) later reach_later by metis+
      moreover have "map (view h1) xs = map (view h) xs" using w(2) h1 later by auto
      ultimately show ?case using xs' h1 h2 r1 r2 by fastforce
    qed simp
  qed
qed

lemma deep_copyPair:
  assumes "deep_copy c v r" "deep_copy d w q"
  shows "deep_copy (copyPair c d) (\<lambda>h (x, y). (v h x, w h y)) (\<lambda>h (x, y). r h x \<union> q h y)"
proof -
  note frame = deep_copy.frame [OF assms(1)] deep_copy.frame [OF assms(2)]
    and reach_frame = deep_copy.reach_frame [OF assms(1)] deep_copy.reach_frame [OF assms(2)]
    and later = deep_copy.later [OF assms(1)] deep_copy.later [OF assms(2)]
    and reach_later = deep_copy.reach_later [OF assms(1)] deep_copy.reach_later [OF assms(2)]
  show ?thesis
  proof unfold_locales
    fix h h' :: "'b heap" and p p'
    assume "agree (case p of (x, y) \<Rightarrow> r h x \<union> q h y) h h'"
    then show "(case p of (x, y) \<Rightarrow> (v h' x, w h' y)) = (case p of (x, y) \<Rightarrow> (v h x, w h y))"
      "(case p of (x, y) \<Rightarrow> r h' x \<union> q h' y) = (case p of (x, y) \<Rightarrow> r h x \<union> q h y)"
      by (auto simp: frame reach_frame split: prod.splits)
  next
    fix h h' :: "'b heap" and p p'
    assume wf: "(case p of (x, y) \<Rightarrow> r h x \<union> q h y) \<subseteq> {..<length h}" and run: "copyPair c d p h = (p', h')"
    obtain x y where p: "p = (x, y)" by fastforce
    obtain x' h1 where x: "c x h = (x', h1)" by fastforce
    obtain y' where y: "d y h1 = (y', h')" and p': "p' = (x', y')"
      using run p x by (auto simp: copyPair_def split: prod.splits)
    from wf p have w: "r h x \<subseteq> {..<length h}" "q h y \<subseteq> {..<length h}" by auto
    from deep_copy.copies [OF assms(1) w(1) x] obtain xs where h1: "h1 = h @ xs" "v h1 x' = v h x"
      "r h1 x' \<subseteq> {length h..<length h1}" by blast
    from w(2) h1(1) have "q h1 y \<subseteq> {..<length h1}" "w h1 y = w h y"
      using reach_later(2) later(2) by fastforce+
    from deep_copy.copies [OF assms(2) this(1) y] this(2) obtain ys where h': "h' = h1 @ ys" "w h' y' = w h y"
      "q h' y' \<subseteq> {length h1..<length h'}" by auto
    from h1(3) have "r h1 x' \<subseteq> {..<length h1}" by auto
    then have "v h' x' = v h x" "r h' x' = r h1 x'" using h1(2) h'(1) later(1) reach_later(1) by metis+
    with p p' h1 h' show "(\<exists>xs. h' = h @ xs)
        \<and> (case p' of (x, y) \<Rightarrow> (v h' x, w h' y)) = (case p of (x, y) \<Rightarrow> (v h x, w h y))
        \<and> (case p' of (x, y) \<Rightarrow> r h' x \<union> q h' y) \<subseteq> {length h..<length h'}"
      by fastforce
  qed
qed

text \<open>
  A structure: the assignment of the whole, then copies of some of its fields, gathered in a
  tuple by get and put back by put.
\<close>

lemma deep_copy_struct:
  assumes d: "deep_copy c v r"
    and copy: "\<And>s h. copy s h = (case c (get s) h of (t, h') \<Rightarrow> (put t s, h'))"
    and view: "\<And>h s. view h s = build s (v h (get s))"
    and reach: "\<And>h s. reach h s = r h (get s)"
    and lens: "\<And>s t. get (put t s) = t" "\<And>s t x. build (put t s) x = build s x"
  shows "deep_copy copy view reach"
proof -
  note frame = deep_copy.frame [OF d] and reach_frame = deep_copy.reach_frame [OF d]
    and copies = deep_copy.copies [OF d]
  show ?thesis
    by unfold_locales (auto simp: copy view reach lens frame reach_frame dest!: copies split: prod.splits)
qed

end
