(* ===== verification/MemObjects.thy ===== *)
theory MemObjects
  imports Memory Api
begin

text \<open>
  The objects of \<^verbatim>\<open>api/v1alpha1\<close> as they lie in memory, with addresses where the Go
  structs have pointers and slices, and what they mean: the value of \<^theory_text>\<open>Api\<close> the rest
  of the development works with, and the addresses that value depends on. Values of types of
  other modules (metadata, conditions, times, owner references, job templates) are an abstract
  type; their deep copies and views are parameters, with the contract of
  \<^theory_text>\<open>Memory\<close>.
\<close>

section \<open>Objects in memory\<close>

record mem_checkpoint_config =
  mcImageRepo :: string
  mcInterval :: int
  mcCredentialRef :: "addr option"
  mcStorage :: "addr option"

record mem_gcp_config =
  mgProject :: string
  mgZone :: string
  mgRegion :: string
  mgMachineType :: string
  mgDiskSizeGB :: int
  mgDiskType :: string
  mgNetworkTags :: "addr option"
  mgServiceAccount :: string

record mem_template_spec =
  mtVMImage :: string
  mtGPU :: "addr option"
  mtGCP :: mem_gcp_config
  mtStartupScript :: string
  mtPreemptible :: "addr option"

record mem_template_status =
  mtConditions :: "addr option"

record 'x mem_template =
  mtMeta :: 'x
  mtSpec :: mem_template_spec
  mtStatus :: mem_template_status

record mem_pi_spec =
  mpTemplateName :: string
  mpTemplateNamespace :: string
  mpSpotJobRef :: "addr option"
  mpCredentialsRef :: secret_ref

record mem_pi_status =
  mpConditions :: "addr option"
  mpInstanceID :: string
  mpInstanceName :: string
  mpInternalIP :: string
  mpExternalIP :: string
  mpState :: string
  mpNodeName :: string
  mpJoinedCluster :: bool
  mpCreationTime :: "addr option"
  mpPreemptionNotice :: bool

record 'x mem_instance =
  mpMeta :: 'x
  mpSpec :: mem_pi_spec
  mpStatus :: mem_pi_status

record 'x mem_sij_spec =
  msReplicas :: "addr option"
  msJobTemplate :: 'x
  msCheckpointConfig :: mem_checkpoint_config
  msInstanceTemplateRef :: local_ref
  msCredentialsRef :: secret_ref

record mem_sij_status =
  msConditions :: "addr option"
  msActiveReplicas :: int
  msLastCheckpointTime :: "addr option"
  msLastCheckpointImage :: string
  msJobStatuses :: "addr option"

record 'x mem_spot_job =
  msMeta :: 'x
  msSpec :: "'x mem_sij_spec"
  msStatus :: mem_sij_status

text \<open>A list object: its metadata and its slice of items.\<close>

record 'x mem_list =
  mlMeta :: 'x
  mlItems :: "addr option"

datatype 'x cell =
    CBool bool
  | CInt int
  | CStrings "string list"
  | CSecretRef secret_ref
  | CStorage checkpoint_storage
  | CGPU gpu_config
  | CReplicaStatuses "job_replica_status list"
  | CForeign 'x
  | CForeigns "'x list"
  | CTemplateSpec mem_template_spec
  | CTemplates "'x mem_template list"
  | CInstances "'x mem_instance list"
  | CSpotJobs "'x mem_spot_job list"
  | CTemplate "'x mem_template"
  | CInstance "'x mem_instance"
  | CSpotJob "'x mem_spot_job"
  | CCheckpointConfig mem_checkpoint_config
  | CGCPConfig mem_gcp_config
  | CTemplateStatus mem_template_status
  | CReplicaStatus job_replica_status
  | CPISpec mem_pi_spec
  | CPIStatus mem_pi_status
  | CSIJSpec "'x mem_sij_spec"
  | CSIJStatus mem_sij_status
  | CTemplateList "'x mem_list"
  | CInstanceList "'x mem_list"
  | CSpotJobList "'x mem_list"

type_synonym 'x mem = "'x cell heap"

text \<open>The contents of a cell by its type; Go's types exclude the other cases.\<close>

definition asForeign :: "'x cell \<Rightarrow> 'x option" where
  "asForeign c = (case c of CForeign x \<Rightarrow> Some x | _ \<Rightarrow> None)"

definition asForeigns :: "'x cell \<Rightarrow> 'x list option" where
  "asForeigns c = (case c of CForeigns xs \<Rightarrow> Some xs | _ \<Rightarrow> None)"

definition asTemplateSpec :: "'x cell \<Rightarrow> mem_template_spec option" where
  "asTemplateSpec c = (case c of CTemplateSpec x \<Rightarrow> Some x | _ \<Rightarrow> None)"

definition asTemplates :: "'x cell \<Rightarrow> 'x mem_template list option" where
  "asTemplates c = (case c of CTemplates xs \<Rightarrow> Some xs | _ \<Rightarrow> None)"

definition asInstances :: "'x cell \<Rightarrow> 'x mem_instance list option" where
  "asInstances c = (case c of CInstances xs \<Rightarrow> Some xs | _ \<Rightarrow> None)"

definition asSpotJobs :: "'x cell \<Rightarrow> 'x mem_spot_job list option" where
  "asSpotJobs c = (case c of CSpotJobs xs \<Rightarrow> Some xs | _ \<Rightarrow> None)"

definition asTemplate :: "'x cell \<Rightarrow> 'x mem_template option" where
  "asTemplate c = (case c of CTemplate x \<Rightarrow> Some x | _ \<Rightarrow> None)"

definition asInstance :: "'x cell \<Rightarrow> 'x mem_instance option" where
  "asInstance c = (case c of CInstance x \<Rightarrow> Some x | _ \<Rightarrow> None)"

definition asSpotJob :: "'x cell \<Rightarrow> 'x mem_spot_job option" where
  "asSpotJob c = (case c of CSpotJob x \<Rightarrow> Some x | _ \<Rightarrow> None)"

definition asStorage :: "'x cell \<Rightarrow> checkpoint_storage option" where
  "asStorage c = (case c of CStorage x \<Rightarrow> Some x | _ \<Rightarrow> None)"

definition asGPU :: "'x cell \<Rightarrow> gpu_config option" where
  "asGPU c = (case c of CGPU x \<Rightarrow> Some x | _ \<Rightarrow> None)"

definition asCheckpointConfig :: "'x cell \<Rightarrow> mem_checkpoint_config option" where
  "asCheckpointConfig c = (case c of CCheckpointConfig x \<Rightarrow> Some x | _ \<Rightarrow> None)"

definition asGCPConfig :: "'x cell \<Rightarrow> mem_gcp_config option" where
  "asGCPConfig c = (case c of CGCPConfig x \<Rightarrow> Some x | _ \<Rightarrow> None)"

definition asTemplateStatus :: "'x cell \<Rightarrow> mem_template_status option" where
  "asTemplateStatus c = (case c of CTemplateStatus x \<Rightarrow> Some x | _ \<Rightarrow> None)"

definition asReplicaStatus :: "'x cell \<Rightarrow> job_replica_status option" where
  "asReplicaStatus c = (case c of CReplicaStatus x \<Rightarrow> Some x | _ \<Rightarrow> None)"

definition asPISpec :: "'x cell \<Rightarrow> mem_pi_spec option" where
  "asPISpec c = (case c of CPISpec x \<Rightarrow> Some x | _ \<Rightarrow> None)"

definition asPIStatus :: "'x cell \<Rightarrow> mem_pi_status option" where
  "asPIStatus c = (case c of CPIStatus x \<Rightarrow> Some x | _ \<Rightarrow> None)"

definition asSIJSpec :: "'x cell \<Rightarrow> 'x mem_sij_spec option" where
  "asSIJSpec c = (case c of CSIJSpec x \<Rightarrow> Some x | _ \<Rightarrow> None)"

definition asSIJStatus :: "'x cell \<Rightarrow> mem_sij_status option" where
  "asSIJStatus c = (case c of CSIJStatus x \<Rightarrow> Some x | _ \<Rightarrow> None)"

definition asTemplateList :: "'x cell \<Rightarrow> 'x mem_list option" where
  "asTemplateList c = (case c of CTemplateList x \<Rightarrow> Some x | _ \<Rightarrow> None)"

definition asInstanceList :: "'x cell \<Rightarrow> 'x mem_list option" where
  "asInstanceList c = (case c of CInstanceList x \<Rightarrow> Some x | _ \<Rightarrow> None)"

definition asSpotJobList :: "'x cell \<Rightarrow> 'x mem_list option" where
  "asSpotJobList c = (case c of CSpotJobList x \<Rightarrow> Some x | _ \<Rightarrow> None)"

lemma as_cell [simp]:
  "asForeign (CForeign x) = Some x" "asForeigns (CForeigns xs) = Some xs"
  "asTemplateSpec (CTemplateSpec ts) = Some ts" "asTemplates (CTemplates ys) = Some ys"
  "asInstances (CInstances zs) = Some zs" "asSpotJobs (CSpotJobs ws) = Some ws"
  "asTemplate (CTemplate y) = Some y" "asInstance (CInstance z) = Some z" "asSpotJob (CSpotJob w) = Some w"
  "asStorage (CStorage v0) = Some v0"
  "asGPU (CGPU v1) = Some v1"
  "asCheckpointConfig (CCheckpointConfig v2) = Some v2"
  "asGCPConfig (CGCPConfig v3) = Some v3"
  "asTemplateStatus (CTemplateStatus v4) = Some v4"
  "asReplicaStatus (CReplicaStatus v5) = Some v5"
  "asPISpec (CPISpec v6) = Some v6"
  "asPIStatus (CPIStatus v7) = Some v7"
  "asSIJSpec (CSIJSpec v8) = Some v8"
  "asSIJStatus (CSIJStatus v9) = Some v9"
  "asTemplateList (CTemplateList v10) = Some v10"
  "asInstanceList (CInstanceList v11) = Some v11"
  "asSpotJobList (CSpotJobList v12) = Some v12"
  by (simp_all add: asStorage_def asGPU_def asCheckpointConfig_def asGCPConfig_def asTemplateStatus_def asReplicaStatus_def asPISpec_def asPIStatus_def asSIJSpec_def asSIJStatus_def asTemplateList_def asInstanceList_def asSpotJobList_def
      asForeign_def asForeigns_def asTemplateSpec_def asTemplates_def asInstances_def
      asSpotJobs_def asTemplate_def asInstance_def asSpotJob_def)

section \<open>The types of other modules\<close>

text \<open>Their deep copies, and what their values mean.\<close>

record ('x, 'm) foreign_copies =
  fObjectMeta :: "'x \<Rightarrow> 'x mem \<Rightarrow> 'x \<times> 'x mem"
  fListMeta :: "'x \<Rightarrow> 'x mem \<Rightarrow> 'x \<times> 'x mem"
  fJobTemplate :: "'x \<Rightarrow> 'x mem \<Rightarrow> 'x \<times> 'x mem"
  fCondition :: "'x \<Rightarrow> 'x mem \<Rightarrow> 'x \<times> 'x mem"
  fOwnerRef :: "'x \<Rightarrow> 'x mem \<Rightarrow> 'x \<times> 'x mem"
  fTime :: "'x \<Rightarrow> 'x mem \<Rightarrow> 'x \<times> 'x mem"
  vObjectMeta :: "'x mem \<Rightarrow> 'x \<Rightarrow> obj_meta"
  vListMeta :: "'x mem \<Rightarrow> 'x \<Rightarrow> 'm"
  vJobTemplate :: "'x mem \<Rightarrow> 'x \<Rightarrow> job_spec"
  vCondition :: "'x mem \<Rightarrow> 'x \<Rightarrow> condition"
  vOwnerRef :: "'x mem \<Rightarrow> 'x \<Rightarrow> owner_ref"
  vTime :: "'x mem \<Rightarrow> 'x \<Rightarrow> int"
  fReach :: "'x mem \<Rightarrow> 'x \<Rightarrow> addr set"

locale foreign_types =
  fixes F :: "('x, 'm) foreign_copies"
  assumes object_meta: "deep_copy (fObjectMeta F) (vObjectMeta F) (fReach F)"
    and list_meta: "deep_copy (fListMeta F) (vListMeta F) (fReach F)"
    and job_template: "deep_copy (fJobTemplate F) (vJobTemplate F) (fReach F)"
    and condition: "deep_copy (fCondition F) (vCondition F) (fReach F)"
    and owner_ref: "deep_copy (fOwnerRef F) (vOwnerRef F) (fReach F)"
    and time: "deep_copy (fTime F) (vTime F) (fReach F)"

section \<open>What objects mean\<close>

definition viewBool :: "'x cell option \<Rightarrow> bool option" where
  "viewBool c = (case c of Some (CBool b) \<Rightarrow> Some b | _ \<Rightarrow> None)"

definition viewInt :: "'x cell option \<Rightarrow> int option" where
  "viewInt c = (case c of Some (CInt i) \<Rightarrow> Some i | _ \<Rightarrow> None)"

definition viewStrings :: "'x cell option \<Rightarrow> string list" where
  "viewStrings c = (case c of Some (CStrings xs) \<Rightarrow> xs | _ \<Rightarrow> [])"

definition viewSecretRef :: "'x cell option \<Rightarrow> secret_ref option" where
  "viewSecretRef c = (case c of Some (CSecretRef x) \<Rightarrow> Some x | _ \<Rightarrow> None)"

definition viewStorage :: "'x cell option \<Rightarrow> checkpoint_storage option" where
  "viewStorage c = (case c of Some (CStorage x) \<Rightarrow> Some x | _ \<Rightarrow> None)"

definition viewGPU :: "'x cell option \<Rightarrow> gpu_config option" where
  "viewGPU c = (case c of Some (CGPU x) \<Rightarrow> Some x | _ \<Rightarrow> None)"

definition viewReplicaStatuses :: "'x cell option \<Rightarrow> job_replica_status list" where
  "viewReplicaStatuses c = (case c of Some (CReplicaStatuses xs) \<Rightarrow> xs | _ \<Rightarrow> [])"

text \<open>A pointer to, and a slice of, values that have a view of their own.\<close>

definition viewPtr :: "('x mem \<Rightarrow> 's \<Rightarrow> 'v) \<Rightarrow> ('x cell \<Rightarrow> 's option) \<Rightarrow> 'x mem \<Rightarrow> addr option \<Rightarrow> 'v option" where
  "viewPtr view get h p = map_option (view h) (Option.bind (deref h p) get)"

definition viewSlice ::
    "('x mem \<Rightarrow> 's \<Rightarrow> 'v) \<Rightarrow> ('x cell \<Rightarrow> 's list option) \<Rightarrow> 'x mem \<Rightarrow> addr option \<Rightarrow> 'v list" where
  "viewSlice view get h p =
     (case Option.bind (deref h p) get of None \<Rightarrow> [] | Some xs \<Rightarrow> map (view h) xs)"

definition reachPtr ::
    "('x mem \<Rightarrow> 's \<Rightarrow> addr set) \<Rightarrow> ('x cell \<Rightarrow> 's option) \<Rightarrow> 'x mem \<Rightarrow> addr option \<Rightarrow> addr set" where
  "reachPtr reach get h p =
     set_option p \<union> (case Option.bind (deref h p) get of None \<Rightarrow> {} | Some x \<Rightarrow> reach h x)"

definition reachSlice ::
    "('x mem \<Rightarrow> 's \<Rightarrow> addr set) \<Rightarrow> ('x cell \<Rightarrow> 's list option) \<Rightarrow> 'x mem \<Rightarrow> addr option \<Rightarrow> addr set" where
  "reachSlice reach get = reachPtr (\<lambda>h xs. \<Union>x\<in>set xs. reach h x) get"

lemma deep_copyPtr:
  "deep_copy copy view reach \<Longrightarrow> (\<And>s. get (mk s) = Some s) \<Longrightarrow>
   deep_copy (copyDeep copy get mk) (viewPtr view get) (reachPtr reach get)"
  using deep_copyDeep [of copy view reach get mk]
  by (simp add: viewPtr_def [abs_def] reachPtr_def [abs_def])

lemma deep_copySlice:
  assumes "deep_copy copy view reach" "\<And>xs. get (mk xs) = Some xs"
  shows "deep_copy (copyDeep (copyAll copy) get mk) (viewSlice view get) (reachSlice reach get)"
proof -
  have "viewSlice view get h p = (case viewPtr (\<lambda>h. map (view h)) get h p of None \<Rightarrow> [] | Some xs \<Rightarrow> xs)" for h p
    by (simp add: viewSlice_def viewPtr_def split: option.splits)
  then have "viewSlice view get = (\<lambda>h p. case viewPtr (\<lambda>h. map (view h)) get h p of None \<Rightarrow> [] | Some xs \<Rightarrow> xs)"
    by (intro ext)
  with deep_copyPtr [OF deep_copyAll [OF assms(1)] assms(2)] show ?thesis
    by (auto simp: deep_copy_def reachSlice_def)
qed

definition viewGCP :: "'x mem \<Rightarrow> mem_gcp_config \<Rightarrow> gcp_config" where
  "viewGCP h c = \<lparr>gcProject = mgProject c, gcZone = mgZone c, gcRegion = mgRegion c,
     gcMachineType = mgMachineType c, gcDiskSizeGB = mgDiskSizeGB c, gcDiskType = mgDiskType c,
     gcNetworkTags = viewStrings (deref h (mgNetworkTags c)), gcServiceAccount = mgServiceAccount c\<rparr>"

definition viewTemplateSpec :: "'x mem \<Rightarrow> mem_template_spec \<Rightarrow> template_spec" where
  "viewTemplateSpec h ts = \<lparr>tsVMImage = mtVMImage ts, tsGPU = viewGPU (deref h (mtGPU ts)),
     tsGCP = viewGCP h (mtGCP ts), tsStartupScript = mtStartupScript ts,
     tsPreemptible = viewBool (deref h (mtPreemptible ts))\<rparr>"

definition viewTemplateStatus :: "('x, 'm) foreign_copies \<Rightarrow> 'x mem \<Rightarrow> mem_template_status \<Rightarrow> template_status" where
  "viewTemplateStatus F h st = \<lparr>ttConditions = viewSlice (vCondition F) asForeigns h (mtConditions st)\<rparr>"

definition viewTemplate :: "('x, 'm) foreign_copies \<Rightarrow> 'x mem \<Rightarrow> 'x mem_template \<Rightarrow> instance_template" where
  "viewTemplate F h t = \<lparr>itMeta = vObjectMeta F h (mtMeta t), itSpec = viewTemplateSpec h (mtSpec t),
     itStatus = viewTemplateStatus F h (mtStatus t)\<rparr>"

definition viewCheckpointConfig :: "'x mem \<Rightarrow> mem_checkpoint_config \<Rightarrow> checkpoint_config" where
  "viewCheckpointConfig h c = \<lparr>ccImageRepo = mcImageRepo c, ccInterval = mcInterval c,
     ccCredentialRef = viewSecretRef (deref h (mcCredentialRef c)),
     ccStorage = viewStorage (deref h (mcStorage c))\<rparr>"

definition viewPISpec :: "('x, 'm) foreign_copies \<Rightarrow> 'x mem \<Rightarrow> mem_pi_spec \<Rightarrow> pi_spec" where
  "viewPISpec F h sp = \<lparr>piTemplateName = mpTemplateName sp, piTemplateNamespace = mpTemplateNamespace sp,
     piSpotJobRef = viewPtr (vOwnerRef F) asForeign h (mpSpotJobRef sp),
     piCredentialsRef = mpCredentialsRef sp\<rparr>"

definition viewPIStatus :: "('x, 'm) foreign_copies \<Rightarrow> 'x mem \<Rightarrow> mem_pi_status \<Rightarrow> pi_status" where
  "viewPIStatus F h st = \<lparr>piConditions = viewSlice (vCondition F) asForeigns h (mpConditions st),
     piInstanceID = mpInstanceID st, piInstanceName = mpInstanceName st, piInternalIP = mpInternalIP st,
     piExternalIP = mpExternalIP st, piState = mpState st, piNodeName = mpNodeName st,
     piJoinedCluster = mpJoinedCluster st,
     piCreationTime = viewPtr (vTime F) asForeign h (mpCreationTime st),
     piPreemptionNotice = mpPreemptionNotice st\<rparr>"

definition viewInstance :: "('x, 'm) foreign_copies \<Rightarrow> 'x mem \<Rightarrow> 'x mem_instance \<Rightarrow> prov_instance" where
  "viewInstance F h p = \<lparr>piMeta = vObjectMeta F h (mpMeta p), piSpec = viewPISpec F h (mpSpec p),
     piStatus = viewPIStatus F h (mpStatus p)\<rparr>"

definition viewSIJSpec :: "('x, 'm) foreign_copies \<Rightarrow> 'x mem \<Rightarrow> 'x mem_sij_spec \<Rightarrow> sij_spec" where
  "viewSIJSpec F h sp = \<lparr>sjReplicas = viewInt (deref h (msReplicas sp)),
     sjJobTemplate = vJobTemplate F h (msJobTemplate sp),
     sjCheckpointConfig = viewCheckpointConfig h (msCheckpointConfig sp),
     sjInstanceTemplateRef = msInstanceTemplateRef sp, sjCredentialsRef = msCredentialsRef sp\<rparr>"

definition viewSIJStatus :: "('x, 'm) foreign_copies \<Rightarrow> 'x mem \<Rightarrow> mem_sij_status \<Rightarrow> sij_status" where
  "viewSIJStatus F h st = \<lparr>ssConditions = viewSlice (vCondition F) asForeigns h (msConditions st),
     ssActiveReplicas = msActiveReplicas st,
     ssLastCheckpointTime = viewPtr (vTime F) asForeign h (msLastCheckpointTime st),
     ssLastCheckpointImage = msLastCheckpointImage st,
     ssJobStatuses = viewReplicaStatuses (deref h (msJobStatuses st))\<rparr>"

definition viewSpotJob :: "('x, 'm) foreign_copies \<Rightarrow> 'x mem \<Rightarrow> 'x mem_spot_job \<Rightarrow> spot_job" where
  "viewSpotJob F h j = \<lparr>sjMeta = vObjectMeta F h (msMeta j), sjSpec = viewSIJSpec F h (msSpec j),
     sjStatus = viewSIJStatus F h (msStatus j)\<rparr>"

definition viewList ::
    "('x, 'm) foreign_copies \<Rightarrow> ('x mem \<Rightarrow> 's \<Rightarrow> 'v) \<Rightarrow> ('x cell \<Rightarrow> 's list option)
       \<Rightarrow> 'x mem \<Rightarrow> 'x mem_list \<Rightarrow> 'm \<times> 'v list" where
  "viewList F view get h l = (vListMeta F h (mlMeta l), viewSlice view get h (mlItems l))"

section \<open>What objects reach\<close>

definition reachGCP :: "'x mem \<Rightarrow> mem_gcp_config \<Rightarrow> addr set" where
  "reachGCP h c = set_option (mgNetworkTags c)"

definition reachTemplateSpec :: "'x mem \<Rightarrow> mem_template_spec \<Rightarrow> addr set" where
  "reachTemplateSpec h ts = set_option (mtGPU ts) \<union> (reachGCP h (mtGCP ts) \<union> set_option (mtPreemptible ts))"

definition reachTemplateStatus :: "('x, 'm) foreign_copies \<Rightarrow> 'x mem \<Rightarrow> mem_template_status \<Rightarrow> addr set" where
  "reachTemplateStatus F h st = reachSlice (fReach F) asForeigns h (mtConditions st)"

definition reachTemplate :: "('x, 'm) foreign_copies \<Rightarrow> 'x mem \<Rightarrow> 'x mem_template \<Rightarrow> addr set" where
  "reachTemplate F h t =
     fReach F h (mtMeta t) \<union> (reachTemplateSpec h (mtSpec t) \<union> reachTemplateStatus F h (mtStatus t))"

definition reachCheckpointConfig :: "'x mem \<Rightarrow> mem_checkpoint_config \<Rightarrow> addr set" where
  "reachCheckpointConfig h c = set_option (mcCredentialRef c) \<union> set_option (mcStorage c)"

definition reachPISpec :: "('x, 'm) foreign_copies \<Rightarrow> 'x mem \<Rightarrow> mem_pi_spec \<Rightarrow> addr set" where
  "reachPISpec F h sp = reachPtr (fReach F) asForeign h (mpSpotJobRef sp)"

definition reachPIStatus :: "('x, 'm) foreign_copies \<Rightarrow> 'x mem \<Rightarrow> mem_pi_status \<Rightarrow> addr set" where
  "reachPIStatus F h st = reachSlice (fReach F) asForeigns h (mpConditions st)
     \<union> reachPtr (fReach F) asForeign h (mpCreationTime st)"

definition reachInstance :: "('x, 'm) foreign_copies \<Rightarrow> 'x mem \<Rightarrow> 'x mem_instance \<Rightarrow> addr set" where
  "reachInstance F h p =
     fReach F h (mpMeta p) \<union> (reachPISpec F h (mpSpec p) \<union> reachPIStatus F h (mpStatus p))"

definition reachSIJSpec :: "('x, 'm) foreign_copies \<Rightarrow> 'x mem \<Rightarrow> 'x mem_sij_spec \<Rightarrow> addr set" where
  "reachSIJSpec F h sp = set_option (msReplicas sp)
     \<union> (fReach F h (msJobTemplate sp) \<union> reachCheckpointConfig h (msCheckpointConfig sp))"

definition reachSIJStatus :: "('x, 'm) foreign_copies \<Rightarrow> 'x mem \<Rightarrow> mem_sij_status \<Rightarrow> addr set" where
  "reachSIJStatus F h st = reachSlice (fReach F) asForeigns h (msConditions st)
     \<union> (reachPtr (fReach F) asForeign h (msLastCheckpointTime st) \<union> set_option (msJobStatuses st))"

definition reachSpotJob :: "('x, 'm) foreign_copies \<Rightarrow> 'x mem \<Rightarrow> 'x mem_spot_job \<Rightarrow> addr set" where
  "reachSpotJob F h j =
     fReach F h (msMeta j) \<union> (reachSIJSpec F h (msSpec j) \<union> reachSIJStatus F h (msStatus j))"

definition reachList ::
    "('x, 'm) foreign_copies \<Rightarrow> ('x mem \<Rightarrow> 's \<Rightarrow> addr set) \<Rightarrow> ('x cell \<Rightarrow> 's list option)
       \<Rightarrow> 'x mem \<Rightarrow> 'x mem_list \<Rightarrow> addr set" where
  "reachList F reach get h l = fReach F h (mlMeta l) \<union> reachSlice reach get h (mlItems l)"

end
