(* ===== verification/DeepCopy.thy ===== *)
theory DeepCopy
  imports MemObjects PIController Checkpoint
begin

text \<open>
  The deep copies of \<^verbatim>\<open>api/v1alpha1/zz_generated.deepcopy.go\<close>, one definition per
  DeepCopyInto, in the shape of the generated code. Each keeps the contract of
  \<^theory_text>\<open>Memory\<close>: it means the same and shares nothing with its original. This is why the
  rest of the development can take objects as values. The use the operator makes of it
  itself, the template copied before the join command goes into its startup script, is
  modelled on memory here and refines the value-level definition.
\<close>

section \<open>Instance templates\<close>

definition GPUConfig_DeepCopyInto :: "gpu_config \<Rightarrow> 'x mem \<Rightarrow> gpu_config \<times> 'x mem" where
  "GPUConfig_DeepCopyInto = copyFlat"

definition GCPConfig_DeepCopyInto :: "mem_gcp_config \<Rightarrow> 'x mem \<Rightarrow> mem_gcp_config \<times> 'x mem" where
  "GCPConfig_DeepCopyInto inp h =
     (let (tags, h) = copyNew (mgNetworkTags inp) h in (inp\<lparr>mgNetworkTags := tags\<rparr>, h))"

definition InstanceTemplateSpec_DeepCopyInto ::
    "mem_template_spec \<Rightarrow> 'x mem \<Rightarrow> mem_template_spec \<times> 'x mem" where
  "InstanceTemplateSpec_DeepCopyInto inp h =
     (let (gpu, h) = copyNew (mtGPU inp) h;
          (gcp, h) = GCPConfig_DeepCopyInto (mtGCP inp) h;
          (preemptible, h) = copyNew (mtPreemptible inp) h
      in (inp\<lparr>mtGPU := gpu, mtGCP := gcp, mtPreemptible := preemptible\<rparr>, h))"

definition InstanceTemplateStatus_DeepCopyInto ::
    "('x, 'm) foreign_copies \<Rightarrow> mem_template_status \<Rightarrow> 'x mem \<Rightarrow> mem_template_status \<times> 'x mem" where
  "InstanceTemplateStatus_DeepCopyInto F inp h =
     (let (conditions, h) = copyDeep (copyAll (fCondition F)) asForeigns CForeigns (mtConditions inp) h
      in (inp\<lparr>mtConditions := conditions\<rparr>, h))"

definition InstanceTemplate_DeepCopyInto ::
    "('x, 'm) foreign_copies \<Rightarrow> 'x mem_template \<Rightarrow> 'x mem \<Rightarrow> 'x mem_template \<times> 'x mem" where
  "InstanceTemplate_DeepCopyInto F inp h =
     (let (meta, h) = fObjectMeta F (mtMeta inp) h;
          (spec, h) = InstanceTemplateSpec_DeepCopyInto (mtSpec inp) h;
          (status, h) = InstanceTemplateStatus_DeepCopyInto F (mtStatus inp) h
      in (inp\<lparr>mtMeta := meta, mtSpec := spec, mtStatus := status\<rparr>, h))"

definition InstanceTemplateList_DeepCopyInto ::
    "('x, 'm) foreign_copies \<Rightarrow> 'x mem_list \<Rightarrow> 'x mem \<Rightarrow> 'x mem_list \<times> 'x mem" where
  "InstanceTemplateList_DeepCopyInto F inp h =
     (let (meta, h) = fListMeta F (mlMeta inp) h;
          (items, h) = copyDeep (copyAll (InstanceTemplate_DeepCopyInto F)) asTemplates CTemplates
            (mlItems inp) h
      in (inp\<lparr>mlMeta := meta, mlItems := items\<rparr>, h))"

section \<open>ProvisionedInstances\<close>

definition ProvisionedInstanceSpec_DeepCopyInto ::
    "('x, 'm) foreign_copies \<Rightarrow> mem_pi_spec \<Rightarrow> 'x mem \<Rightarrow> mem_pi_spec \<times> 'x mem" where
  "ProvisionedInstanceSpec_DeepCopyInto F inp h =
     (let (ref, h) = copyDeep (fOwnerRef F) asForeign CForeign (mpSpotJobRef inp) h
      in (inp\<lparr>mpSpotJobRef := ref\<rparr>, h))"

definition ProvisionedInstanceStatus_DeepCopyInto ::
    "('x, 'm) foreign_copies \<Rightarrow> mem_pi_status \<Rightarrow> 'x mem \<Rightarrow> mem_pi_status \<times> 'x mem" where
  "ProvisionedInstanceStatus_DeepCopyInto F inp h =
     (let (conditions, h) = copyDeep (copyAll (fCondition F)) asForeigns CForeigns (mpConditions inp) h;
          (created, h) = copyDeep (fTime F) asForeign CForeign (mpCreationTime inp) h
      in (inp\<lparr>mpConditions := conditions, mpCreationTime := created\<rparr>, h))"

definition ProvisionedInstance_DeepCopyInto ::
    "('x, 'm) foreign_copies \<Rightarrow> 'x mem_instance \<Rightarrow> 'x mem \<Rightarrow> 'x mem_instance \<times> 'x mem" where
  "ProvisionedInstance_DeepCopyInto F inp h =
     (let (meta, h) = fObjectMeta F (mpMeta inp) h;
          (spec, h) = ProvisionedInstanceSpec_DeepCopyInto F (mpSpec inp) h;
          (status, h) = ProvisionedInstanceStatus_DeepCopyInto F (mpStatus inp) h
      in (inp\<lparr>mpMeta := meta, mpSpec := spec, mpStatus := status\<rparr>, h))"

definition ProvisionedInstanceList_DeepCopyInto ::
    "('x, 'm) foreign_copies \<Rightarrow> 'x mem_list \<Rightarrow> 'x mem \<Rightarrow> 'x mem_list \<times> 'x mem" where
  "ProvisionedInstanceList_DeepCopyInto F inp h =
     (let (meta, h) = fListMeta F (mlMeta inp) h;
          (items, h) = copyDeep (copyAll (ProvisionedInstance_DeepCopyInto F)) asInstances CInstances
            (mlItems inp) h
      in (inp\<lparr>mlMeta := meta, mlItems := items\<rparr>, h))"

section \<open>SpotInstanceJobs\<close>

definition CheckpointStorageConfig_DeepCopyInto ::
    "checkpoint_storage \<Rightarrow> 'x mem \<Rightarrow> checkpoint_storage \<times> 'x mem" where
  "CheckpointStorageConfig_DeepCopyInto = copyFlat"

definition JobReplicaStatus_DeepCopyInto ::
    "job_replica_status \<Rightarrow> 'x mem \<Rightarrow> job_replica_status \<times> 'x mem" where
  "JobReplicaStatus_DeepCopyInto = copyFlat"

definition CheckpointConfig_DeepCopyInto ::
    "mem_checkpoint_config \<Rightarrow> 'x mem \<Rightarrow> mem_checkpoint_config \<times> 'x mem" where
  "CheckpointConfig_DeepCopyInto inp h =
     (let (ref, h) = copyNew (mcCredentialRef inp) h;
          (storage, h) = copyNew (mcStorage inp) h
      in (inp\<lparr>mcCredentialRef := ref, mcStorage := storage\<rparr>, h))"

definition SpotInstanceJobSpec_DeepCopyInto ::
    "('x, 'm) foreign_copies \<Rightarrow> 'x mem_sij_spec \<Rightarrow> 'x mem \<Rightarrow> 'x mem_sij_spec \<times> 'x mem" where
  "SpotInstanceJobSpec_DeepCopyInto F inp h =
     (let (replicas, h) = copyNew (msReplicas inp) h;
          (jobTemplate, h) = fJobTemplate F (msJobTemplate inp) h;
          (checkpoint, h) = CheckpointConfig_DeepCopyInto (msCheckpointConfig inp) h
      in (inp\<lparr>msReplicas := replicas, msJobTemplate := jobTemplate, msCheckpointConfig := checkpoint\<rparr>, h))"

definition SpotInstanceJobStatus_DeepCopyInto ::
    "('x, 'm) foreign_copies \<Rightarrow> mem_sij_status \<Rightarrow> 'x mem \<Rightarrow> mem_sij_status \<times> 'x mem" where
  "SpotInstanceJobStatus_DeepCopyInto F inp h =
     (let (conditions, h) = copyDeep (copyAll (fCondition F)) asForeigns CForeigns (msConditions inp) h;
          (last, h) = copyDeep (fTime F) asForeign CForeign (msLastCheckpointTime inp) h;
          (statuses, h) = copyNew (msJobStatuses inp) h
      in (inp\<lparr>msConditions := conditions, msLastCheckpointTime := last, msJobStatuses := statuses\<rparr>, h))"

definition SpotInstanceJob_DeepCopyInto ::
    "('x, 'm) foreign_copies \<Rightarrow> 'x mem_spot_job \<Rightarrow> 'x mem \<Rightarrow> 'x mem_spot_job \<times> 'x mem" where
  "SpotInstanceJob_DeepCopyInto F inp h =
     (let (meta, h) = fObjectMeta F (msMeta inp) h;
          (spec, h) = SpotInstanceJobSpec_DeepCopyInto F (msSpec inp) h;
          (status, h) = SpotInstanceJobStatus_DeepCopyInto F (msStatus inp) h
      in (inp\<lparr>msMeta := meta, msSpec := spec, msStatus := status\<rparr>, h))"

definition SpotInstanceJobList_DeepCopyInto ::
    "('x, 'm) foreign_copies \<Rightarrow> 'x mem_list \<Rightarrow> 'x mem \<Rightarrow> 'x mem_list \<times> 'x mem" where
  "SpotInstanceJobList_DeepCopyInto F inp h =
     (let (meta, h) = fListMeta F (mlMeta inp) h;
          (items, h) = copyDeep (copyAll (SpotInstanceJob_DeepCopyInto F)) asSpotJobs CSpotJobs
            (mlItems inp) h
      in (inp\<lparr>mlMeta := meta, mlItems := items\<rparr>, h))"

section \<open>DeepCopy and DeepCopyObject\<close>

text \<open>A copy of what a pointer points to in a new cell; nil is copied to nil.\<close>

definition InstanceTemplateSpec_DeepCopy ::
    "addr option \<Rightarrow> 'x mem \<Rightarrow> addr option \<times> 'x mem" where
  "InstanceTemplateSpec_DeepCopy = copyDeep InstanceTemplateSpec_DeepCopyInto asTemplateSpec CTemplateSpec"

definition InstanceTemplate_DeepCopy ::
    "('x, 'm) foreign_copies \<Rightarrow> addr option \<Rightarrow> 'x mem \<Rightarrow> addr option \<times> 'x mem" where
  "InstanceTemplate_DeepCopy F = copyDeep (InstanceTemplate_DeepCopyInto F) asTemplate CTemplate"

definition ProvisionedInstance_DeepCopy ::
    "('x, 'm) foreign_copies \<Rightarrow> addr option \<Rightarrow> 'x mem \<Rightarrow> addr option \<times> 'x mem" where
  "ProvisionedInstance_DeepCopy F = copyDeep (ProvisionedInstance_DeepCopyInto F) asInstance CInstance"

definition SpotInstanceJob_DeepCopy ::
    "('x, 'm) foreign_copies \<Rightarrow> addr option \<Rightarrow> 'x mem \<Rightarrow> addr option \<times> 'x mem" where
  "SpotInstanceJob_DeepCopy F = copyDeep (SpotInstanceJob_DeepCopyInto F) asSpotJob CSpotJob"

definition CheckpointStorageConfig_DeepCopy :: "addr option \<Rightarrow> 'x mem \<Rightarrow> addr option \<times> 'x mem" where
  "CheckpointStorageConfig_DeepCopy = copyDeep CheckpointStorageConfig_DeepCopyInto asStorage CStorage"

definition GPUConfig_DeepCopy :: "addr option \<Rightarrow> 'x mem \<Rightarrow> addr option \<times> 'x mem" where
  "GPUConfig_DeepCopy = copyDeep GPUConfig_DeepCopyInto asGPU CGPU"

definition JobReplicaStatus_DeepCopy :: "addr option \<Rightarrow> 'x mem \<Rightarrow> addr option \<times> 'x mem" where
  "JobReplicaStatus_DeepCopy = copyDeep JobReplicaStatus_DeepCopyInto asReplicaStatus CReplicaStatus"

definition CheckpointConfig_DeepCopy :: "addr option \<Rightarrow> 'x mem \<Rightarrow> addr option \<times> 'x mem" where
  "CheckpointConfig_DeepCopy = copyDeep CheckpointConfig_DeepCopyInto asCheckpointConfig CCheckpointConfig"

definition GCPConfig_DeepCopy :: "addr option \<Rightarrow> 'x mem \<Rightarrow> addr option \<times> 'x mem" where
  "GCPConfig_DeepCopy = copyDeep GCPConfig_DeepCopyInto asGCPConfig CGCPConfig"

definition InstanceTemplateStatus_DeepCopy ::
    "('x, 'm) foreign_copies \<Rightarrow> addr option \<Rightarrow> 'x mem \<Rightarrow> addr option \<times> 'x mem" where
  "InstanceTemplateStatus_DeepCopy F = copyDeep (InstanceTemplateStatus_DeepCopyInto F) asTemplateStatus CTemplateStatus"

definition ProvisionedInstanceSpec_DeepCopy ::
    "('x, 'm) foreign_copies \<Rightarrow> addr option \<Rightarrow> 'x mem \<Rightarrow> addr option \<times> 'x mem" where
  "ProvisionedInstanceSpec_DeepCopy F = copyDeep (ProvisionedInstanceSpec_DeepCopyInto F) asPISpec CPISpec"

definition ProvisionedInstanceStatus_DeepCopy ::
    "('x, 'm) foreign_copies \<Rightarrow> addr option \<Rightarrow> 'x mem \<Rightarrow> addr option \<times> 'x mem" where
  "ProvisionedInstanceStatus_DeepCopy F = copyDeep (ProvisionedInstanceStatus_DeepCopyInto F) asPIStatus CPIStatus"

definition SpotInstanceJobSpec_DeepCopy ::
    "('x, 'm) foreign_copies \<Rightarrow> addr option \<Rightarrow> 'x mem \<Rightarrow> addr option \<times> 'x mem" where
  "SpotInstanceJobSpec_DeepCopy F = copyDeep (SpotInstanceJobSpec_DeepCopyInto F) asSIJSpec CSIJSpec"

definition SpotInstanceJobStatus_DeepCopy ::
    "('x, 'm) foreign_copies \<Rightarrow> addr option \<Rightarrow> 'x mem \<Rightarrow> addr option \<times> 'x mem" where
  "SpotInstanceJobStatus_DeepCopy F = copyDeep (SpotInstanceJobStatus_DeepCopyInto F) asSIJStatus CSIJStatus"

definition InstanceTemplateList_DeepCopy ::
    "('x, 'm) foreign_copies \<Rightarrow> addr option \<Rightarrow> 'x mem \<Rightarrow> addr option \<times> 'x mem" where
  "InstanceTemplateList_DeepCopy F = copyDeep (InstanceTemplateList_DeepCopyInto F) asTemplateList CTemplateList"

definition ProvisionedInstanceList_DeepCopy ::
    "('x, 'm) foreign_copies \<Rightarrow> addr option \<Rightarrow> 'x mem \<Rightarrow> addr option \<times> 'x mem" where
  "ProvisionedInstanceList_DeepCopy F = copyDeep (ProvisionedInstanceList_DeepCopyInto F) asInstanceList CInstanceList"

definition SpotInstanceJobList_DeepCopy ::
    "('x, 'm) foreign_copies \<Rightarrow> addr option \<Rightarrow> 'x mem \<Rightarrow> addr option \<times> 'x mem" where
  "SpotInstanceJobList_DeepCopy F = copyDeep (SpotInstanceJobList_DeepCopyInto F) asSpotJobList CSpotJobList"

text \<open>
  As a runtime.Object: an interface that holds a nil pointer is not nil itself, so nil is
  returned as a nil interface.
\<close>

datatype object = NilObject | Object "addr option"

definition DeepCopyObject ::
    "(addr option \<Rightarrow> 'x mem \<Rightarrow> addr option \<times> 'x mem) \<Rightarrow> addr option \<Rightarrow> 'x mem \<Rightarrow> object \<times> 'x mem" where
  "DeepCopyObject DeepCopy p h =
     (case DeepCopy p h of (c, h) \<Rightarrow> (if c \<noteq> None then Object c else NilObject, h))"

definition InstanceTemplate_DeepCopyObject ::
    "('x, 'm) foreign_copies \<Rightarrow> addr option \<Rightarrow> 'x mem \<Rightarrow> object \<times> 'x mem" where
  "InstanceTemplate_DeepCopyObject F = DeepCopyObject (InstanceTemplate_DeepCopy F)"

definition InstanceTemplateList_DeepCopyObject ::
    "('x, 'm) foreign_copies \<Rightarrow> addr option \<Rightarrow> 'x mem \<Rightarrow> object \<times> 'x mem" where
  "InstanceTemplateList_DeepCopyObject F = DeepCopyObject (InstanceTemplateList_DeepCopy F)"

definition ProvisionedInstance_DeepCopyObject ::
    "('x, 'm) foreign_copies \<Rightarrow> addr option \<Rightarrow> 'x mem \<Rightarrow> object \<times> 'x mem" where
  "ProvisionedInstance_DeepCopyObject F = DeepCopyObject (ProvisionedInstance_DeepCopy F)"

definition ProvisionedInstanceList_DeepCopyObject ::
    "('x, 'm) foreign_copies \<Rightarrow> addr option \<Rightarrow> 'x mem \<Rightarrow> object \<times> 'x mem" where
  "ProvisionedInstanceList_DeepCopyObject F = DeepCopyObject (ProvisionedInstanceList_DeepCopy F)"

definition SpotInstanceJob_DeepCopyObject ::
    "('x, 'm) foreign_copies \<Rightarrow> addr option \<Rightarrow> 'x mem \<Rightarrow> object \<times> 'x mem" where
  "SpotInstanceJob_DeepCopyObject F = DeepCopyObject (SpotInstanceJob_DeepCopy F)"

definition SpotInstanceJobList_DeepCopyObject ::
    "('x, 'm) foreign_copies \<Rightarrow> addr option \<Rightarrow> 'x mem \<Rightarrow> object \<times> 'x mem" where
  "SpotInstanceJobList_DeepCopyObject F = DeepCopyObject (SpotInstanceJobList_DeepCopy F)"

lemma DeepCopyObject_nil:
  "fst (DeepCopyObject DeepCopy p h) = (case fst (DeepCopy p h) of None \<Rightarrow> NilObject | Some a \<Rightarrow> Object (Some a))"
  by (simp add: DeepCopyObject_def split: prod.splits option.splits)

section \<open>The contract\<close>

lemma deep_GCPConfig: "deep_copy GCPConfig_DeepCopyInto viewGCP reachGCP"
  by (rule deep_copy_struct [OF deep_copyNew [where f = viewStrings],
        where get = mgNetworkTags and put = "\<lambda>x s. s\<lparr>mgNetworkTags := x\<rparr>"
          and build = "\<lambda>s x. \<lparr>gcProject = mgProject s, gcZone = mgZone s, gcRegion = mgRegion s,
            gcMachineType = mgMachineType s, gcDiskSizeGB = mgDiskSizeGB s, gcDiskType = mgDiskType s,
            gcNetworkTags = x, gcServiceAccount = mgServiceAccount s\<rparr>"])
    (simp_all add: GCPConfig_DeepCopyInto_def viewGCP_def reachGCP_def)

lemma deep_InstanceTemplateSpec:
  "deep_copy InstanceTemplateSpec_DeepCopyInto viewTemplateSpec reachTemplateSpec"
  by (rule deep_copy_struct [OF deep_copyPair [OF deep_copyNew [where f = viewGPU]
          deep_copyPair [OF deep_GCPConfig deep_copyNew [where f = viewBool]]],
        where get = "\<lambda>s. (mtGPU s, mtGCP s, mtPreemptible s)"
          and put = "\<lambda>(x, y, z) s. s\<lparr>mtGPU := x, mtGCP := y, mtPreemptible := z\<rparr>"
          and build = "\<lambda>s (x, y, z). \<lparr>tsVMImage = mtVMImage s, tsGPU = x, tsGCP = y,
            tsStartupScript = mtStartupScript s, tsPreemptible = z\<rparr>"])
    (simp_all add: InstanceTemplateSpec_DeepCopyInto_def viewTemplateSpec_def reachTemplateSpec_def copyPair_def
      split: prod.splits)

lemma deep_CheckpointConfig: "deep_copy CheckpointConfig_DeepCopyInto viewCheckpointConfig reachCheckpointConfig"
  by (rule deep_copy_struct [OF deep_copyPair [OF deep_copyNew [where f = viewSecretRef]
          deep_copyNew [where f = viewStorage]],
        where get = "\<lambda>s. (mcCredentialRef s, mcStorage s)"
          and put = "\<lambda>(x, y) s. s\<lparr>mcCredentialRef := x, mcStorage := y\<rparr>"
          and build = "\<lambda>s (x, y). \<lparr>ccImageRepo = mcImageRepo s, ccInterval = mcInterval s,
            ccCredentialRef = x, ccStorage = y\<rparr>"])
    (simp_all add: CheckpointConfig_DeepCopyInto_def viewCheckpointConfig_def reachCheckpointConfig_def copyPair_def
      split: prod.splits)

context foreign_types
begin

lemmas conditions = deep_copySlice [OF condition, of asForeigns CForeigns, simplified]
lemmas times = deep_copyPtr [OF time, of asForeign CForeign, simplified]

lemma template_status:
  "deep_copy (InstanceTemplateStatus_DeepCopyInto F) (viewTemplateStatus F) (reachTemplateStatus F)"
  by (rule deep_copy_struct [OF conditions, where get = mtConditions and put = "\<lambda>x s. s\<lparr>mtConditions := x\<rparr>"
          and build = "\<lambda>s x. \<lparr>ttConditions = x\<rparr>"])
    (simp_all add: InstanceTemplateStatus_DeepCopyInto_def viewTemplateStatus_def reachTemplateStatus_def)

lemma instance_template: "deep_copy (InstanceTemplate_DeepCopyInto F) (viewTemplate F) (reachTemplate F)"
  by (rule deep_copy_struct [OF deep_copyPair [OF object_meta
          deep_copyPair [OF deep_InstanceTemplateSpec template_status]],
        where get = "\<lambda>s. (mtMeta s, mtSpec s, mtStatus s)"
          and put = "\<lambda>(x, y, z) s. s\<lparr>mtMeta := x, mtSpec := y, mtStatus := z\<rparr>"
          and build = "\<lambda>s (x, y, z). \<lparr>itMeta = x, itSpec = y, itStatus = z\<rparr>"])
    (simp_all add: InstanceTemplate_DeepCopyInto_def viewTemplate_def reachTemplate_def copyPair_def
      split: prod.splits)

lemma pi_spec: "deep_copy (ProvisionedInstanceSpec_DeepCopyInto F) (viewPISpec F) (reachPISpec F)"
  by (rule deep_copy_struct [OF deep_copyPtr [OF owner_ref, of asForeign CForeign, simplified],
        where get = mpSpotJobRef and put = "\<lambda>x s. s\<lparr>mpSpotJobRef := x\<rparr>"
          and build = "\<lambda>s x. \<lparr>piTemplateName = mpTemplateName s, piTemplateNamespace = mpTemplateNamespace s,
            piSpotJobRef = x, piCredentialsRef = mpCredentialsRef s\<rparr>"])
    (simp_all add: ProvisionedInstanceSpec_DeepCopyInto_def viewPISpec_def reachPISpec_def)

lemma pi_status: "deep_copy (ProvisionedInstanceStatus_DeepCopyInto F) (viewPIStatus F) (reachPIStatus F)"
  by (rule deep_copy_struct [OF deep_copyPair [OF conditions times],
        where get = "\<lambda>s. (mpConditions s, mpCreationTime s)"
          and put = "\<lambda>(x, y) s. s\<lparr>mpConditions := x, mpCreationTime := y\<rparr>"
          and build = "\<lambda>st (x, y). \<lparr>piConditions = x, piInstanceID = mpInstanceID st,
            piInstanceName = mpInstanceName st, piInternalIP = mpInternalIP st,
            piExternalIP = mpExternalIP st, piState = mpState st, piNodeName = mpNodeName st,
            piJoinedCluster = mpJoinedCluster st, piCreationTime = y,
            piPreemptionNotice = mpPreemptionNotice st\<rparr>"])
    (simp_all add: ProvisionedInstanceStatus_DeepCopyInto_def viewPIStatus_def reachPIStatus_def copyPair_def
      split: prod.splits)

lemma prov_instance: "deep_copy (ProvisionedInstance_DeepCopyInto F) (viewInstance F) (reachInstance F)"
  by (rule deep_copy_struct [OF deep_copyPair [OF object_meta deep_copyPair [OF pi_spec pi_status]],
        where get = "\<lambda>s. (mpMeta s, mpSpec s, mpStatus s)"
          and put = "\<lambda>(x, y, z) s. s\<lparr>mpMeta := x, mpSpec := y, mpStatus := z\<rparr>"
          and build = "\<lambda>s (x, y, z). \<lparr>piMeta = x, piSpec = y, piStatus = z\<rparr>"])
    (simp_all add: ProvisionedInstance_DeepCopyInto_def viewInstance_def reachInstance_def copyPair_def
      split: prod.splits)

lemma sij_spec: "deep_copy (SpotInstanceJobSpec_DeepCopyInto F) (viewSIJSpec F) (reachSIJSpec F)"
  by (rule deep_copy_struct [OF deep_copyPair [OF deep_copyNew [where f = viewInt]
          deep_copyPair [OF job_template deep_CheckpointConfig]],
        where get = "\<lambda>s. (msReplicas s, msJobTemplate s, msCheckpointConfig s)"
          and put = "\<lambda>(x, y, z) s. s\<lparr>msReplicas := x, msJobTemplate := y, msCheckpointConfig := z\<rparr>"
          and build = "\<lambda>s (x, y, z). \<lparr>sjReplicas = x, sjJobTemplate = y, sjCheckpointConfig = z,
            sjInstanceTemplateRef = msInstanceTemplateRef s, sjCredentialsRef = msCredentialsRef s\<rparr>"])
    (simp_all add: SpotInstanceJobSpec_DeepCopyInto_def viewSIJSpec_def reachSIJSpec_def copyPair_def
      split: prod.splits)

lemma sij_status: "deep_copy (SpotInstanceJobStatus_DeepCopyInto F) (viewSIJStatus F) (reachSIJStatus F)"
  by (rule deep_copy_struct [OF deep_copyPair [OF conditions
          deep_copyPair [OF times deep_copyNew [where f = viewReplicaStatuses]]],
        where get = "\<lambda>s. (msConditions s, msLastCheckpointTime s, msJobStatuses s)"
          and put = "\<lambda>(x, y, z) s. s\<lparr>msConditions := x, msLastCheckpointTime := y, msJobStatuses := z\<rparr>"
          and build = "\<lambda>s (x, y, z). \<lparr>ssConditions = x, ssActiveReplicas = msActiveReplicas s,
            ssLastCheckpointTime = y, ssLastCheckpointImage = msLastCheckpointImage s, ssJobStatuses = z\<rparr>"])
    (simp_all add: SpotInstanceJobStatus_DeepCopyInto_def viewSIJStatus_def reachSIJStatus_def copyPair_def
      split: prod.splits)

lemma spot_job: "deep_copy (SpotInstanceJob_DeepCopyInto F) (viewSpotJob F) (reachSpotJob F)"
  by (rule deep_copy_struct [OF deep_copyPair [OF object_meta deep_copyPair [OF sij_spec sij_status]],
        where get = "\<lambda>s. (msMeta s, msSpec s, msStatus s)"
          and put = "\<lambda>(x, y, z) s. s\<lparr>msMeta := x, msSpec := y, msStatus := z\<rparr>"
          and build = "\<lambda>s (x, y, z). \<lparr>sjMeta = x, sjSpec = y, sjStatus = z\<rparr>"])
    (simp_all add: SpotInstanceJob_DeepCopyInto_def viewSpotJob_def reachSpotJob_def copyPair_def
      split: prod.splits)

text \<open>A list object, given the deep copy of its items.\<close>

lemma object_list:
  assumes "deep_copy copy view reach" "\<And>xs. get (mk xs) = Some xs"
    and l: "\<And>inp h. copyList inp h = (let (meta, h) = fListMeta F (mlMeta inp) h;
          (items, h) = copyDeep (copyAll copy) get mk (mlItems inp) h
        in (inp\<lparr>mlMeta := meta, mlItems := items\<rparr>, h))"
  shows "deep_copy copyList (viewList F view get) (reachList F reach get)"
  by (rule deep_copy_struct [OF deep_copyPair [OF list_meta deep_copySlice [OF assms(1), of get mk]],
        where get = "\<lambda>s. (mlMeta s, mlItems s)" and put = "\<lambda>(x, y) s. s\<lparr>mlMeta := x, mlItems := y\<rparr>"
          and build = "\<lambda>s (x, y). (x, y)"])
    (simp_all add: assms(2) l viewList_def reachList_def copyPair_def split: prod.splits)

lemmas template_list = object_list [OF instance_template _ InstanceTemplateList_DeepCopyInto_def, simplified]
lemmas instance_list = object_list [OF prov_instance _ ProvisionedInstanceList_DeepCopyInto_def, simplified]
lemmas spot_job_list = object_list [OF spot_job _ SpotInstanceJobList_DeepCopyInto_def, simplified]

lemmas kinds = instance_template template_status template_list prov_instance pi_spec pi_status instance_list
  spot_job sij_spec sij_status spot_job_list

end

sublocale foreign_types < templates: deep_copy "InstanceTemplateList_DeepCopyInto F"
    "viewList F (viewTemplate F) asTemplates" "reachList F (reachTemplate F) asTemplates"
  by (rule template_list)

sublocale foreign_types < instances: deep_copy "ProvisionedInstanceList_DeepCopyInto F"
    "viewList F (viewInstance F) asInstances" "reachList F (reachInstance F) asInstances"
  by (rule instance_list)

sublocale foreign_types < spotJobs: deep_copy "SpotInstanceJobList_DeepCopyInto F"
    "viewList F (viewSpotJob F) asSpotJobs" "reachList F (reachSpotJob F) asSpotJobs"
  by (rule spot_job_list)

section \<open>The copied template\<close>

text \<open>
  provisionInstance copies the spec of the template it fetched and puts the join command into
  the startup script of the copy.
\<close>

definition joinTemplate :: "string \<Rightarrow> addr option \<Rightarrow> 'x mem \<Rightarrow> addr option \<times> 'x mem" where
  "joinTemplate cmd p h =
     (case InstanceTemplateSpec_DeepCopy p h of (c, h) \<Rightarrow>
        (case Option.bind (deref h c) asTemplateSpec of
           None \<Rightarrow> (c, h)
         | Some ts \<Rightarrow>
             (let script = (if mtStartupScript ts \<noteq> []
                            then mtStartupScript ts @ [CHR 0x0A] @ cmd
                            else ''#!/bin/bash'' @ [CHR 0x0A] @ cmd)
              in (c, h[the c := CTemplateSpec (ts\<lparr>mtStartupScript := script\<rparr>)]))))"

abbreviation specAt :: "'x mem \<Rightarrow> addr option \<Rightarrow> template_spec option" where
  "specAt \<equiv> viewPtr viewTemplateSpec asTemplateSpec"

section \<open>Reference copies\<close>

text \<open>
  An instance of the parameters: metadata whose label map is a cell of its own, all other
  values without pointers.
\<close>

datatype ref_value =
    RMeta obj_meta "addr option"
  | RLabels labels
  | RList string
  | RTemplate job_spec
  | RCondition condition
  | ROwner owner_ref
  | RTime int

definition refCopy :: "ref_value \<Rightarrow> ref_value mem \<Rightarrow> ref_value \<times> ref_value mem" where
  "refCopy v h = (case v of RMeta m p \<Rightarrow> (case copyNew p h of (p, h) \<Rightarrow> (RMeta m p, h)) | _ \<Rightarrow> (v, h))"

definition refReach :: "ref_value mem \<Rightarrow> ref_value \<Rightarrow> addr set" where
  "refReach h v = (case v of RMeta m p \<Rightarrow> set_option p | _ \<Rightarrow> {})"

definition refMeta :: "ref_value mem \<Rightarrow> ref_value \<Rightarrow> obj_meta" where
  "refMeta h v = (case v of
     RMeta m p \<Rightarrow> m\<lparr>mLabels := (case deref h p of Some (CForeign (RLabels ls)) \<Rightarrow> ls | _ \<Rightarrow> Map.empty)\<rparr>
   | _ \<Rightarrow> noMeta)"

definition referenceCopies :: "(ref_value, string) foreign_copies" where
  "referenceCopies = \<lparr>fObjectMeta = refCopy, fListMeta = refCopy, fJobTemplate = refCopy,
     fCondition = refCopy, fOwnerRef = refCopy, fTime = refCopy,
     vObjectMeta = refMeta,
     vListMeta = (\<lambda>_ v. case v of RList x \<Rightarrow> x | _ \<Rightarrow> []),
     vJobTemplate = (\<lambda>_ v. case v of RTemplate x \<Rightarrow> x | _ \<Rightarrow> sjJobTemplate exSpec),
     vCondition = (\<lambda>_ v. case v of RCondition x \<Rightarrow> x | _ \<Rightarrow> \<lparr>cdType = [], cdStatus = []\<rparr>),
     vOwnerRef = (\<lambda>_ v. case v of ROwner x \<Rightarrow> x
        | _ \<Rightarrow> \<lparr>orKind = [], orName = [], orUID = [], orController = False\<rparr>),
     vTime = (\<lambda>_ v. case v of RTime x \<Rightarrow> x | _ \<Rightarrow> 0),
     fReach = refReach\<rparr>"

lemma deep_refCopy:
  assumes "\<And>h h' m p q. deref h' q = deref h p \<Longrightarrow> view h' (RMeta m q) = view h (RMeta m p)"
    and "\<And>h h' v. refReach h v = {} \<Longrightarrow> view h' v = view h v"
  shows "deep_copy refCopy view refReach"
proof unfold_locales
  fix h h' :: "ref_value mem" and v v'
  show "view h' v = view h v" if a: "agree (refReach h v) h h'"
  proof (cases "\<exists>m p. v = RMeta m p")
    case True
    then obtain m p where v: "v = RMeta m p" by blast
    with a have "deref h' p = deref h p" by (intro agree_deref) (simp add: refReach_def)
    then show ?thesis unfolding v by (rule assms(1))
  next
    case False
    then have "refReach h v = {}" by (simp add: refReach_def split: ref_value.splits)
    then show ?thesis by (rule assms(2))
  qed
  show "agree (refReach h v) h h' \<Longrightarrow> refReach h' v = refReach h v"
    by (cases v) (simp_all add: refReach_def)
  assume w: "refReach h v \<subseteq> {..<length h}" and c: "refCopy v h = (v', h')"
  show "(\<exists>xs. h' = h @ xs) \<and> view h' v' = view h v \<and> refReach h' v' \<subseteq> {length h..<length h'}"
  proof (cases "\<exists>m p. v = RMeta m p")
    case True
    then obtain m p where v: "v = RMeta m p" by blast
    obtain q where q: "copyNew p h = (q, h')" "v' = RMeta m q"
      using c v by (auto simp: refCopy_def split: prod.splits)
    from w v have "set_option p \<subseteq> {..<length h}" by (simp add: refReach_def)
    from deep_copy.copies [OF deep_copyNew [where f = "\<lambda>x. x"] this q(1)]
    have q': "\<exists>xs. h' = h @ xs" "deref h' q = deref h p" "set_option q \<subseteq> {length h..<length h'}" by auto
    from assms(1) [OF q'(2)] q' show ?thesis by (simp add: v q(2) refReach_def)
  next
    case False
    with c have "v' = v" "h' = h" "refReach h v = {}"
      by (auto simp: refCopy_def refReach_def split: ref_value.splits)
    then show ?thesis by auto
  qed
qed

lemma deep_refMeta: "deep_copy refCopy refMeta refReach"
  by (rule deep_refCopy) (auto simp: refMeta_def refReach_def split: ref_value.splits)

lemma deep_refFlat: "(\<And>m p q. f (RMeta m q) = f (RMeta m p)) \<Longrightarrow> deep_copy refCopy (\<lambda>_. f) refReach"
  by (rule deep_refCopy) blast+

interpretation reference: foreign_types referenceCopies
  unfolding foreign_types_def referenceCopies_def foreign_copies.simps
  by (intro conjI deep_refMeta deep_refFlat) simp_all

section \<open>Properties\<close>

text \<open>
  Copying is isolated: the copy means the same, the original still does, no write to memory
  that was there before is seen through the copy, and no write to memory allocated since is
  seen through the original.
\<close>

definition isolates ::
    "('s \<Rightarrow> 'c heap \<Rightarrow> 'r \<times> 'c heap) \<Rightarrow> ('c heap \<Rightarrow> 'r \<Rightarrow> 'v) \<Rightarrow> ('c heap \<Rightarrow> 's \<Rightarrow> 'v) \<Rightarrow> ('c heap \<Rightarrow> 's \<Rightarrow> addr set) \<Rightarrow> bool" where
  "isolates copy result view reach \<longleftrightarrow> (\<forall>h v v' h' a c. reach h v \<subseteq> {..<length h} \<and> copy v h = (v', h') \<longrightarrow>
     result h' v' = view h v \<and> view h' v = view h v
     \<and> (if a < length h then result (h'[a := c]) v' = view h v else view (h'[a := c]) v = view h v))"

lemma deep_copy_isolates: "deep_copy copy view reach \<Longrightarrow> isolates copy view view reach"
  unfolding isolates_def by (intro allI impI) (elim conjE, rule deep_copy.isolated)

lemma isolatesD:
  assumes "isolates copy result view reach" "reach h v \<subseteq> {..<length h}" "copy v h = (v', h')" "a < length h"
  shows "result (h'[a := c]) v' = view h v"
  using assms(1) [unfolded isolates_def, rule_format, OF conjI [OF assms(2,3)], of a c] assms(4) by simp

text \<open>Copies of what a pointer points to, as a pointer and as a runtime.Object.\<close>

definition viewObject :: "('x mem \<Rightarrow> addr option \<Rightarrow> 'v option) \<Rightarrow> 'x mem \<Rightarrow> object \<Rightarrow> 'v option" where
  "viewObject view h x = (case x of NilObject \<Rightarrow> None | Object p \<Rightarrow> view h p)"

abbreviation copiesPtr ::
    "(addr option \<Rightarrow> 'x mem \<Rightarrow> addr option \<times> 'x mem) \<Rightarrow> ('x cell \<Rightarrow> 's option)
       \<Rightarrow> ('x mem \<Rightarrow> 's \<Rightarrow> 'v) \<Rightarrow> ('x mem \<Rightarrow> 's \<Rightarrow> addr set) \<Rightarrow> bool" where
  "copiesPtr copy get view reach \<equiv> isolates copy (viewPtr view get) (viewPtr view get) (reachPtr reach get)"

abbreviation copiesObject ::
    "(addr option \<Rightarrow> 'x mem \<Rightarrow> object \<times> 'x mem) \<Rightarrow> ('x cell \<Rightarrow> 's option)
       \<Rightarrow> ('x mem \<Rightarrow> 's \<Rightarrow> 'v) \<Rightarrow> ('x mem \<Rightarrow> 's \<Rightarrow> addr set) \<Rightarrow> bool" where
  "copiesObject copy get view reach \<equiv>
     isolates copy (viewObject (viewPtr view get)) (viewPtr view get) (reachPtr reach get)"

lemma copies_ptr:
  "deep_copy copy view reach \<Longrightarrow> (\<And>s. get (mk s) = Some s) \<Longrightarrow> copiesPtr (copyDeep copy get mk) get view reach"
  by (intro deep_copy_isolates deep_copyPtr)

lemma copies_object:
  assumes "copiesPtr copy get view reach"
  shows "copiesObject (DeepCopyObject copy) get view reach"
proof -
  have "viewObject (viewPtr view get) x (if q \<noteq> None then Object q else NilObject) = viewPtr view get x q" for x q
    by (simp add: viewObject_def viewPtr_def)
  with assms show ?thesis unfolding isolates_def DeepCopyObject_def
    by (auto split: prod.splits)
qed

lemmas DeepCopy_defs =
  CheckpointStorageConfig_DeepCopy_def GPUConfig_DeepCopy_def
  JobReplicaStatus_DeepCopy_def CheckpointConfig_DeepCopy_def GCPConfig_DeepCopy_def
  InstanceTemplateStatus_DeepCopy_def ProvisionedInstanceSpec_DeepCopy_def
  ProvisionedInstanceStatus_DeepCopy_def SpotInstanceJobSpec_DeepCopy_def
  SpotInstanceJobStatus_DeepCopy_def InstanceTemplateList_DeepCopy_def
  ProvisionedInstanceList_DeepCopy_def SpotInstanceJobList_DeepCopy_def
  InstanceTemplateSpec_DeepCopy_def InstanceTemplate_DeepCopy_def
  ProvisionedInstance_DeepCopy_def SpotInstanceJob_DeepCopy_def
lemmas DeepCopyObject_defs =
  InstanceTemplate_DeepCopyObject_def InstanceTemplateList_DeepCopyObject_def
  ProvisionedInstance_DeepCopyObject_def ProvisionedInstanceList_DeepCopyObject_def
  SpotInstanceJob_DeepCopyObject_def SpotInstanceJobList_DeepCopyObject_def
lemmas DeepCopyInto_flat = CheckpointStorageConfig_DeepCopyInto_def GPUConfig_DeepCopyInto_def
  JobReplicaStatus_DeepCopyInto_def

text \<open>A SpotInstanceJob with its number of replicas, and a template spec with its GPU, in memory.\<close>

definition exJobMem :: "ref_value mem" where
  "exJobMem = [CSpotJob \<lparr>msMeta = RMeta (exMeta ''train'') None,
     msSpec = \<lparr>msReplicas = Some 1, msJobTemplate = RTemplate (sjJobTemplate exSpec),
       msCheckpointConfig = \<lparr>mcImageRepo = ''r'', mcInterval = 30, mcCredentialRef = None, mcStorage = None\<rparr>,
       msInstanceTemplateRef = \<lparr>lrName = ''tmpl''\<rparr>, msCredentialsRef = \<lparr>srName = ''creds'', srNamespace = ''ns''\<rparr>\<rparr>,
     msStatus = \<lparr>msConditions = None, msActiveReplicas = 0, msLastCheckpointTime = None,
       msLastCheckpointImage = [], msJobStatuses = None\<rparr>\<rparr>, CInt 3]"

definition exSpecMem :: "ref_value mem" where
  "exSpecMem = [CTemplateSpec \<lparr>mtVMImage = ''img'', mtGPU = Some 1,
     mtGCP = \<lparr>mgProject = ''proj'', mgZone = ''z'', mgRegion = [], mgMachineType = ''n1'', mgDiskSizeGB = 100,
       mgDiskType = ''pd'', mgNetworkTags = None, mgServiceAccount = []\<rparr>,
     mtStartupScript = [], mtPreemptible = None\<rparr>, CGPU \<lparr>gpType = ''t4'', gpCount = 1\<rparr>]"

text \<open>
  C29. Provided the deep copies of the types of other modules do, every
  generated deep copy of the package copies faithfully and shares nothing, the seventeen that
  answer a pointer and the six that answer a runtime.Object: the copy of a pointer reads as
  nil just when the pointer does, what it points to means the same in every field, no write to memory that
  was there before is seen through the copy, and no write to memory allocated since is seen
  through the original.
\<close>

theorem deep_copies_isolated:
  assumes "foreign_types F"
  shows "copiesPtr (SpotInstanceJob_DeepCopy F) asSpotJob (viewSpotJob F) (reachSpotJob F)
    \<and> copiesPtr (SpotInstanceJobSpec_DeepCopy F) asSIJSpec (viewSIJSpec F) (reachSIJSpec F)
    \<and> copiesPtr (SpotInstanceJobStatus_DeepCopy F) asSIJStatus (viewSIJStatus F) (reachSIJStatus F)
    \<and> copiesPtr (SpotInstanceJobList_DeepCopy F) asSpotJobList
        (viewList F (viewSpotJob F) asSpotJobs) (reachList F (reachSpotJob F) asSpotJobs)
    \<and> copiesPtr (ProvisionedInstance_DeepCopy F) asInstance (viewInstance F) (reachInstance F)
    \<and> copiesPtr (ProvisionedInstanceSpec_DeepCopy F) asPISpec (viewPISpec F) (reachPISpec F)
    \<and> copiesPtr (ProvisionedInstanceStatus_DeepCopy F) asPIStatus (viewPIStatus F) (reachPIStatus F)
    \<and> copiesPtr (ProvisionedInstanceList_DeepCopy F) asInstanceList
        (viewList F (viewInstance F) asInstances) (reachList F (reachInstance F) asInstances)
    \<and> copiesPtr (InstanceTemplate_DeepCopy F) asTemplate (viewTemplate F) (reachTemplate F)
    \<and> copiesPtr InstanceTemplateSpec_DeepCopy asTemplateSpec viewTemplateSpec reachTemplateSpec
    \<and> copiesPtr (InstanceTemplateStatus_DeepCopy F) asTemplateStatus (viewTemplateStatus F) (reachTemplateStatus F)
    \<and> copiesPtr (InstanceTemplateList_DeepCopy F) asTemplateList
        (viewList F (viewTemplate F) asTemplates) (reachList F (reachTemplate F) asTemplates)
    \<and> copiesPtr CheckpointConfig_DeepCopy asCheckpointConfig viewCheckpointConfig reachCheckpointConfig
    \<and> copiesPtr GCPConfig_DeepCopy asGCPConfig viewGCP reachGCP
    \<and> copiesPtr CheckpointStorageConfig_DeepCopy asStorage (\<lambda>_ x. x) (\<lambda>_ _. {})
    \<and> copiesPtr GPUConfig_DeepCopy asGPU (\<lambda>_ x. x) (\<lambda>_ _. {})
    \<and> copiesPtr JobReplicaStatus_DeepCopy asReplicaStatus (\<lambda>_ x. x) (\<lambda>_ _. {})
    \<and> copiesObject (SpotInstanceJob_DeepCopyObject F) asSpotJob (viewSpotJob F) (reachSpotJob F)
    \<and> copiesObject (SpotInstanceJobList_DeepCopyObject F) asSpotJobList
        (viewList F (viewSpotJob F) asSpotJobs) (reachList F (reachSpotJob F) asSpotJobs)
    \<and> copiesObject (ProvisionedInstance_DeepCopyObject F) asInstance (viewInstance F) (reachInstance F)
    \<and> copiesObject (ProvisionedInstanceList_DeepCopyObject F) asInstanceList
        (viewList F (viewInstance F) asInstances) (reachList F (reachInstance F) asInstances)
    \<and> copiesObject (InstanceTemplate_DeepCopyObject F) asTemplate (viewTemplate F) (reachTemplate F)
    \<and> copiesObject (InstanceTemplateList_DeepCopyObject F) asTemplateList
        (viewList F (viewTemplate F) asTemplates) (reachList F (reachTemplate F) asTemplates)"
  unfolding DeepCopy_defs DeepCopyObject_defs DeepCopyInto_flat
  by (intro conjI copies_object copies_ptr as_cell deep_copyFlat deep_CheckpointConfig deep_GCPConfig
      deep_InstanceTemplateSpec foreign_types.kinds [OF assms])

theorem deep_copies_isolated_witness:
  "\<exists>q h'. SpotInstanceJob_DeepCopy referenceCopies (Some 0) exJobMem = (q, h')
     \<and> map_option (\<lambda>j. sjReplicas (sjSpec j))
         (viewPtr (viewSpotJob referenceCopies) asSpotJob (h'[1 := CInt 5]) q) = Some (Some 3)"
proof -
  let ?F = referenceCopies
  obtain q h' where run: "SpotInstanceJob_DeepCopy ?F (Some 0) exJobMem = (q, h')" by fastforce
  have "copiesPtr (SpotInstanceJob_DeepCopy ?F) asSpotJob (viewSpotJob ?F) (reachSpotJob ?F)"
    by (rule conjunct1 [OF deep_copies_isolated [OF reference.foreign_types_axioms]])
  from isolatesD [OF this _ run, of 1 "CInt 5"]
  have "viewPtr (viewSpotJob ?F) asSpotJob (h'[1 := CInt 5]) q
      = viewPtr (viewSpotJob ?F) asSpotJob exJobMem (Some 0)"
    by (simp add: exJobMem_def reachPtr_def reachSpotJob_def reachSIJSpec_def reachSIJStatus_def reachSlice_def
        reachCheckpointConfig_def cellAt_def referenceCopies_def refReach_def)
  also have "map_option (\<lambda>j. sjReplicas (sjSpec j)) \<dots> = Some (Some 3)"
    by (simp add: exJobMem_def viewPtr_def viewSpotJob_def viewSIJSpec_def cellAt_def viewInt_def)
  finally show ?thesis using run by blast
qed

text \<open>Overwriting a template spec by another changes nothing for what it points to.\<close>

lemma asTemplateSpec_iff: "asTemplateSpec c = Some ts \<longleftrightarrow> c = CTemplateSpec ts"
  by (cases c) (simp_all add: asTemplateSpec_def)

lemma overwrite_spec:
  assumes "cellAt h a = Some (CTemplateSpec m)"
  shows "viewTemplateSpec (h[a := CTemplateSpec m']) x = viewTemplateSpec h x"
proof -
  have "deref (h[a := CTemplateSpec m']) p = deref h p
      \<or> deref h p = Some (CTemplateSpec m) \<and> deref (h[a := CTemplateSpec m']) p = Some (CTemplateSpec m')" for p
    using assms by (cases p) (auto simp: cellAt_def nth_list_update split: if_splits)
  then have "viewGPU (deref (h[a := CTemplateSpec m']) p) = viewGPU (deref h p)"
    "viewBool (deref (h[a := CTemplateSpec m']) p) = viewBool (deref h p)"
    "viewStrings (deref (h[a := CTemplateSpec m']) p) = viewStrings (deref h p)" for p
    by (metis (no_types, lifting) cell.case(10) option.case(2) viewGPU_def viewBool_def viewStrings_def)+
  then show ?thesis by (simp add: viewTemplateSpec_def viewGCP_def)
qed

text \<open>
  C28. Appending the join command to a deep copy of the template's spec
  in memory refines the definition on values: the copy means the spec with the join command,
  the template the pointer came from means what it meant, and no cell that was there before
  has changed.
\<close>

theorem template_copy_refines:
  assumes spec: "specAt h p = Some ts" and wf: "reachPtr reachTemplateSpec asTemplateSpec h p \<subseteq> {..<length h}"
    and run: "joinTemplate cmd p h = (q, h')"
  shows "specAt h' q = Some (withJoinCommand cmd ts) \<and> specAt h' p = Some ts \<and> take (length h) h' = h"
proof -
  obtain c h1 where copy: "InstanceTemplateSpec_DeepCopy p h = (c, h1)" by fastforce
  have d: "deep_copy InstanceTemplateSpec_DeepCopy specAt (reachPtr reachTemplateSpec asTemplateSpec)"
    unfolding InstanceTemplateSpec_DeepCopy_def by (intro deep_copyPtr deep_InstanceTemplateSpec as_cell)
  note iso = deep_copy.isolated [OF d wf copy] and fresh = deep_copy.fresh [OF d wf copy]
  from iso spec have "specAt h1 c = Some ts" by simp
  then obtain a m where a: "c = Some a" "cellAt h1 a = Some (CTemplateSpec m)" "viewTemplateSpec h1 m = ts"
    by (cases c) (auto simp: viewPtr_def Option.bind_eq_Some_conv asTemplateSpec_iff)
  let ?script = "if mtStartupScript m \<noteq> [] then mtStartupScript m @ [CHR 0x0A] @ cmd
    else ''#!/bin/bash'' @ [CHR 0x0A] @ cmd"
  let ?m = "m\<lparr>mtStartupScript := ?script\<rparr>"
  from run copy a have q: "q = c" "h' = h1[a := CTemplateSpec ?m]" by (auto simp: joinTemplate_def Let_def)
  from fresh a(1) have new: "length h \<le> a" "a < length h1" by (auto simp: reachPtr_def)
  have "cellAt h' a = Some (CTemplateSpec ?m)" using new by (simp add: q cellAt_def)
  then have "specAt h' q = Some (viewTemplateSpec h' ?m)" by (simp add: q(1) a(1) viewPtr_def)
  also have "viewTemplateSpec h' ?m = withJoinCommand cmd ts"
    unfolding q(2) overwrite_spec [OF a(2)] a(3) [symmetric]
    by (simp add: withJoinCommand_def viewTemplateSpec_def)
  finally have copied: "specAt h' q = Some (withJoinCommand cmd ts)" .
  obtain xs where h1: "h1 = h @ xs" using deep_copy.extends [OF d wf copy] by blast
  have "specAt h' p = Some ts"
    using deep_copy.isolated [OF d wf copy, of a "CTemplateSpec ?m"] new(1) spec by (simp add: q(2))
  with copied new(1) show ?thesis by (simp add: q(2) h1)
qed

theorem template_copy_refines_witness:
  "\<exists>q h'. joinTemplate ''cmd'' (Some 0) exSpecMem = (q, h')
     \<and> map_option tsStartupScript (specAt h' q) = Some (''#!/bin/bash'' @ [CHR 0x0A] @ ''cmd'')
     \<and> map_option tsStartupScript (specAt h' (Some 0)) = Some []"
proof -
  obtain q h' where run: "joinTemplate ''cmd'' (Some 0) exSpecMem = (q, h')" by fastforce
  obtain ts where ts: "specAt exSpecMem (Some 0) = Some ts" "tsStartupScript ts = []"
    by (simp add: viewPtr_def exSpecMem_def cellAt_def viewTemplateSpec_def)
  have "reachPtr reachTemplateSpec asTemplateSpec exSpecMem (Some 0) \<subseteq> {..<length exSpecMem}"
    by (simp add: reachPtr_def reachTemplateSpec_def reachGCP_def exSpecMem_def cellAt_def)
  from template_copy_refines [OF ts(1) this run] ts(2) run show ?thesis
    by (intro exI [of _ q] exI [of _ h']) (simp add: withJoinCommand_def)
qed

end
