(* ===== verification/Spec2Isabelle.thy ===== *)
theory Spec2Isabelle
  imports NodeJoiner Operator InstanceStore JobStore Joining Wiring CheckpointWait Flags DeepCopy
begin

text \<open>
  A verification development for the spot-instance training operator, a Kubernetes operator
  in Go. It runs training jobs (SpotInstanceJob) on preemptible machines: one
  ProvisionedInstance per machine, one batch job per replica, checkpoints of running jobs
  when a machine is preempted, and restored jobs from the images of a completed checkpoint.

  \<^bold>\<open>The program and its model.\<close> The operator is two reconcilers, called by
  controller-runtime with the name of an object, which share nothing in memory but the
  goroutines the first one starts.

  \<^item> \<^theory_text>\<open>Prelude\<close>, \<^theory_text>\<open>GoLib\<close>: the collections the proofs draw from; what the source
    uses of Go (int32 wrap-around, durations, number and string functions).
  \<^item> \<^theory_text>\<open>Api\<close>: the types of \<^verbatim>\<open>api/v1alpha1\<close> and the fields the code uses of jobs,
    pods, nodes, secrets, checkpoints and machines, as records.
  \<^item> \<^theory_text>\<open>Effects\<close>: the clients (Kubernetes API, compute service, clock, SSH) as
    parameters, the run state, and the contracts of programs: a program's result with the
    actions it adds to the trace (yields, emits), and that it comes back (returns).
  \<^item> \<^theory_text>\<open>Frames\<close>: the same for relations between the states before and after.
  \<^item> \<^theory_text>\<open>Cluster\<close>: a reference environment that stores its objects; no definition of
    the operator mentions it. Interface laws and closed examples are discharged on it.
  \<^item> \<^theory_text>\<open>Provisioner\<close>: \<^verbatim>\<open>internal/gcp/provisioner.go\<close>.
    \<^theory_text>\<open>NodeJoiner\<close>: \<^verbatim>\<open>internal/gcp/node_joiner.go\<close>.
  \<^item> \<^theory_text>\<open>PIController\<close>: \<^verbatim>\<open>provisionedinstance_controller.go\<close>, from ReconcilePI to
    the deletion of machine and node. \<^theory_text>\<open>Lifecycle\<close>: the five phases it refines.
    \<^theory_text>\<open>Joining\<close>: what two passes achieve with services that do not fail.
  \<^item> \<^theory_text>\<open>Checkpoint\<close>, \<^theory_text>\<open>Jobs\<close>, \<^theory_text>\<open>CheckpointWait\<close>: \<^verbatim>\<open>spotinstancejob_checkpoint.go\<close>;
    \<^theory_text>\<open>Jobs\<close> and \<^theory_text>\<open>JobReplicas\<close>: \<^verbatim>\<open>spotinstancejob_job.go\<close>.
  \<^item> \<^theory_text>\<open>Instances\<close>: \<^verbatim>\<open>spotinstancejob_provisionedinstance.go\<close>.
    \<^theory_text>\<open>InstanceStore\<close>: the same with a server that stores what is created.
  \<^item> \<^theory_text>\<open>Preemption\<close>: \<^verbatim>\<open>spotinstancejob_preemption.go\<close>.
  \<^item> \<^theory_text>\<open>SIJController\<close>: \<^verbatim>\<open>spotinstancejob_controller.go\<close> and
    \<^verbatim>\<open>spotinstancejob_status.go\<close>, with Reconcile. \<^theory_text>\<open>Settled\<close>, \<^theory_text>\<open>JobStore\<close>: its passes
    with a server that stores jobs and statuses.
  \<^item> \<^theory_text>\<open>History\<close>, \<^theory_text>\<open>Operator\<close>: both reconcilers and the goroutines as one step
    relation; properties of every history.
  \<^item> \<^theory_text>\<open>Flags\<close>, \<^theory_text>\<open>Manager\<close>: \<^verbatim>\<open>cmd/main.go\<close> from the arguments on, with the types
    registered by the API package and the set-up of the two controllers. \<^theory_text>\<open>Wiring\<close>: which
    changes wake which reconciler (SetupWithManager).
  \<^item> \<^theory_text>\<open>Memory\<close>, \<^theory_text>\<open>MemObjects\<close>, \<^theory_text>\<open>DeepCopy\<close>: \<^verbatim>\<open>zz_generated.deepcopy.go\<close>, on
    objects in memory; the fields of an object as a value are its view.

  A Go method is one definition of the same name where HOL allows it; ReconcilePI and
  handleDeletionPI are the methods of the ProvisionedInstance reconciler, Reconcile and
  handleDeletionSIJ those of the SpotInstanceJob reconciler. Steps of long methods are
  definitions of their own. The state of a run is the world, of which only the clients know
  the inside, and the trace of the calls that change something, with their answers. A
  program is a function from a state to an optional result and state; None is a run that
  never comes back. Errors are values: a client call answers with an error or a value, and
  every early return of the source is a branch.

  \<^bold>\<open>What the lemmas show.\<close>

  \<^item> For each program, which actions it can add to the trace, in which order and with which
    content (the lemmas named yields_ and emits_), and that it comes back (returns_) where
    it does. The properties on preemption, jobs, checkpoints, machines and deletion are read
    off these contracts.
  \<^item> Provisioning: the indices a pass allocates are the least free ones; with a server that
    stores what is created a pass refines an abstract allocation, and converges.
  \<^item> Convergence: with services that do not fail a new instance has its machine after one pass
    and has joined after the next one that finds it running; a pass over the jobs starts
    exactly the missing ones, and once they run the SpotInstanceJob is settled: any number of
    passes then only writes its status. What a pass creates wakes the SpotInstanceJob again.
  \<^item> Life cycle: every status write is a step of an inductive relation, and seen through its
    phase a status never moves back.
  \<^item> Histories: whatever the order of passes, goroutines and changes by others, every action
    is lawful, a restored job comes after the deletion of the one it replaces, and a waiting
    goroutine can always run.
  \<^item> Deep copies: in memory a deep copy means the same and shares nothing, and the template
    that gets the join command in memory refines the one on values.
  \<^item> Equivalences: the polling loop returns just when a bounded number of polls does; the
    pending-checkpoint test is its specification; the set-up of the manager is its plan, and
    parsing undoes spelling out the flags.
  \<^item> Where the code does less than it means to, the property says so: an error text taken for
    a missing machine, a machine adopted by a prefix of its name, machines in staging not
    counted, an endless creation loop, a job lost when no machine is ready, a fresh job
    created twice, a live job checkpointed once.

  \<^bold>\<open>Loops and bounds.\<close> createInstances, its search for a free index, the polling of
  an operation and the waiting loop for checkpoints are partial functions, so not returning
  is a value: the development proves when they return and when they do not. The dials of the
  SSH joiner count down from thirty. All other loops are structural. Replica counts are
  int32: bounds on the desired replicas (at most 1073741823, half the range, as the code
  doubles the number) and on the number of listed objects are hypotheses where they matter.

  \<^bold>\<open>What is relied on.\<close> The clients are arbitrary functions over an arbitrary world,
  changing from call to call, so other actors may move between any two calls. Documented
  behaviour is a hypothesis where it is used: an owner reference changes the owners only
  (owners_only), a lookup by name answers an object of that name (named_answers), create
  calls go through (creates_succeed), a server stores instances (instance_store), statuses
  (steady_server) and jobs (job_server), the services around a machine do not fail
  (machine_services), a change of an object wakes the controllers that watch it (watching), a
  timer grants finitely many ticks (checkpoint_timer), the deep copies of types of other
  modules keep the contract (foreign_types). Each is discharged on a reference instance. A successful
  update replaces the caller's object by the answer; the object passed to a create call is not
  read again by the source.

  \<^bold>\<open>Not modelled.\<close> What controller-runtime does with watches and registered types, which is
  not code of the repository (its documented behaviour is a hypothesis); the flags other modules
  declare, and the logger; log lines and contexts, but for the
  cancellation of a polling loop; the closing of SSH clients; the validation and defaulting
  the API server does from the kubebuilder markers; manifests and tests. A goroutine works on the
  SpotInstanceJob as it was when it was started; that the source shares the object with the
  reconciler is not visible. In the step relation a pass that never comes back adds nothing
  to the history, and calls of overlapping passes are not interleaved in one trace: overlap
  is covered by the clients' freedom to change the world at every call.
\<close>

end
